theory Spec2Isabelle
  imports Complex_Main "HOL-Library.Log_Nat"
begin

section \<open>JavaScript numbers and the values passed to the property editor\<close>

text \<open>
  A JavaScript number is an IEEE 754 double: \<open>NaN\<close>, an infinity, or a finite value,
  which is modelled by the real number it denotes. The sign of zero is not modelled:
  \<open>-0\<close> and \<open>0\<close> are the same \<open>Num 0\<close>, which is all the code below can observe (both
  are falsy, and no divisor below is zero).
\<close>

datatype jsnum = NaN | PosInfinity | NegInfinity | Num real

text \<open>
  The finite doubles are the numbers \<open>m * 2\<^sup>e\<close> with \<open>|m| < 2\<^sup>5\<^sup>3\<close> and
  \<open>-1074 \<le> e \<le> 971\<close>; the exponent is written here as \<open>e - 1074\<close> with a natural \<open>e\<close>.
\<close>

definition isDouble :: "real \<Rightarrow> bool" where
  "isDouble x \<longleftrightarrow>
     (\<exists>m :: int. \<exists>e :: nat. \<bar>m\<bar> < 2 ^ 53 \<and> e \<le> 2045 \<and> x = of_int m * 2 ^ e / 2 ^ 1074)"

text \<open>
  Every arithmetic operation and every decimal literal yields the double nearest to the
  exact result, a tie going to the even significand, and an infinity when the rounded
  magnitude reaches \<open>2\<^sup>1\<^sup>0\<^sup>2\<^sup>4\<close>. \<open>roundEven\<close> rounds to the nearest integer, a tie to
  the even one. \<open>ulpShift x\<close> is the exponent (counted from \<open>-1074\<close>) of the spacing of
  the doubles around \<open>x\<close>: 53 significant bits are kept, and the spacing never falls below
  \<open>2\<^sup>-\<^sup>1\<^sup>0\<^sup>7\<^sup>4\<close> (subnormal numbers).
\<close>

definition roundEven :: "real \<Rightarrow> int" where
  "roundEven q = (let f = \<lfloor>q\<rfloor> in
     if q - of_int f < 1 / 2 then f
     else if 1 / 2 < q - of_int f then f + 1
     else if even f then f else f + 1)"

definition ulpShift :: "real \<Rightarrow> nat" where
  "ulpShift x = nat (bitlen \<lfloor>\<bar>x\<bar> * 2 ^ 1074\<rfloor> - 53)"

definition toDouble :: "real \<Rightarrow> jsnum" where
  "toDouble x = (let u = ulpShift x; n = roundEven (x * 2 ^ 1074 / 2 ^ u) in
     if 2 ^ 2098 \<le> \<bar>n\<bar> * 2 ^ u then (if 0 < x then PosInfinity else NegInfinity)
     else Num (of_int n * 2 ^ u / 2 ^ 1074))"

text \<open>
  \<open>updateObjectProperty(property, value)\<close> receives \<open>e.target.value\<close> (a string) from the
  text, range and colour inputs, a number from the uniform-scale buttons and a boolean
  from the wireframe toggle.
\<close>

datatype jsval = Str string | Number jsnum | Bool bool

text \<open>Truthiness of a number: \<open>NaN\<close> and zero are falsy; \<open>a || b\<close> on numbers.\<close>

definition truthy :: "jsnum \<Rightarrow> bool" where
  "truthy n = (n \<noteq> NaN \<and> n \<noteq> Num 0)"

definition orElse :: "jsnum \<Rightarrow> jsnum \<Rightarrow> jsnum" where
  "orElse a b = (if truthy a then a else b)"

definition negate :: "jsnum \<Rightarrow> jsnum" where
  "negate n = (case n of NaN \<Rightarrow> NaN | PosInfinity \<Rightarrow> NegInfinity
                 | NegInfinity \<Rightarrow> PosInfinity | Num r \<Rightarrow> Num (- r))"

subsection \<open>parseFloat\<close>

text \<open>
  \<open>parseFloat\<close> as ECMAScript defines it: leading white space is skipped, then the
  longest prefix that is a decimal literal (optional sign, \<open>Infinity\<close>, or digits with
  an optional fraction and an optional exponent) is converted to the nearest double;
  anything after the prefix is ignored, and \<open>NaN\<close> is returned when there is no such
  prefix. A string is the list of its code units; a \<open>char\<close> is a code unit below 256, so
  the white space of ECMAScript that can occur is the space, the characters 9 to 13 and
  the no-break space \<open>0xA0\<close> (the other Unicode spaces have larger codes).
\<close>

definition isDigit :: "char \<Rightarrow> bool" where
  "isDigit c = (c \<in> set ''0123456789'')"

definition isWhiteSpace :: "char \<Rightarrow> bool" where
  "isWhiteSpace c =
     (c \<in> set [CHR '' '', CHR 0x09, CHR 0x0A, CHR 0x0B, CHR 0x0C, CHR 0x0D, CHR 0xA0])"

definition digitVal :: "char \<Rightarrow> nat" where
  "digitVal c = of_char c - 48"

definition digitsVal :: "string \<Rightarrow> nat" where
  "digitsVal ds = foldl (\<lambda>a c. 10 * a + digitVal c) 0 ds"

definition pow10 :: "int \<Rightarrow> real" where
  "pow10 e = (if 0 \<le> e then 10 ^ nat e else 1 / 10 ^ nat (- e))"

text \<open>The exponent part counts only when at least one digit follows the \<open>e\<close> and its sign.\<close>

definition parseExponent :: "string \<Rightarrow> int" where
  "parseExponent r =
     (case r of
        [] \<Rightarrow> 0
      | c # r1 \<Rightarrow>
          if c = CHR ''e'' \<or> c = CHR ''E'' then
            (let neg = (case r1 of [] \<Rightarrow> False | d # _ \<Rightarrow> d = CHR ''-'');
                 r2 = (case r1 of [] \<Rightarrow> r1
                       | d # r' \<Rightarrow> if d = CHR ''-'' \<or> d = CHR ''+'' then r' else r1);
                 ds = takeWhile isDigit r2
             in if ds = [] then 0
                else if neg then - int (digitsVal ds) else int (digitsVal ds))
          else 0)"

definition parseUnsigned :: "string \<Rightarrow> jsnum" where
  "parseUnsigned r =
     (if take 8 r = ''Infinity'' then PosInfinity
      else
        (let ip = takeWhile isDigit r;
             r1 = dropWhile isDigit r;
             hasDot = (case r1 of [] \<Rightarrow> False | c # _ \<Rightarrow> c = CHR ''.'');
             fp = (if hasDot then takeWhile isDigit (tl r1) else []);
             r2 = (if hasDot then dropWhile isDigit (tl r1) else r1)
         in if ip = [] \<and> fp = [] then NaN
            else toDouble (real (digitsVal (ip @ fp)) / 10 ^ length fp
                           * pow10 (parseExponent r2))))"

definition parseFloatStr :: "string \<Rightarrow> jsnum" where
  "parseFloatStr s =
     (let t = dropWhile isWhiteSpace s
      in case t of
           [] \<Rightarrow> NaN
         | c # r \<Rightarrow>
             if c = CHR ''-'' then negate (parseUnsigned r)
             else if c = CHR ''+'' then parseUnsigned r
             else parseUnsigned t)"

text \<open>
  \<open>parseFloat\<close> first converts its argument to a string: a number prints and parses
  back to itself, a boolean prints as \<open>true\<close> or \<open>false\<close>, which has no numeric prefix.
\<close>

definition parseFloat :: "jsval \<Rightarrow> jsnum" where
  "parseFloat v = (case v of Str s \<Rightarrow> parseFloatStr s | Number n \<Rightarrow> n | Bool _ \<Rightarrow> NaN)"

text \<open>
  \<open>Math.PI\<close> is the double nearest to \<open>\<pi>\<close>, and \<open>THREE.MathUtils.DEG2RAD\<close> is the
  double that the division \<open>Math.PI / 180\<close> yields. \<open>THREE.MathUtils.degToRad\<close> multiplies
  by \<open>DEG2RAD\<close>.
\<close>

definition MathPI :: real where
  "MathPI = 884279719003555 / 2 ^ 48"

definition DEG2RAD :: real where
  "DEG2RAD = 5030569068109113 / 2 ^ 58"

definition degToRad :: "jsnum \<Rightarrow> jsnum" where
  "degToRad d = (case d of Num r \<Rightarrow> toDouble (r * DEG2RAD) | other \<Rightarrow> other)"


subsection \<open>Template literals\<close>

text \<open>A natural number interpolated into a template literal prints in decimal.\<close>

definition digitChar :: "nat \<Rightarrow> char" where
  "digitChar d = ''0123456789'' ! d"

function showNat :: "nat \<Rightarrow> string" where
  "showNat n = (if n < 10 then [digitChar n] else showNat (n div 10) @ [digitChar (n mod 10)])"
  by pat_completeness auto
termination
  by (relation "measure (\<lambda>n. n)") auto

declare showNat.simps [simp del]

section \<open>Scene data\<close>

text \<open>
  A geometry is described by the THREE constructor and its numeric arguments where an
  \<open>addPrimitive\<close> case is a single constructor call on literals; the cases that build
  their geometry from curves, profiles or parametric functions are named by their case
  label; an imported geometry is an opaque handle of the loader.
\<close>

datatype geometry = Geom string "real list" | Built string | Loaded nat

record vector3 =
  vx :: jsnum
  vy :: jsnum
  vz :: jsnum

text \<open>
  The fields \<open>x\<close>, \<open>y\<close>, \<open>z\<close> of a \<open>Vector3\<close> or \<open>Euler\<close> are \<open>vx\<close>, \<open>vy\<close>, \<open>vz\<close> here.
  Colours are kept as the 24-bit value that \<open>Color.getHex()\<close> reports
  (\<open>0x333333 = 3355443\<close>); the floating-point channels behind it are not modelled. A
  \<open>MeshStandardMaterial\<close> always carries an emissive colour, so the source's test
  \<open>if (material.emissive)\<close> always succeeds. Of a mesh, the vertex buffers, the shadow
  flags and the GPU resources that \<open>dispose()\<close> releases are left out; \<open>objectId\<close> is
  \<open>mesh.userData.objectId\<close>. Every mesh of the model carries its own material, as the
  meshes that \<open>addPrimitive\<close>, \<open>duplicateObject\<close> and \<open>undo\<close> create do. THREE also lets
  meshes share one material object, which the meshes of an imported file may do
  (\<open>child.clone()\<close> keeps the material of the node); a write to the material of one of them
  then shows on the others too, and the claims about materials below are worded so that
  they hold in that case as well.
\<close>

record material =
  color :: nat
  metalness :: jsnum
  roughness :: jsnum
  transparent :: bool
  opacity :: jsnum
  emissive :: nat
  emissiveIntensity :: jsnum
  wireframe :: bool

record mesh =
  geometry :: geometry
  material :: material
  position :: vector3
  rotation :: vector3
  scale :: vector3
  visible :: bool
  objectId :: string

text \<open>The defaults THREE gives a \<open>MeshStandardMaterial\<close> when an option is left out.\<close>

definition MeshStandardMaterial :: material where
  "MeshStandardMaterial =
     \<lparr>color = 0xffffff, metalness = Num 0, roughness = Num 1, transparent = False,
      opacity = Num 1, emissive = 0x000000, emissiveIntensity = Num 1, wireframe = False\<rparr>"

definition Vector3 :: "real \<Rightarrow> real \<Rightarrow> real \<Rightarrow> vector3" where
  "Vector3 a b c = \<lparr>vx = Num a, vy = Num b, vz = Num c\<rparr>"

text \<open>\<open>new THREE.Mesh(geometry, material)\<close>: at the origin, unrotated, unit scale, visible.\<close>

definition Mesh :: "geometry \<Rightarrow> material \<Rightarrow> mesh" where
  "Mesh g m =
     \<lparr>geometry = g, material = m, position = Vector3 0 0 0, rotation = Vector3 0 0 0,
      scale = Vector3 1 1 1, visible = True, objectId = []\<rparr>"

text \<open>
  JavaScript objects are shared by reference: the entries of \<open>objects\<close>,
  \<open>selectedObject\<close> and \<open>selectedObjects\<close> are references to wrapper objects
  \<open>{id, name, type, mesh}\<close>, and each wrapper refers to a THREE mesh that the scene
  and the transform gizmo refer to as well. Both kinds of object live in a store; a
  reference is the index at which the object was allocated.
\<close>

type_synonym wref = nat
type_synonym mref = nat

text \<open>
  The wrapper \<open>{id, name, type, mesh}\<close>. Its fields carry the prefix \<open>obj_\<close>, since
  \<open>id\<close> is a constant of HOL.
\<close>

record sceneObject =
  obj_id :: string
  obj_name :: string
  obj_type :: string
  obj_mesh :: mref

text \<open>One entry of an undo snapshot, with exactly the fields \<open>saveUndoState\<close> copies.\<close>

record savedObj =
  sv_id :: string
  sv_name :: string
  sv_type :: string
  sv_position :: vector3
  sv_rotation :: vector3
  sv_scale :: vector3
  sv_color :: nat
  sv_metalness :: jsnum
  sv_roughness :: jsnum
  sv_visible :: bool

text \<open>
  The editor: the React state of \<open>ThreeDEditor\<close> that the operations below use, the
  store, the children of the THREE scene that are user meshes, the object the transform
  gizmo is attached to with its three snap settings, the number of \<open>generateId\<close> calls
  made so far, and the notices shown with \<open>alert\<close>. The refs \<open>sceneRef\<close> and
  \<open>transformControlsRef\<close> are assigned once by the mount effect, before any handler
  can run, and never cleared: the model is of the mounted editor, where the guards
  \<open>if (!sceneRef.current) return\<close> do not fire and \<open>?.\<close> always calls.
\<close>

record editor =
  objects :: "wref list"
  selectedObject :: "wref option"
  selectedObjects :: "wref list"
  undoStack :: "savedObj list list"
  objectCounter :: nat
  snapEnabled :: bool
  snapSize :: jsnum
  wrappers :: "sceneObject list"
  meshes :: "mesh list"
  scene :: "mref list"
  attached :: "mref option"
  translationSnap :: "jsnum option"
  rotationSnap :: "jsnum option"
  scaleSnap :: "jsnum option"
  idCalls :: nat
  alerts :: "string list"

text \<open>The state after the first render and the mount effect, before the default cube.\<close>

definition initialEditor :: editor where
  "initialEditor =
     \<lparr>objects = [], selectedObject = None, selectedObjects = [], undoStack = [],
      objectCounter = 0, snapEnabled = False, snapSize = Num (1 / 2), wrappers = [],
      meshes = [], scene = [], attached = None, translationSnap = None,
      rotationSnap = None, scaleSnap = None, idCalls = 0, alerts = []\<rparr>"

text \<open>
  Following a reference. A JavaScript reference always points to an object; the states
  built by the operations hold references into the store only.
\<close>

definition theObj :: "editor \<Rightarrow> wref \<Rightarrow> sceneObject" where
  "theObj s w = wrappers s ! w"

definition theMesh :: "editor \<Rightarrow> wref \<Rightarrow> mesh" where
  "theMesh s w = meshes s ! obj_mesh (wrappers s ! w)"

text \<open>The \<open>addPrimitive\<close> switch: case label, name prefix and geometry, in source order.\<close>

definition shapeTable :: "(string \<times> string \<times> geometry) list" where
  "shapeTable = [
  (''cube'', ''Cube'', Geom ''BoxGeometry'' [1, 1, 1]),
  (''sphere'', ''Sphere'', Geom ''SphereGeometry'' [5 / 10, 32, 32]),
  (''cylinder'', ''Cylinder'', Geom ''CylinderGeometry'' [5 / 10, 5 / 10, 1, 32]),
  (''cone'', ''Cone'', Geom ''ConeGeometry'' [5 / 10, 1, 32]),
  (''torus'', ''Torus'', Geom ''TorusGeometry'' [5 / 10, 2 / 10, 16, 100]),
  (''plane'', ''Plane'', Geom ''PlaneGeometry'' [2, 2]),
  (''torusknot'', ''TorusKnot'', Geom ''TorusKnotGeometry'' [4 / 10, 15 / 100, 100, 16]),
  (''tetrahedron'', ''Tetrahedron'', Geom ''TetrahedronGeometry'' [6 / 10]),
  (''octahedron'', ''Octahedron'', Geom ''OctahedronGeometry'' [5 / 10]),
  (''dodecahedron'', ''Dodecahedron'', Geom ''DodecahedronGeometry'' [5 / 10]),
  (''icosahedron'', ''Icosahedron'', Geom ''IcosahedronGeometry'' [5 / 10]),
  (''ring'', ''Ring'', Geom ''RingGeometry'' [3 / 10, 6 / 10, 32]),
  (''capsule'', ''Capsule'', Geom ''CapsuleGeometry'' [3 / 10, 6 / 10, 8, 16]),
  (''heart'', ''Heart'', Built ''heart''),
  (''star3d'', ''Star3D'', Built ''star3d''),
  (''pyramid'', ''Pyramid'', Geom ''ConeGeometry'' [5 / 10, 1, 4]),
  (''prism'', ''Prism'', Geom ''CylinderGeometry'' [5 / 10, 5 / 10, 1, 3]),
  (''tube'', ''Tube'', Built ''tube''),
  (''spring'', ''Spring'', Built ''spring''),
  (''arrow'', ''Arrow'', Built ''arrow''),
  (''gear'', ''Gear'', Built ''gear''),
  (''hemisphere'', ''Hemisphere'', Built ''hemisphere''),
  (''hexagonprism'', ''HexagonPrism'', Geom ''CylinderGeometry'' [5 / 10, 5 / 10, 1, 6]),
  (''octagonprism'', ''OctagonPrism'', Geom ''CylinderGeometry'' [5 / 10, 5 / 10, 1, 8]),
  (''diamond'', ''Diamond'', Built ''diamond''),
  (''crystal'', ''Crystal'', Geom ''OctahedronGeometry'' [5 / 10, 0]),
  (''egg'', ''Egg'', Built ''egg''),
  (''vase'', ''Vase'', Built ''vase''),
  (''bowl'', ''Bowl'', Built ''bowl''),
  (''goblet'', ''Goblet'', Built ''goblet''),
  (''cross'', ''Cross'', Built ''cross''),
  (''moon'', ''Moon'', Built ''moon''),
  (''lightning'', ''Lightning'', Built ''lightning''),
  (''mushroom'', ''Mushroom'', Built ''mushroom''),
  (''leaf'', ''Leaf'', Built ''leaf''),
  (''drop'', ''Drop'', Built ''drop''),
  (''knot'', ''Knot'', Geom ''TorusKnotGeometry'' [35 / 100, 1 / 10, 100, 16, 3, 2]),
  (''helix'', ''Helix'', Built ''helix''),
  (''mobius'', ''Mobius'', Built ''mobius''),
  (''ellipsoid'', ''Ellipsoid'', Geom ''SphereGeometry'' [5 / 10, 32, 32]),
  (''roundedcube'', ''RoundedCube'', Built ''roundedcube''),
  (''squarepyramid'', ''SquarePyramid'', Geom ''ConeGeometry'' [5 / 10, 1, 4]),
  (''pentagonpyramid'', ''PentagonPyramid'', Geom ''ConeGeometry'' [5 / 10, 1, 5]),
  (''hexagonpyramid'', ''HexagonPyramid'', Geom ''ConeGeometry'' [5 / 10, 1, 6]),
  (''pentagonprism'', ''PentagonPrism'', Geom ''CylinderGeometry'' [5 / 10, 5 / 10, 1, 5]),
  (''decagonprism'', ''DecagonPrism'', Geom ''CylinderGeometry'' [5 / 10, 5 / 10, 1, 10]),
  (''truncatedcone'', ''TruncatedCone'', Geom ''CylinderGeometry'' [3 / 10, 5 / 10, 1, 32]),
  (''cuboctahedron'', ''Cuboctahedron'', Geom ''IcosahedronGeometry'' [5 / 10, 0]),
  (''truncatedtetrahedron'', ''TruncatedTetra'', Geom ''TetrahedronGeometry'' [6 / 10, 1]),
  (''truncatedicosahedron'', ''SoccerBall'', Geom ''IcosahedronGeometry'' [5 / 10, 1]),
  (''stellatedoctahedron'', ''StellatedOcta'', Geom ''OctahedronGeometry'' [5 / 10, 0]),
  (''parametricwave'', ''WaveSurface'', Built ''parametricwave''),
  (''parametricspiral'', ''SpiralSurface'', Built ''parametricspiral''),
  (''parametricsaddle'', ''SaddleSurface'', Built ''parametricsaddle''),
  (''klein'', ''KleinBottle'', Built ''klein''),
  (''sweepstar'', ''SweepStar'', Built ''sweepstar''),
  (''sweepcircle'', ''SweepCircle'', Built ''sweepcircle''),
  (''lathestar'', ''LatheStar'', Built ''lathestar''),
  (''latheheart'', ''LatheHeart'', Built ''latheheart''),
  (''trefoil'', ''Trefoil'', Built ''trefoil''),
  (''cinquefoil'', ''Cinquefoil'', Built ''cinquefoil''),
  (''shell'', ''Shell'', Built ''shell''),
  (''horn'', ''Horn'', Built ''horn''),
  (''bottle'', ''Bottle'', Built ''bottle''),
  (''funnel'', ''Funnel'', Built ''funnel''),
  (''bell'', ''Bell'', Built ''bell''),
  (''hourglass'', ''Hourglass'', Built ''hourglass''),
  (''pillar'', ''Pillar'', Built ''pillar''),
  (''ufo'', ''UFO'', Built ''ufo''),
  (''lens'', ''Lens'', Built ''lens''),
  (''barrel'', ''Barrel'', Built ''barrel''),
  (''spike'', ''Spike'', Geom ''ConeGeometry'' [15 / 100, 1, 8]),
  (''wedge'', ''Wedge'', Built ''wedge''),
  (''ramp'', ''Ramp'', Built ''ramp''),
  (''arch'', ''Arch'', Built ''arch''),
  (''lshape'', ''LShape'', Built ''lshape''),
  (''tshape'', ''TShape'', Built ''tshape''),
  (''hshape'', ''HShape'', Built ''hshape'')]"


text \<open>The switch inside \<open>undo\<close> knows thirteen kinds only; every other kind gets a box.\<close>

definition undoShapeTable :: "(string \<times> geometry) list" where
  "undoShapeTable = [
  (''cube'', Geom ''BoxGeometry'' [1, 1, 1]),
  (''sphere'', Geom ''SphereGeometry'' [5 / 10, 32, 32]),
  (''cylinder'', Geom ''CylinderGeometry'' [5 / 10, 5 / 10, 1, 32]),
  (''cone'', Geom ''ConeGeometry'' [5 / 10, 1, 32]),
  (''torus'', Geom ''TorusGeometry'' [5 / 10, 2 / 10, 16, 100]),
  (''plane'', Geom ''PlaneGeometry'' [2, 2]),
  (''torusknot'', Geom ''TorusKnotGeometry'' [4 / 10, 15 / 100, 100, 16]),
  (''tetrahedron'', Geom ''TetrahedronGeometry'' [6 / 10]),
  (''octahedron'', Geom ''OctahedronGeometry'' [5 / 10]),
  (''dodecahedron'', Geom ''DodecahedronGeometry'' [5 / 10]),
  (''icosahedron'', Geom ''IcosahedronGeometry'' [5 / 10]),
  (''ring'', Geom ''RingGeometry'' [3 / 10, 6 / 10, 32]),
  (''capsule'', Geom ''CapsuleGeometry'' [3 / 10, 6 / 10, 8, 16])]"

section \<open>Operations\<close>

subsection \<open>generateId\<close>

text \<open>
  \<^verbatim>\<open>`obj_${Date.now()}_${Math.random().toString(36).substr(2, 9)}`\<close>. The clock and the
  random generator belong to the environment: \<open>env k\<close> is the millisecond timestamp and
  the base-36 suffix that the \<open>k\<close>-th call of the session sees.
\<close>

type_synonym env = "nat \<Rightarrow> nat \<times> string"

definition mkId :: "nat \<times> string \<Rightarrow> string" where
  "mkId d = ''obj_'' @ showNat (fst d) @ ''_'' @ snd d"

definition generateId :: "env \<Rightarrow> editor \<Rightarrow> string \<times> editor" where
  "generateId env s = (mkId (env (idCalls s)), s\<lparr>idCalls := Suc (idCalls s)\<rparr>)"

subsection \<open>saveUndoState\<close>

definition capture :: "editor \<Rightarrow> wref \<Rightarrow> savedObj" where
  "capture s w =
     (let obj = theObj s w; m = theMesh s w
      in \<lparr>sv_id = obj_id obj, sv_name = obj_name obj, sv_type = obj_type obj,
          sv_position = position m, sv_rotation = rotation m, sv_scale = scale m,
          sv_color = color (material m), sv_metalness = metalness (material m),
          sv_roughness = roughness (material m), sv_visible = visible m\<rparr>)"

text \<open>\<open>xs.slice(-n)\<close>: the last \<open>n\<close> elements, all of them when there are fewer.\<close>

definition slice_last :: "nat \<Rightarrow> 'a list \<Rightarrow> 'a list" where
  "slice_last n xs = drop (length xs - n) xs"

text \<open>The updater passed to \<open>setUndoStack\<close>: append, then keep the last twenty.\<close>

definition pushUndo :: "savedObj list \<Rightarrow> savedObj list list \<Rightarrow> savedObj list list" where
  "pushUndo state prev =
     (let newStack = prev @ [state]
      in if length newStack > 20 then slice_last 20 newStack else newStack)"

definition saveUndoState :: "editor \<Rightarrow> editor" where
  "saveUndoState s =
     (let state = map (capture s) (objects s)
      in s\<lparr>undoStack := pushUndo state (undoStack s)\<rparr>)"

subsection \<open>Store access\<close>

definition updMesh :: "mref \<Rightarrow> (mesh \<Rightarrow> mesh) \<Rightarrow> editor \<Rightarrow> editor" where
  "updMesh r f s = s\<lparr>meshes := (meshes s)[r := f (meshes s ! r)]\<rparr>"

definition newMesh :: "mesh \<Rightarrow> editor \<Rightarrow> mref \<times> editor" where
  "newMesh m s = (length (meshes s), s\<lparr>meshes := meshes s @ [m]\<rparr>)"

definition newObj :: "sceneObject \<Rightarrow> editor \<Rightarrow> wref \<times> editor" where
  "newObj obj s = (length (wrappers s), s\<lparr>wrappers := wrappers s @ [obj]\<rparr>)"

text \<open>\<open>scene.add(mesh)\<close> and \<open>scene.remove(mesh)\<close> on the user meshes of the scene.\<close>

definition sceneAdd :: "mref \<Rightarrow> editor \<Rightarrow> editor" where
  "sceneAdd r s = s\<lparr>scene := scene s @ [r]\<rparr>"

definition sceneRemove :: "mref \<Rightarrow> editor \<Rightarrow> editor" where
  "sceneRemove r s = s\<lparr>scene := remove1 r (scene s)\<rparr>"

definition setEmissiveHex :: "nat \<Rightarrow> mesh \<Rightarrow> mesh" where
  "setEmissiveHex h m = m\<lparr>material := (material m)\<lparr>emissive := h\<rparr>\<rparr>"

text \<open>\<open>ws.forEach(o => o.mesh.material.emissive.setHex(h))\<close>.\<close>

definition highlight :: "nat \<Rightarrow> wref list \<Rightarrow> editor \<Rightarrow> editor" where
  "highlight h ws s = foldl (\<lambda>t w. updMesh (obj_mesh (theObj t w)) (setEmissiveHex h) t) s ws"

subsection \<open>selectObject\<close>

text \<open>
  \<open>obj\<close> is \<open>None\<close> for \<open>selectObject(null)\<close>. The body reads the \<open>objects\<close> of the
  state it is applied to; a caller that has queued \<open>setObjects\<close> applies it to the state
  before that update, as the closure of the source does.
\<close>

definition selectObject :: "wref option \<Rightarrow> bool \<Rightarrow> editor \<Rightarrow> editor" where
  "selectObject obj addToSelection s =
     (let s1 = highlight 0x000000 (objects s) s
      in case obj of
           None \<Rightarrow> s1\<lparr>attached := None, selectedObject := None, selectedObjects := []\<rparr>
         | Some ob \<Rightarrow>
             if addToSelection then
               (let prev = selectedObjects s1;
                    isAlreadySelected =
                      (find (\<lambda>x. obj_id (theObj s1 x) = obj_id (theObj s1 ob)) prev \<noteq> None);
                    newSelection =
                      (if isAlreadySelected
                       then filter (\<lambda>x. obj_id (theObj s1 x) \<noteq> obj_id (theObj s1 ob)) prev
                       else prev @ [ob]);
                    s2 = highlight 0x333333 newSelection s1
                in if length newSelection > 0 then
                     (let lastSelected = last newSelection
                      in s2\<lparr>attached := Some (obj_mesh (theObj s2 lastSelected)),
                            selectedObject := Some lastSelected,
                            selectedObjects := newSelection\<rparr>)
                   else s2\<lparr>attached := None, selectedObject := None,
                           selectedObjects := newSelection\<rparr>)
             else
               (let s2 = updMesh (obj_mesh (theObj s1 ob)) (setEmissiveHex 0x333333) s1
                in s2\<lparr>attached := Some (obj_mesh (theObj s2 ob)), selectedObject := Some ob,
                      selectedObjects := [ob]\<rparr>))"

subsection \<open>deleteObject, deleteSelectedObjects, selectAllObjects\<close>

definition deleteObject :: "wref option \<Rightarrow> editor \<Rightarrow> editor" where
  "deleteObject obj s =
     (case obj of
        None \<Rightarrow> s
      | Some ob \<Rightarrow>
          (let s1 = saveUndoState s;
               oid = obj_id (theObj s1 ob);
               isPrimary = (case selectedObject s1 of
                              None \<Rightarrow> False
                            | Some sel \<Rightarrow> obj_id (theObj s1 sel) = oid);
               s2 = (if isPrimary then s1\<lparr>attached := None, selectedObject := None\<rparr> else s1);
               s3 = s2\<lparr>selectedObjects :=
                         filter (\<lambda>x. obj_id (theObj s2 x) \<noteq> oid) (selectedObjects s2)\<rparr>;
               s4 = sceneRemove (obj_mesh (theObj s3 ob)) s3
           in s4\<lparr>objects := filter (\<lambda>x. obj_id (theObj s4 x) \<noteq> oid) (objects s4)\<rparr>))"

definition deleteSelectedObjects :: "editor \<Rightarrow> editor" where
  "deleteSelectedObjects s =
     (if length (selectedObjects s) = 0 then s
      else
        (let s1 = saveUndoState s;
             s2 = foldl (\<lambda>t x. sceneRemove (obj_mesh (theObj t x)) t) s1 (selectedObjects s1)
         in s2\<lparr>objects :=
                  filter (\<lambda>x. find (\<lambda>sel. obj_id (theObj s2 sel) = obj_id (theObj s2 x))
                                   (selectedObjects s2) = None) (objects s2),
                selectedObjects := [], selectedObject := None, attached := None\<rparr>))"

definition selectAllObjects :: "editor \<Rightarrow> editor" where
  "selectAllObjects s =
     (let s1 = highlight 0x333333 (objects s) s;
          s2 = s1\<lparr>selectedObjects := objects s1\<rparr>
      in if length (objects s2) > 0 then
           s2\<lparr>selectedObject := Some (last (objects s2)),
              attached := Some (obj_mesh (theObj s2 (last (objects s2))))\<rparr>
         else s2)"


subsection \<open>addPrimitive\<close>

text \<open>
  \<open>randomColor\<close> is the hex value of \<open>new THREE.Color().setHSL(Math.random(), 0.7, 0.5)\<close>.
  \<open>selectObject(newObject)\<close> runs before the queued \<open>setObjects\<close> takes effect.
\<close>

text \<open>The switch on \<open>type\<close>, with its \<open>default\<close> branch: name prefix and geometry.\<close>

definition shapeEntry :: "string \<Rightarrow> string \<times> geometry" where
  "shapeEntry type = (case map_of shapeTable type of
                        Some e \<Rightarrow> e
                      | None \<Rightarrow> (''Object'', Geom ''BoxGeometry'' [1, 1, 1]))"

text \<open>The material and the mesh \<open>addPrimitive\<close> creates, before the mesh gets its id.\<close>

definition primitiveMesh :: "nat \<Rightarrow> string \<Rightarrow> mesh" where
  "primitiveMesh randomColor type =
     (let mat = \<lparr>color = randomColor, metalness = toDouble (3 / 10),
                 roughness = toDouble (7 / 10), transparent = True, opacity = Num 1,
                 emissive = 0x000000, emissiveIntensity = Num 0, wireframe = False\<rparr>;
          m0 = Mesh (snd (shapeEntry type)) mat;
          m1 = m0\<lparr>position := (position m0)
                      \<lparr>vy := (if type = ''plane'' then toDouble (1 / 100) else Num (5 / 10))\<rparr>\<rparr>
      in if type = ''plane'' then m1\<lparr>rotation := (rotation m1)\<lparr>vx := Num (- MathPI / 2)\<rparr>\<rparr>
         else m1)"

definition addPrimitive :: "env \<Rightarrow> nat \<Rightarrow> string \<Rightarrow> editor \<Rightarrow> wref \<times> editor" where
  "addPrimitive env randomColor type s =
     (let s1 = saveUndoState s;
          name = fst (shapeEntry type) @ ''_'' @ showNat (objectCounter s1);
          (mr, s2) = newMesh (primitiveMesh randomColor type) s1;
          s3 = sceneAdd mr s2;
          (ident, s4) = generateId env s3;
          (w, s5) = newObj \<lparr>obj_id = ident, obj_name = name, obj_type = type, obj_mesh = mr\<rparr> s4;
          s6 = updMesh mr (\<lambda>m. m\<lparr>objectId := ident\<rparr>) s5;
          s7 = selectObject (Some w) False s6
      in (w, s7\<lparr>objects := objects s7 @ [w], objectCounter := objectCounter s7 + 1\<rparr>))"

subsection \<open>duplicateObject, toggleVisibility\<close>

definition addNum :: "jsnum \<Rightarrow> real \<Rightarrow> jsnum" where
  "addNum n d = (case n of Num r \<Rightarrow> toDouble (r + d) | other \<Rightarrow> other)"

definition duplicateObject :: "env \<Rightarrow> wref option \<Rightarrow> editor \<Rightarrow> editor" where
  "duplicateObject env obj s =
     (case obj of
        None \<Rightarrow> s
      | Some ob \<Rightarrow>
          (let s1 = saveUndoState s;
               src = theMesh s1 ob;
               m0 = Mesh (geometry src) (material src);
               m1 = m0\<lparr>position := (position src)\<lparr>vx := addNum (vx (position src)) 1\<rparr>,
                       rotation := rotation src, scale := scale src\<rparr>;
               (mr, s2) = newMesh m1 s1;
               s3 = sceneAdd mr s2;
               (ident, s4) = generateId env s3;
               (w, s5) = newObj \<lparr>obj_id = ident, obj_name = obj_name (theObj s4 ob) @ ''_copy'',
                                 obj_type = obj_type (theObj s4 ob), obj_mesh = mr\<rparr> s4;
               s6 = updMesh mr (\<lambda>m. m\<lparr>objectId := ident\<rparr>) s5;
               s7 = selectObject (Some w) False s6
           in s7\<lparr>objects := objects s7 @ [w]\<rparr>))"

definition toggleVisibility :: "wref option \<Rightarrow> editor \<Rightarrow> editor" where
  "toggleVisibility obj s =
     (case obj of
        None \<Rightarrow> s
      | Some ob \<Rightarrow> updMesh (obj_mesh (theObj s ob)) (\<lambda>m. m\<lparr>visible := \<not> visible m\<rparr>) s)"

subsection \<open>updateObjectProperty\<close>

text \<open>
  \<open>Color.set\<close> on the strings that the colour input and the presets deliver, \<open>#rrggbb\<close>
  (and the short \<open>#rgb\<close>); THREE leaves the colour as it is when it cannot read the
  string. The other CSS notations THREE reads (\<open>rgb(...)\<close>, \<open>hsl(...)\<close>, colour names)
  are not modelled. A number goes through \<open>setHex\<close>, which keeps the low 24 bits of
  \<open>Math.floor\<close> of it; a boolean is ignored.
\<close>

definition isHexDigit :: "char \<Rightarrow> bool" where
  "isHexDigit c = (c \<in> set ''0123456789abcdefABCDEF'')"

definition hexVal :: "char \<Rightarrow> nat" where
  "hexVal c = (if isDigit c then of_char c - 48
               else if c \<in> set ''abcdef'' then of_char c - 87 else of_char c - 55)"

definition setStyle :: "string \<Rightarrow> nat option" where
  "setStyle st =
     (case st of
        [] \<Rightarrow> None
      | c # ds \<Rightarrow>
          if c = CHR ''#'' \<and> list_all isHexDigit ds then
            (if length ds = 6 then Some (foldl (\<lambda>a d. 16 * a + hexVal d) 0 ds)
             else if length ds = 3 then Some (foldl (\<lambda>a d. 256 * a + 17 * hexVal d) 0 ds)
             else None)
          else None)"

definition colorSet :: "jsval \<Rightarrow> nat \<Rightarrow> nat" where
  "colorSet v old = (case v of Str st \<Rightarrow> (case setStyle st of Some h \<Rightarrow> h | None \<Rightarrow> old)
                     | Number n \<Rightarrow> (case n of Num r \<Rightarrow> nat (\<lfloor>r\<rfloor> mod 2 ^ 24) | _ \<Rightarrow> 0)
                     | Bool _ \<Rightarrow> old)"

text \<open>\<open>n < 1\<close> on JavaScript numbers.\<close>

definition lessThanOne :: "jsnum \<Rightarrow> bool" where
  "lessThanOne n = (case n of Num r \<Rightarrow> r < 1 | NegInfinity \<Rightarrow> True
                    | PosInfinity \<Rightarrow> False | NaN \<Rightarrow> False)"

text \<open>
  The cases of the switch that write to the mesh; an unknown property writes nothing.
  The wireframe toggle passes a boolean; another value for \<open>wireframe\<close> is left out of the
  model and writes nothing.
\<close>

definition editMesh :: "string \<Rightarrow> jsval \<Rightarrow> mesh \<Rightarrow> mesh" where
  "editMesh property v m =
     (if property = ''positionX'' then
        m\<lparr>position := (position m)\<lparr>vx := orElse (parseFloat v) (Num 0)\<rparr>\<rparr>
      else if property = ''positionY'' then
        m\<lparr>position := (position m)\<lparr>vy := orElse (parseFloat v) (Num 0)\<rparr>\<rparr>
      else if property = ''positionZ'' then
        m\<lparr>position := (position m)\<lparr>vz := orElse (parseFloat v) (Num 0)\<rparr>\<rparr>
      else if property = ''rotationX'' then
        m\<lparr>rotation := (rotation m)\<lparr>vx := degToRad (orElse (parseFloat v) (Num 0))\<rparr>\<rparr>
      else if property = ''rotationY'' then
        m\<lparr>rotation := (rotation m)\<lparr>vy := degToRad (orElse (parseFloat v) (Num 0))\<rparr>\<rparr>
      else if property = ''rotationZ'' then
        m\<lparr>rotation := (rotation m)\<lparr>vz := degToRad (orElse (parseFloat v) (Num 0))\<rparr>\<rparr>
      else if property = ''scaleX'' then
        m\<lparr>scale := (scale m)\<lparr>vx := orElse (parseFloat v) (Num 1)\<rparr>\<rparr>
      else if property = ''scaleY'' then
        m\<lparr>scale := (scale m)\<lparr>vy := orElse (parseFloat v) (Num 1)\<rparr>\<rparr>
      else if property = ''scaleZ'' then
        m\<lparr>scale := (scale m)\<lparr>vz := orElse (parseFloat v) (Num 1)\<rparr>\<rparr>
      else if property = ''color'' then
        m\<lparr>material := (material m)\<lparr>color := colorSet v (color (material m))\<rparr>\<rparr>
      else if property = ''metalness'' then
        m\<lparr>material := (material m)\<lparr>metalness := parseFloat v\<rparr>\<rparr>
      else if property = ''roughness'' then
        m\<lparr>material := (material m)\<lparr>roughness := parseFloat v\<rparr>\<rparr>
      else if property = ''wireframe'' then
        (case v of Bool b \<Rightarrow> m\<lparr>material := (material m)\<lparr>wireframe := b\<rparr>\<rparr>
         | Str _ \<Rightarrow> m | Number _ \<Rightarrow> m)
      else if property = ''opacity'' then
        m\<lparr>material := (material m)\<lparr>opacity := parseFloat v,
                                     transparent := lessThanOne (parseFloat v)\<rparr>\<rparr>
      else if property = ''emissive'' then
        m\<lparr>material := (material m)\<lparr>emissive := colorSet v (emissive (material m))\<rparr>\<rparr>
      else if property = ''emissiveIntensity'' then
        m\<lparr>material := (material m)\<lparr>emissiveIntensity := parseFloat v\<rparr>\<rparr>
      else m)"

text \<open>
  The name case writes to the wrapper \<open>selectedObject\<close> refers to; the name field is a
  text input, so the value is a string (another value is left out of the model and
  writes nothing). Every call ends with \<open>setSelectedObject({ ...selectedObject })\<close>, which
  makes \<open>selectedObject\<close> a fresh copy of the wrapper that shares its mesh.
\<close>

definition updateObjectProperty :: "string \<Rightarrow> jsval \<Rightarrow> editor \<Rightarrow> editor" where
  "updateObjectProperty property v s =
     (case selectedObject s of
        None \<Rightarrow> s
      | Some sel \<Rightarrow>
          (let s1 = (if property = ''name'' then
                       (case v of
                          Str n \<Rightarrow> s\<lparr>wrappers := (wrappers s)[sel := (theObj s sel)\<lparr>obj_name := n\<rparr>]\<rparr>
                        | Number _ \<Rightarrow> s | Bool _ \<Rightarrow> s)
                     else updMesh (obj_mesh (theObj s sel)) (editMesh property v) s);
               (copy, s2) = newObj (theObj s1 sel) s1
           in s2\<lparr>selectedObject := Some copy\<rparr>))"


subsection \<open>undo\<close>

definition undoGeometry :: "string \<Rightarrow> geometry" where
  "undoGeometry type = (case map_of undoShapeTable type of
                          Some g \<Rightarrow> g
                        | None \<Rightarrow> Geom ''BoxGeometry'' [1, 1, 1])"

text \<open>
  One step of \<open>previousState.map(savedObj => ...)\<close>: a new material from the three saved
  material fields (every other option at its default), a new mesh, a new wrapper.
\<close>

definition restoredMesh :: "savedObj \<Rightarrow> mesh" where
  "restoredMesh sv =
     (let mat = MeshStandardMaterial\<lparr>color := sv_color sv, metalness := sv_metalness sv,
                                      roughness := sv_roughness sv\<rparr>
      in (Mesh (undoGeometry (sv_type sv)) mat)
           \<lparr>position := sv_position sv, rotation := sv_rotation sv, scale := sv_scale sv,
            visible := sv_visible sv, objectId := sv_id sv\<rparr>)"

definition rehydrate :: "savedObj \<Rightarrow> editor \<Rightarrow> wref \<times> editor" where
  "rehydrate sv s =
     (let (mr, s1) = newMesh (restoredMesh sv) s;
          s2 = sceneAdd mr s1
      in newObj \<lparr>obj_id = sv_id sv, obj_name = sv_name sv, obj_type = sv_type sv,
                 obj_mesh = mr\<rparr> s2)"

fun rehydrateAll :: "savedObj list \<Rightarrow> editor \<Rightarrow> wref list \<times> editor" where
  "rehydrateAll [] s = ([], s)"
| "rehydrateAll (sv # svs) s =
     (let (w, s1) = rehydrate sv s;
          (ws, s2) = rehydrateAll svs s1
      in (w # ws, s2))"

text \<open>\<open>undo\<close> resets \<open>selectedObject\<close> and the gizmo, and leaves \<open>selectedObjects\<close> as it is.\<close>

definition undo :: "editor \<Rightarrow> editor" where
  "undo s =
     (if length (undoStack s) = 0 then s
      else
        (let previousState = last (undoStack s);
             s1 = s\<lparr>undoStack := butlast (undoStack s)\<rparr>;
             s2 = foldl (\<lambda>t x. sceneRemove (obj_mesh (theObj t x)) t) s1 (objects s1);
             (newObjects, s3) = rehydrateAll previousState s2
         in s3\<lparr>objects := newObjects, selectedObject := None, attached := None\<rparr>))"

subsection \<open>importModel\<close>

text \<open>
  The file reader and \<open>GLTFLoader.parse\<close> are outside the repository, so what they do
  is an argument of \<open>importModel\<close>. After a file has been chosen there are four courses:
  the reader fails, and since the source installs no \<open>onerror\<close> handler nothing further
  runs; \<open>loader.parse\<close> throws inside \<open>reader.onload\<close>, where nothing catches it; the
  loader calls the error callback; or the loader calls the success callback with the
  nodes of \<open>gltf.scene\<close> in the order \<open>traverse\<close> visits them. The success callback has
  no \<open>try\<close> either: an exception raised while a node is processed leaves the callback, and
  it is the loader that decides whether the exception reaches the error callback (a
  promise chain ending in \<open>.catch(onError)\<close> passes it on) or escapes; the flag of
  \<open>Parsed\<close> says which.
\<close>

text \<open>
  A node records whether it is a mesh, its name, the mesh data \<open>child.clone()\<close> copies
  (the \<open>material\<close> field of \<open>node_mesh\<close> is not read) and the material the node
  refers to: none, a \<open>MeshStandardMaterial\<close>, or a material of another kind with the
  colour it has, if any. Reading, parsing and the callback are taken as one step.
\<close>

datatype nodeMaterial = Standard material | Other "nat option"

record gltfNode =
  isMesh :: bool
  node_name :: string
  node_mesh :: mesh
  node_material :: "nodeMaterial option"

datatype loaded = ReadFailed | ParseThrew | ParseError | Parsed "gltfNode list" bool

text \<open>
  The body of the \<open>traverse\<close> callback for one node. The result \<open>None\<close> stands for an
  exception: \<open>mesh.material.isMeshStandardMaterial\<close> raises a \<open>TypeError\<close> when the mesh has
  no material; up to that point the callback has only cloned the node. Otherwise the
  result is what the node adds to \<open>newObjects\<close>.
\<close>

definition importNode :: "env \<Rightarrow> nat \<Rightarrow> gltfNode \<Rightarrow> editor \<Rightarrow> wref list option \<times> editor" where
  "importNode env counter child s =
     (if isMesh child then
        (case node_material child of
           None \<Rightarrow> (None, s)
         | Some mat \<Rightarrow>
             (let m1 = (node_mesh child)\<lparr>material :=
                         (case mat of
                            Standard m \<Rightarrow> m
                          | Other c \<Rightarrow>
                              MeshStandardMaterial
                                \<lparr>color := (case c of Some h \<Rightarrow> h | None \<Rightarrow> 0x888888),
                                 metalness := toDouble (3 / 10),
                                 roughness := toDouble (7 / 10)\<rparr>)\<rparr>;
                  (mr, s1) = newMesh m1 s;
                  s2 = sceneAdd mr s1;
                  (ident, s3) = generateId env s2;
                  s4 = updMesh mr (\<lambda>m. m\<lparr>objectId := ident\<rparr>) s3;
                  (w, s5) = newObj \<lparr>obj_id = ident,
                                    obj_name = (if node_name child \<noteq> [] then node_name child
                                                else ''Imported_'' @ showNat counter),
                                    obj_type = ''imported'', obj_mesh = mr\<rparr> s4
              in (Some [w], s5)))
      else (Some [], s))"

text \<open>
  The traversal: it stops at the first node that raises, keeping what the nodes before
  it have done to the scene and the id generator.
\<close>

fun importNodes :: "env \<Rightarrow> nat \<Rightarrow> gltfNode list \<Rightarrow> editor \<Rightarrow> wref list option \<times> editor" where
  "importNodes env counter [] s = (Some [], s)"
| "importNodes env counter (child # rest) s =
     (case importNode env counter child s of
        (None, s1) \<Rightarrow> (None, s1)
      | (Some ws, s1) \<Rightarrow>
          (case importNodes env counter rest s1 of
             (None, s2) \<Rightarrow> (None, s2)
           | (Some ws', s2) \<Rightarrow> (Some (ws @ ws'), s2)))"

definition importModel :: "env \<Rightarrow> loaded option \<Rightarrow> editor \<Rightarrow> editor" where
  "importModel env file s =
     (case file of
        None \<Rightarrow> s
      | Some result \<Rightarrow>
          (let s1 = saveUndoState s
           in case result of
                ReadFailed \<Rightarrow> s1
              | ParseThrew \<Rightarrow> s1
              | ParseError \<Rightarrow> s1\<lparr>alerts := alerts s1 @ [''Failed to import model'']\<rparr>
              | Parsed nodes passedOn \<Rightarrow>
                  (case importNodes env (objectCounter s1) nodes s1 of
                     (None, s2) \<Rightarrow>
                       if passedOn then s2\<lparr>alerts := alerts s2 @ [''Failed to import model'']\<rparr>
                       else s2
                   | (Some newObjects, s2) \<Rightarrow>
                       (let s3 = (if length newObjects > 0
                                  then selectObject (Some (hd newObjects)) False s2 else s2)
                        in s3\<lparr>objects := objects s3 @ newObjects,
                              objectCounter := objectCounter s3 + length newObjects\<rparr>))))"

subsection \<open>clearScene\<close>

definition clearScene :: "bool \<Rightarrow> editor \<Rightarrow> editor" where
  "clearScene confirmed s =
     (if \<not> confirmed then s
      else
        (let s1 = saveUndoState s;
             s2 = foldl (\<lambda>t x. sceneRemove (obj_mesh (theObj t x)) t) s1 (objects s1)
         in s2\<lparr>objects := [], selectedObject := None, attached := None\<rparr>))"

subsection \<open>Grid snapping\<close>

text \<open>
  \<open>Math.round(x)\<close> is \<open>\<lfloor>x + 1/2\<rfloor>\<close>, the nearest integer with a half going up, which is
  a double whenever \<open>x\<close> is; it leaves \<open>NaN\<close> and the infinities as they are.
\<close>

definition mathRound :: "jsnum \<Rightarrow> jsnum" where
  "mathRound n = (case n of Num q \<Rightarrow> Num (of_int \<lfloor>q + 1 / 2\<rfloor>) | other \<Rightarrow> other)"

text \<open>
  \<open>if (!snapEnabled || snapSize <= 0) return value; return Math.round(value / snapSize) *
  snapSize\<close>. Past the guard the unit is positive, infinite or \<open>NaN\<close> (\<open>NaN <= 0\<close> is
  false). For a finite positive unit \<open>u\<close>, a finite value is divided (the quotient rounded
  to a double, which may overflow), rounded to an integer and multiplied (rounded again);
  \<open>NaN\<close> and the infinities pass through all three operations unchanged. For an infinite
  unit the quotient is zero or \<open>NaN\<close>, and zero times infinity is \<open>NaN\<close>.
\<close>

definition snapToGrid :: "editor \<Rightarrow> jsnum \<Rightarrow> jsnum" where
  "snapToGrid s v =
     (if \<not> snapEnabled s then v
      else case snapSize s of
             Num u \<Rightarrow>
               if u \<le> 0 then v
               else (case v of
                       Num a \<Rightarrow> (case mathRound (toDouble (a / u)) of
                                   Num k \<Rightarrow> toDouble (k * u)
                                 | other \<Rightarrow> other)
                     | other \<Rightarrow> other)
           | NegInfinity \<Rightarrow> v
           | PosInfinity \<Rightarrow> NaN
           | NaN \<Rightarrow> NaN)"

definition toggleSnap :: "editor \<Rightarrow> editor" where
  "toggleSnap s =
     (let newValue = \<not> snapEnabled s
      in s\<lparr>translationSnap := (if newValue then Some (snapSize s) else None),
            rotationSnap := (if newValue then Some (degToRad (Num 15)) else None),
            scaleSnap := (if newValue then Some (toDouble (1 / 10)) else None),
            snapEnabled := newValue\<rparr>)"

definition updateSnapSize :: "jsval \<Rightarrow> editor \<Rightarrow> editor" where
  "updateSnapSize v s =
     (let newSize = orElse (parseFloat v) (Num (5 / 10));
          s1 = s\<lparr>snapSize := newSize\<rparr>
      in if snapEnabled s then s1\<lparr>translationSnap := Some newSize\<rparr> else s1)"


section \<open>Sample sessions\<close>

text \<open>Twenty-one snapshots, the \<open>n\<close>-th holding \<open>n\<close> copies of a saved cube.\<close>

definition sampleSaved :: savedObj where
  "sampleSaved =
     \<lparr>sv_id = ''obj_1_a'', sv_name = ''Cube_0'', sv_type = ''cube'',
      sv_position = Vector3 0 (1 / 2) 0, sv_rotation = Vector3 0 0 0,
      sv_scale = Vector3 1 1 1, sv_color = 0x808080, sv_metalness = Num (3 / 10),
      sv_roughness = Num (7 / 10), sv_visible = True\<rparr>"

definition sampleHistory :: "savedObj list list" where
  "sampleHistory = map (\<lambda>n. replicate n sampleSaved) [0..<21]"

text \<open>
  A session whose clock starts at 1700 and advances by one per \<open>generateId\<close> call, with a
  constant random suffix; and the editor after the default cube has been added.
\<close>

definition env0 :: env where
  "env0 k = (1700 + k, ''k3j9x2m1q'')"

definition oneCube :: editor where
  "oneCube = snd (addPrimitive env0 0x3366cc ''cube'' initialEditor)"

text \<open>
  The default cube and a sphere; then the cube is added to the selection with a
  Ctrl-click, which makes it the primary selection carrying the gizmo.
\<close>

definition twoShapes :: editor where
  "twoShapes = snd (addPrimitive env0 0xcc6633 ''sphere'' oneCube)"

definition bothSelected :: editor where
  "bothSelected = selectObject (Some 0) True twoShapes"

text \<open>The default cube after the user has given it a red emissive colour.\<close>

definition redCube :: editor where
  "redCube = updateObjectProperty ''emissive'' (Str ''#ff0000'') oneCube"


subsection \<open>Single mutations\<close>

text \<open>
  The mutations of one object that the editor offers: an edit in the properties panel
  (\<open>updateObjectProperty\<close>: a transform field, a material field or the name), the
  visibility toggle of the object list, adding a primitive, deleting an object.
\<close>

datatype mutation =
    Edit string jsval
  | ToggleVisible "wref option"
  | Add nat string
  | Delete "wref option"

fun applyMutation :: "env \<Rightarrow> mutation \<Rightarrow> editor \<Rightarrow> editor" where
  "applyMutation env (Edit property v) s = updateObjectProperty property v s"
| "applyMutation env (ToggleVisible ob) s = toggleVisibility ob s"
| "applyMutation env (Add randomColor type) s = snd (addPrimitive env randomColor type s)"
| "applyMutation env (Delete ob) s = deleteObject ob s"

text \<open>The red cube after the user has also made it half transparent and wireframe.\<close>

definition styledCube :: editor where
  "styledCube = updateObjectProperty ''wireframe'' (Bool True)
                  (updateObjectProperty ''opacity'' (Str ''0.5'') redCube)"

subsection \<open>Sessions\<close>

text \<open>
  The operations of a session that create, remove, select or edit objects (everything
  but \<open>undo\<close>), with the arguments the handlers pass, and a session as a list of them.
\<close>

datatype operation =
    AddPrimitive nat string
  | DuplicateObject "wref option"
  | ImportModel "loaded option"
  | DeleteObject "wref option"
  | DeleteSelectedObjects
  | ClearScene bool
  | SelectObject "wref option" bool
  | SelectAllObjects
  | UpdateObjectProperty string jsval
  | ToggleVisibility "wref option"

fun perform :: "env \<Rightarrow> operation \<Rightarrow> editor \<Rightarrow> editor" where
  "perform env (AddPrimitive randomColor type) s = snd (addPrimitive env randomColor type s)"
| "perform env (DuplicateObject ob) s = duplicateObject env ob s"
| "perform env (ImportModel file) s = importModel env file s"
| "perform env (DeleteObject ob) s = deleteObject ob s"
| "perform env DeleteSelectedObjects s = deleteSelectedObjects s"
| "perform env (ClearScene confirmed) s = clearScene confirmed s"
| "perform env (SelectObject ob addToSelection) s = selectObject ob addToSelection s"
| "perform env SelectAllObjects s = selectAllObjects s"
| "perform env (UpdateObjectProperty property v) s = updateObjectProperty property v s"
| "perform env (ToggleVisibility ob) s = toggleVisibility ob s"

definition run :: "env \<Rightarrow> operation list \<Rightarrow> editor \<Rightarrow> editor" where
  "run env ops s = foldl (\<lambda>t op. perform env op t) s ops"

text \<open>The ids of the live objects, and every id \<open>generateId\<close> has handed out so far.\<close>

definition liveIds :: "editor \<Rightarrow> string list" where
  "liveIds s = map (\<lambda>w. obj_id (theObj s w)) (objects s)"

definition everIssued :: "env \<Rightarrow> editor \<Rightarrow> string list" where
  "everIssued env s = map (\<lambda>k. mkId (env k)) [0..<idCalls s]"

text \<open>
  How one operation may change the object list: it keeps some of the live objects and
  appends \<open>n\<close> newly allocated wrappers, whose ids are the next \<open>n\<close> results of
  \<open>generateId\<close> (an import that is abandoned has drawn ids that no object carries); the
  ids stored in existing wrappers stay as they are.
\<close>

definition extends :: "env \<Rightarrow> editor \<Rightarrow> editor \<Rightarrow> bool" where
  "extends env s s' \<longleftrightarrow>
     (\<exists>P n. objects s' = filter P (objects s) @ map (\<lambda>i. length (wrappers s) + i) [0..<n]
        \<and> idCalls s + n \<le> idCalls s'
        \<and> length (wrappers s) + n \<le> length (wrappers s')
        \<and> (\<forall>w<length (wrappers s). obj_id (wrappers s' ! w) = obj_id (wrappers s ! w))
        \<and> map (\<lambda>i. obj_id (wrappers s' ! (length (wrappers s) + i))) [0..<n]
            = map (\<lambda>i. mkId (env (idCalls s + i))) [0..<n])"

text \<open>
  The objects of a state are well identified when every live reference points into the
  store, the live ids are pairwise distinct and each of them was handed out by
  \<open>generateId\<close> earlier in the session.
\<close>

definition wellIdentified :: "env \<Rightarrow> editor \<Rightarrow> bool" where
  "wellIdentified env s \<longleftrightarrow>
     list_all (\<lambda>w. w < length (wrappers s)) (objects s)
     \<and> distinct (liveIds s)
     \<and> set (liveIds s) \<subseteq> set (everIssued env s)"

text \<open>A clock stuck within one millisecond and a random generator that repeats itself.\<close>

definition stuckEnv :: env where
  "stuckEnv k = (1700, ''k3j9x2m1q'')"

text \<open>The nodes at which the \<open>traverse\<close> callback raises: the meshes without a material.\<close>

definition raises :: "gltfNode \<Rightarrow> bool" where
  "raises child \<longleftrightarrow> isMesh child \<and> node_material child = None"

text \<open>
  What the loader delivers for a file with a chair mesh, a node that is not a mesh and a
  second, unnamed mesh with a material of another kind.
\<close>

definition sampleBlob :: "gltfNode list" where
  "sampleBlob =
     [\<lparr>isMesh = True, node_name = ''Chair'', node_mesh = Mesh (Loaded 0) MeshStandardMaterial,
       node_material = Some (Standard MeshStandardMaterial)\<rparr>,
      \<lparr>isMesh = False, node_name = ''Group'', node_mesh = Mesh (Loaded 1) MeshStandardMaterial,
       node_material = None\<rparr>,
      \<lparr>isMesh = True, node_name = [], node_mesh = Mesh (Loaded 2) MeshStandardMaterial,
       node_material = Some (Other (Some 0x00ff00))\<rparr>]"

text \<open>Two well-formed mesh nodes with a mesh node between them that has no material.\<close>

definition brokenBlob :: "gltfNode list" where
  "brokenBlob =
     [\<lparr>isMesh = True, node_name = ''Chair'', node_mesh = Mesh (Loaded 0) MeshStandardMaterial,
       node_material = Some (Standard MeshStandardMaterial)\<rparr>,
      \<lparr>isMesh = True, node_name = ''Broken'', node_mesh = Mesh (Loaded 1) MeshStandardMaterial,
       node_material = None\<rparr>,
      \<lparr>isMesh = True, node_name = ''Table'', node_mesh = Mesh (Loaded 2) MeshStandardMaterial,
       node_material = Some (Standard MeshStandardMaterial)\<rparr>]"

section \<open>Properties\<close>

subsection \<open>Doubles\<close>

text \<open>
  Rounding leaves a double as it is, overflows from \<open>2\<^sup>1\<^sup>0\<^sup>2\<^sup>4\<close> on and underflows to zero
  below half the smallest subnormal number.
\<close>

lemma pow2_split: "a \<le> b \<Longrightarrow> (2 :: 'a :: comm_semiring_1) ^ b = 2 ^ (b - a) * 2 ^ a"
  by (simp add: power_add [symmetric])

lemma roundEven_of_int: "roundEven (of_int k) = k"
  by (simp add: roundEven_def)

lemma roundEven_ge_floor: "\<lfloor>q\<rfloor> \<le> roundEven q"
  by (simp add: roundEven_def Let_def)

lemma ulpShift_le:
  assumes "\<bar>m\<bar> < (2 :: int) ^ 53"
  shows "ulpShift (of_int m * 2 ^ e / 2 ^ 1074) \<le> e"
proof -
  have "\<bar>of_int m * 2 ^ e / 2 ^ 1074 :: real\<bar> * 2 ^ 1074 = of_int (\<bar>m\<bar> * 2 ^ e)"
    by (simp add: abs_mult)
  then have fl: "\<lfloor>\<bar>of_int m * 2 ^ e / 2 ^ 1074 :: real\<bar> * 2 ^ 1074\<rfloor> = \<bar>m\<bar> * 2 ^ e"
    by (simp only: floor_of_int)
  have "\<bar>m\<bar> * 2 ^ e < (2 :: int) ^ 53 * 2 ^ e"
    using assms by simp
  then have "\<bar>m\<bar> * 2 ^ e < (2 :: int) ^ nat (53 + int e)"
    by (simp add: nat_add_distrib power_add)
  then have "bitlen (\<bar>m\<bar> * 2 ^ e) \<le> 53 + int e"
    by (simp only: bitlen_le_iff_power) simp
  then show ?thesis
    unfolding ulpShift_def fl by simp
qed

lemma toDouble_exact:
  assumes "isDouble x"
  shows "toDouble x = Num x"
proof -
  from assms obtain m :: int and e :: nat
    where m: "\<bar>m\<bar> < 2 ^ 53" and e: "e \<le> 2045" and x: "x = of_int m * 2 ^ e / 2 ^ 1074"
    unfolding isDouble_def by blast
  define u where "u = ulpShift x"
  have ue: "u \<le> e"
    unfolding u_def x by (rule ulpShift_le [OF m])
  then have rsplit: "(2 :: real) ^ e = 2 ^ (e - u) * 2 ^ u"
    by (simp add: power_add [symmetric])
  have q: "x * 2 ^ 1074 / 2 ^ u = of_int (m * 2 ^ (e - u))"
    unfolding x rsplit by simp
  have n: "roundEven (x * 2 ^ 1074 / 2 ^ u) = m * 2 ^ (e - u)"
    unfolding q by (rule roundEven_of_int)
  have isplit: "(2 :: int) ^ e = 2 ^ (e - u) * 2 ^ u"
    using ue by (simp add: power_add [symmetric])
  have prod: "\<bar>m * 2 ^ (e - u)\<bar> * 2 ^ u = \<bar>m\<bar> * (2 :: int) ^ e"
    unfolding isplit by (simp add: abs_mult)
  have "\<bar>m\<bar> * (2 :: int) ^ e < 2 ^ 53 * 2 ^ e"
    using m by simp
  also have "\<dots> \<le> 2 ^ 53 * (2 :: int) ^ 2045"
    by (rule mult_left_mono, rule power_increasing [OF e]) simp_all
  also have "\<dots> = 2 ^ 2098"
    by (simp add: power_add [symmetric])
  finally have small: "\<not> 2 ^ 2098 \<le> \<bar>m * 2 ^ (e - u)\<bar> * (2 :: int) ^ u"
    unfolding prod by simp
  have same: "of_int (m * 2 ^ (e - u)) * 2 ^ u / 2 ^ 1074 = x"
    unfolding x rsplit by simp
  show ?thesis
    unfolding toDouble_def u_def [symmetric] Let_def n
    using small same by simp
qed


lemma roundEven_ge: "of_int k \<le> q \<Longrightarrow> k \<le> roundEven q"
proof -
  assume "of_int k \<le> q"
  then have "k \<le> \<lfloor>q\<rfloor>" by (simp add: le_floor_iff)
  also have "\<dots> \<le> roundEven q" by (rule roundEven_ge_floor)
  finally show ?thesis .
qed

lemma roundEven_le: "q \<le> of_int k \<Longrightarrow> roundEven q \<le> k"
proof -
  assume le: "q \<le> of_int k"
  have f: "\<lfloor>q\<rfloor> \<le> k" using le by (simp add: floor_le_iff)
  show ?thesis
  proof (cases "\<lfloor>q\<rfloor> = k")
    case True
    then have "q - of_int \<lfloor>q\<rfloor> \<le> 0" using le by simp
    then show ?thesis using True by (simp add: roundEven_def Let_def)
  next
    case False
    then have "\<lfloor>q\<rfloor> + 1 \<le> k" using f by simp
    then show ?thesis by (simp add: roundEven_def Let_def)
  qed
qed

lemma roundEven_small: "\<bar>q\<bar> < 1 / 2 \<Longrightarrow> roundEven q = 0"
proof -
  assume small: "\<bar>q\<bar> < 1 / 2"
  show ?thesis
  proof (cases "0 \<le> q")
    case True
    then have "\<lfloor>q\<rfloor> = 0" using small by (simp add: floor_eq_iff)
    then show ?thesis using small True by (simp add: roundEven_def Let_def)
  next
    case False
    then have "\<lfloor>q\<rfloor> = - 1" using small by (simp add: floor_eq_iff)
    then show ?thesis using small False by (simp add: roundEven_def Let_def)
  qed
qed

lemma ulpShift_large:
  assumes "2 ^ 1024 \<le> \<bar>x\<bar>"
  shows "2046 \<le> ulpShift x" and "2 ^ (ulpShift x + 52) \<le> \<bar>x\<bar> * 2 ^ 1074"
proof -
  define N where "N = \<lfloor>\<bar>x\<bar> * 2 ^ 1074\<rfloor>"
  have "(2 :: real) ^ 2098 = 2 ^ 1024 * 2 ^ 1074"
    by (simp add: power_add [symmetric])
  also have "\<dots> \<le> \<bar>x\<bar> * 2 ^ 1074"
    by (rule mult_right_mono [OF assms]) simp
  finally have big: "of_int (2 ^ 2098) \<le> \<bar>x\<bar> * 2 ^ 1074"
    by simp
  then have N: "2 ^ 2098 \<le> N"
    unfolding N_def by (simp only: le_floor_iff)
  then have pos: "0 < N"
    by (rule less_le_trans [rotated]) simp
  have "2099 \<le> bitlen N"
    using N by (simp only: bitlen_ge_iff_power) simp
  then show u: "2046 \<le> ulpShift x"
    unfolding ulpShift_def N_def [symmetric] by simp
  have "nat (bitlen N - 1) = ulpShift x + 52"
    using \<open>2099 \<le> bitlen N\<close> unfolding ulpShift_def N_def [symmetric] by simp
  then have "2 ^ (ulpShift x + 52) \<le> N"
    using bitlen_bounds [OF pos] by simp
  then have "of_int (2 ^ (ulpShift x + 52)) \<le> (of_int N :: real)"
    by (simp only: of_int_le_iff)
  also have "\<dots> \<le> \<bar>x\<bar> * 2 ^ 1074"
    unfolding N_def by (rule of_int_floor_le)
  finally show "2 ^ (ulpShift x + 52) \<le> \<bar>x\<bar> * 2 ^ 1074"
    by simp
qed

lemma overflow_bound:
  assumes "2046 \<le> u"
  shows "(2 :: int) ^ 2098 \<le> 2 ^ 52 * 2 ^ u"
proof -
  have "(2 :: int) ^ 2098 \<le> 2 ^ (52 + u)"
    by (rule power_increasing) (use assms in simp_all)
  then show ?thesis by (simp only: power_add)
qed

lemma toDouble_overflow:
  assumes "2 ^ 1024 \<le> x"
  shows "toDouble x = PosInfinity"
proof -
  define u where "u = ulpShift x"
  have ax: "2 ^ 1024 \<le> \<bar>x\<bar>" and pos: "0 < x"
    using assms by (simp_all add: less_le_trans [of 0 "2 ^ 1024" x])
  have u: "2046 \<le> u" and low: "2 ^ (u + 52) \<le> \<bar>x\<bar> * 2 ^ 1074"
    unfolding u_def by (rule ulpShift_large [OF ax])+
  have "(2 :: real) ^ 52 * 2 ^ u \<le> x * 2 ^ 1074"
    using low pos by (simp add: power_add mult.commute)
  then have "of_int (2 ^ 52) \<le> x * 2 ^ 1074 / 2 ^ u"
    by (simp add: pos_le_divide_eq)
  then have n: "2 ^ 52 \<le> roundEven (x * 2 ^ 1074 / 2 ^ u)"
    by (rule roundEven_ge)
  then have "0 \<le> roundEven (x * 2 ^ 1074 / 2 ^ u)"
    by (rule order_trans [rotated]) simp
  then have "\<bar>roundEven (x * 2 ^ 1074 / 2 ^ u)\<bar> * 2 ^ u = roundEven (x * 2 ^ 1074 / 2 ^ u) * 2 ^ u"
    by simp
  moreover have "2 ^ 52 * 2 ^ u \<le> roundEven (x * 2 ^ 1074 / 2 ^ u) * 2 ^ u"
    by (rule mult_right_mono [OF n]) simp
  ultimately have "2 ^ 2098 \<le> \<bar>roundEven (x * 2 ^ 1074 / 2 ^ u)\<bar> * 2 ^ u"
    using overflow_bound [OF u] by linarith
  then show ?thesis
    unfolding toDouble_def u_def [symmetric] Let_def using pos by simp
qed

lemma toDouble_overflow_neg:
  assumes "x \<le> - (2 ^ 1024)"
  shows "toDouble x = NegInfinity"
proof -
  define u where "u = ulpShift x"
  have neg: "x < 0"
    using assms by (rule le_less_trans) simp
  have ax: "2 ^ 1024 \<le> \<bar>x\<bar>"
    using assms neg by simp
  have u: "2046 \<le> u" and low: "2 ^ (u + 52) \<le> \<bar>x\<bar> * 2 ^ 1074"
    unfolding u_def by (rule ulpShift_large [OF ax])+
  have "(2 :: real) ^ 52 * 2 ^ u \<le> - x * 2 ^ 1074"
    using low neg by (simp add: power_add mult.commute)
  then have "x * 2 ^ 1074 / 2 ^ u \<le> of_int (- (2 ^ 52))"
    by (simp add: pos_divide_le_eq)
  then have n: "roundEven (x * 2 ^ 1074 / 2 ^ u) \<le> - (2 ^ 52)"
    by (rule roundEven_le)
  then have "roundEven (x * 2 ^ 1074 / 2 ^ u) \<le> 0"
    by (rule order_trans) simp
  then have "\<bar>roundEven (x * 2 ^ 1074 / 2 ^ u)\<bar> * 2 ^ u = - roundEven (x * 2 ^ 1074 / 2 ^ u) * 2 ^ u"
    by simp
  moreover have "2 ^ 52 * 2 ^ u \<le> - roundEven (x * 2 ^ 1074 / 2 ^ u) * 2 ^ u"
    by (rule mult_right_mono) (use n in simp_all)
  ultimately have "2 ^ 2098 \<le> \<bar>roundEven (x * 2 ^ 1074 / 2 ^ u)\<bar> * 2 ^ u"
    using overflow_bound [OF u] by linarith
  then show ?thesis
    unfolding toDouble_def u_def [symmetric] Let_def using neg by simp
qed

lemma toDouble_underflow:
  assumes "\<bar>x\<bar> * 2 ^ 1074 < 1 / 2"
  shows "toDouble x = Num 0"
proof -
  have "\<lfloor>\<bar>x\<bar> * 2 ^ 1074\<rfloor> = 0"
    using assms by (simp add: floor_eq_iff)
  then have u: "ulpShift x = 0"
    by (simp add: ulpShift_def)
  have "\<bar>x * 2 ^ 1074\<bar> < 1 / 2"
    using assms by (simp add: abs_mult)
  then have "roundEven (x * 2 ^ 1074) = 0"
    by (rule roundEven_small)
  then show ?thesis
    by (simp add: toDouble_def u)
qed

lemma isDoubleI: "\<bar>m\<bar> < 2 ^ 53 \<Longrightarrow> e \<le> 2045 \<Longrightarrow> x = of_int m * 2 ^ e / 2 ^ 1074 \<Longrightarrow> isDouble x"
  unfolding isDouble_def by blast

lemma isDouble_ratio:
  assumes "\<bar>m\<bar> < 2 ^ 53" and "k \<le> 1074"
  shows "isDouble (of_int m / 2 ^ k)"
proof (rule isDoubleI [OF assms(1)])
  show "1074 - k \<le> 2045" by simp
  show "(of_int m :: real) / 2 ^ k = of_int m * 2 ^ (1074 - k) / 2 ^ 1074"
    unfolding pow2_split [OF assms(2), where 'a = real] by simp
qed

lemma isDouble_of_int: "\<bar>m\<bar> < 2 ^ 53 \<Longrightarrow> isDouble (of_int m)"
  using isDouble_ratio [of m 0] by simp

lemma isDouble_twice:
  assumes "isDouble v" and "\<bar>v\<bar> < 2 ^ 1023"
  shows "isDouble (2 * v)"
proof -
  from assms(1) obtain m :: int and e :: nat
    where m: "\<bar>m\<bar> < 2 ^ 53" and e: "e \<le> 2045" and v: "v = of_int m * 2 ^ e / 2 ^ 1074"
    unfolding isDouble_def by blast
  show ?thesis
  proof (cases "e = 2045")
    case False
    show ?thesis
    proof (rule isDoubleI [OF m])
      show "Suc e \<le> 2045" using e False by simp
      show "2 * v = of_int m * 2 ^ Suc e / 2 ^ 1074" unfolding v by simp
    qed
  next
    case True
    have "\<bar>v\<bar> = of_int \<bar>m\<bar> * 2 ^ 971"
    proof -
      have "(2 :: real) ^ 2045 = 2 ^ 971 * 2 ^ 1074"
        by (simp add: power_add [symmetric])
      then show ?thesis
        unfolding v True by (simp add: abs_mult)
    qed
    moreover have "(2 :: real) ^ 1023 = 2 ^ 52 * 2 ^ 971"
      by (simp add: power_add [symmetric])
    ultimately have "of_int \<bar>m\<bar> * (2 :: real) ^ 971 < 2 ^ 52 * 2 ^ 971"
      using assms(2) by simp
    then have "of_int \<bar>m\<bar> < (2 :: real) ^ 52"
      by (simp only: mult_less_cancel_right_pos zero_less_power zero_less_numeral)
    then have "\<bar>m\<bar> < 2 ^ 52"
      by (simp only: of_int_less_numeral_power_cancel_iff)
    then have m2: "\<bar>2 * m\<bar> < 2 ^ 53"
      by simp
    show ?thesis
    proof (rule isDoubleI [OF m2 e])
      show "2 * v = of_int (2 * m) * 2 ^ e / 2 ^ 1074" unfolding v by simp
    qed
  qed
qed

lemma isDouble_round_half:
  assumes "isDouble x"
  shows "isDouble (of_int \<lfloor>x + 1 / 2\<rfloor> / 2)"
proof -
  from assms obtain m :: int and e :: nat
    where m: "\<bar>m\<bar> < 2 ^ 53" and e: "e \<le> 2045" and x: "x = of_int m * 2 ^ e / 2 ^ 1074"
    unfolding isDouble_def by blast
  show ?thesis
  proof (cases "1074 \<le> e")
    case True
    then have "(2 :: real) ^ e = 2 ^ (e - 1074) * 2 ^ 1074"
      by (rule pow2_split)
    then have xi: "x = of_int (m * 2 ^ (e - 1074))"
      unfolding x by simp
    have fl: "\<lfloor>x + 1 / 2\<rfloor> = m * 2 ^ (e - 1074)"
      unfolding xi by (simp add: floor_eq_iff)
    show ?thesis
    proof (rule isDoubleI [OF m])
      show "e - 1 \<le> 2045" using e by simp
      have "1073 \<le> e - 1" using True by simp
      then have "(2 :: real) ^ (e - 1) = 2 ^ (e - 1 - 1073) * 2 ^ 1073"
        by (rule pow2_split)
      moreover have "e - 1 - 1073 = e - 1074" by simp
      ultimately have "(2 :: real) ^ (e - 1) = 2 ^ (e - 1074) * 2 ^ 1073"
        by simp
      then show "(of_int \<lfloor>x + 1 / 2\<rfloor> :: real) / 2 = of_int m * 2 ^ (e - 1) / 2 ^ 1074"
        unfolding fl by simp
    qed
  next
    case False
    then have "(2 :: real) ^ e \<le> 2 ^ 1073"
      by (intro power_increasing) simp_all
    then have "\<bar>of_int m\<bar> * (2 :: real) ^ e \<le> \<bar>of_int m\<bar> * 2 ^ 1073"
      by (rule mult_left_mono) simp
    moreover have "\<bar>of_int m :: real\<bar> < 2 ^ 53"
      using m by (metis of_int_abs of_int_less_numeral_power_cancel_iff)
    then have "\<bar>of_int m\<bar> * (2 :: real) ^ 1073 < 2 ^ 53 * 2 ^ 1073"
      by (simp only: mult_less_cancel_right_pos zero_less_power zero_less_numeral)
    moreover have "(2 :: real) ^ 53 * 2 ^ 1073 = 2 ^ 52 * 2 ^ 1074"
      by (simp add: power_add [symmetric])
    ultimately have "\<bar>of_int m\<bar> * (2 :: real) ^ e < 2 ^ 52 * 2 ^ 1074"
      by linarith
    then have "\<bar>x\<bar> < 2 ^ 52"
      unfolding x by (simp add: abs_mult pos_divide_less_eq)
    then have "\<bar>\<lfloor>x + 1 / 2\<rfloor>\<bar> < 2 ^ 53"
      by simp linarith
    then show ?thesis
      using isDouble_ratio [of "\<lfloor>x + 1 / 2\<rfloor>" 1] by simp
  qed
qed

lemma isDouble_bound:
  assumes "isDouble x"
  shows "\<bar>x\<bar> < 2 ^ 1024"
proof -
  from assms obtain m :: int and e :: nat
    where m: "\<bar>m\<bar> < 2 ^ 53" and e: "e \<le> 2045" and x: "x = of_int m * 2 ^ e / 2 ^ 1074"
    unfolding isDouble_def by blast
  have "(2 :: real) ^ e \<le> 2 ^ 2045"
    using e by (intro power_increasing) simp_all
  then have "\<bar>of_int m\<bar> * (2 :: real) ^ e \<le> \<bar>of_int m\<bar> * 2 ^ 2045"
    by (rule mult_left_mono) simp
  moreover have "\<bar>of_int m :: real\<bar> < 2 ^ 53"
    using m by (metis of_int_abs of_int_less_numeral_power_cancel_iff)
  then have "\<bar>of_int m\<bar> * (2 :: real) ^ 2045 < 2 ^ 53 * 2 ^ 2045"
    by (simp only: mult_less_cancel_right_pos zero_less_power zero_less_numeral)
  moreover have "(2 :: real) ^ 53 * 2 ^ 2045 = 2 ^ 1024 * 2 ^ 1074"
    by (simp add: power_add [symmetric])
  ultimately have "\<bar>of_int m\<bar> * (2 :: real) ^ e < 2 ^ 1024 * 2 ^ 1074"
    by linarith
  then show ?thesis
    unfolding x by (simp add: abs_mult pos_divide_less_eq)
qed


lemma ulpShift_normal:
  assumes "2 ^ (k + 52) \<le> \<bar>x\<bar> * 2 ^ 1074" and "\<bar>x\<bar> * 2 ^ 1074 < 2 ^ (k + 53)"
  shows "ulpShift x = k"
proof -
  define N where "N = \<lfloor>\<bar>x\<bar> * 2 ^ 1074\<rfloor>"
  have "of_int (2 ^ (k + 52)) \<le> \<bar>x\<bar> * 2 ^ 1074"
    using assms(1) by simp
  then have lo: "2 ^ (k + 52) \<le> N"
    unfolding N_def by (simp only: le_floor_iff)
  have "\<bar>x\<bar> * 2 ^ 1074 < of_int (2 ^ (k + 53))"
    using assms(2) by simp
  then have hi: "N < 2 ^ (k + 53)"
    unfolding N_def by (simp only: floor_less_iff)
  have "int k + 53 \<le> bitlen N"
    using lo by (simp only: bitlen_ge_iff_power) (simp add: nat_add_distrib add.commute)
  moreover have "bitlen N \<le> int k + 53"
    using hi by (simp only: bitlen_le_iff_power) (simp add: nat_add_distrib add.commute)
  ultimately show ?thesis
    unfolding ulpShift_def N_def [symmetric] by simp
qed

lemma toDouble_ratio:
  "\<bar>m\<bar> < 2 ^ 53 \<Longrightarrow> k \<le> 1074 \<Longrightarrow> toDouble (of_int m / 2 ^ k) = Num (of_int m / 2 ^ k)"
  by (rule toDouble_exact, rule isDouble_ratio)

lemma toDouble_samples [simp]:
  "toDouble 0 = Num 0" "toDouble 1 = Num 1" "toDouble 7 = Num 7" "toDouble 12 = Num 12"
  "toDouble (1 / 2) = Num (1 / 2)" "toDouble (3 / 2) = Num (3 / 2)"
  using toDouble_ratio [of 0 0] toDouble_ratio [of 1 0] toDouble_ratio [of 7 0]
    toDouble_ratio [of 12 0] toDouble_ratio [of 1 1] toDouble_ratio [of 3 1]
  by simp_all

text \<open>The literal \<open>1.23\<close> denotes the double \<open>2769713770832855 / 2\<^sup>5\<^sup>1\<close>.\<close>

lemma toDouble_1_23: "toDouble (123 / 100) = Num (2769713770832855 / 2 ^ 51)"
proof -
  have u: "ulpShift (123 / 100) = 1022"
    by (rule ulpShift_normal) simp_all
  show ?thesis
    unfolding toDouble_def u Let_def roundEven_def
    by (simp add: floor_eq_iff)
qed

text \<open>\<open>DEG2RAD\<close> is the double that \<open>Math.PI / 180\<close> rounds to.\<close>

lemma DEG2RAD_rounded: "toDouble (MathPI / 180) = Num DEG2RAD"
proof -
  have u: "ulpShift (MathPI / 180) = 1016"
    by (rule ulpShift_normal) (simp_all add: MathPI_def)
  show ?thesis
    unfolding toDouble_def u Let_def roundEven_def
    by (simp add: floor_eq_iff MathPI_def DEG2RAD_def)
qed

lemma MathPI_double: "isDouble MathPI" "isDouble DEG2RAD"
  using isDouble_ratio [of 884279719003555 48] isDouble_ratio [of 5030569068109113 58]
  by (simp_all add: MathPI_def DEG2RAD_def)

subsection \<open>Grid snapping\<close>

lemma round_half_nearest:
  fixes v :: real
  defines "k \<equiv> \<lfloor>v / (1 / 2) + 1 / 2\<rfloor>"
  shows "v - 1 / 4 < of_int k * (1 / 2) \<and> of_int k * (1 / 2) \<le> v + 1 / 4
         \<and> \<bar>of_int k * (1 / 2) - v\<bar> \<le> \<bar>of_int j * (1 / 2) - v\<bar>"
proof -
  have k2: "k = \<lfloor>2 * v + 1 / 2\<rfloor>" unfolding k_def by (simp add: mult.commute)
  have a: "of_int k \<le> 2 * v + 1 / 2" unfolding k2 by (rule of_int_floor_le)
  have b: "2 * v + 1 / 2 < of_int k + 1" unfolding k2 by (rule real_of_int_floor_add_one_gt)
  have c: "\<bar>of_int k * (1 / 2) - v\<bar> \<le> \<bar>of_int j * (1 / 2) - v\<bar>"
  proof (cases "j \<le> k")
    case True
    show ?thesis
    proof (cases "j = k")
      case True then show ?thesis by simp
    next
      case False
      with \<open>j \<le> k\<close> have "j \<le> k - 1" by simp
      then have "(of_int j :: real) \<le> of_int (k - 1)" by (simp only: of_int_le_iff)
      with a b show ?thesis by simp
    qed
  next
    case False
    then have "k + 1 \<le> j" by simp
    then have "(of_int (k + 1) :: real) \<le> of_int j" by (simp only: of_int_le_iff)
    with a b show ?thesis by simp
  qed
  from a b c show ?thesis by simp
qed

lemma snap_half_in_range:
  assumes "isDouble v" and "\<bar>v\<bar> < 2 ^ 1023"
  shows "snapToGrid (s\<lparr>snapEnabled := True, snapSize := Num (1 / 2)\<rparr>) (Num v)
         = Num (of_int \<lfloor>v / (1 / 2) + 1 / 2\<rfloor> * (1 / 2))"
proof -
  have d2: "isDouble (2 * v)"
    by (rule isDouble_twice [OF assms])
  have q: "toDouble (v * 2) = Num (v * 2)"
    using toDouble_exact [OF d2] by (simp add: mult.commute)
  have m: "toDouble (of_int \<lfloor>v * 2 + 1 / 2\<rfloor> / 2) = Num (of_int \<lfloor>v * 2 + 1 / 2\<rfloor> / 2)"
    using toDouble_exact [OF isDouble_round_half [OF d2]] by (simp add: mult.commute)
  show ?thesis
    by (simp add: snapToGrid_def mathRound_def q m)
qed

lemma snap_half_overflow:
  assumes "2 ^ 1023 \<le> v"
  shows "snapToGrid (s\<lparr>snapEnabled := True, snapSize := Num (1 / 2)\<rparr>) (Num v) = PosInfinity"
    and "snapToGrid (s\<lparr>snapEnabled := True, snapSize := Num (1 / 2)\<rparr>) (Num (- v)) = NegInfinity"
proof -
  have "(2 :: real) ^ 1024 = 2 ^ 1023 * 2" by simp
  also have "\<dots> \<le> v * 2" using assms by simp
  finally have big: "2 ^ 1024 \<le> v * 2" .
  then have small: "- (v * 2) \<le> - (2 ^ 1024)" by simp
  show "snapToGrid (s\<lparr>snapEnabled := True, snapSize := Num (1 / 2)\<rparr>) (Num v) = PosInfinity"
    by (simp add: snapToGrid_def mathRound_def toDouble_overflow [OF big])
  show "snapToGrid (s\<lparr>snapEnabled := True, snapSize := Num (1 / 2)\<rparr>) (Num (- v)) = NegInfinity"
    by (simp add: snapToGrid_def mathRound_def toDouble_overflow_neg [OF small])
qed

text \<open>
  C5, as the code has it. With snapping enabled and the unit at 0.5, \<open>snapToGrid\<close> maps a
  candidate coordinate \<open>v\<close> below \<open>2\<^sup>1\<^sup>0\<^sup>2\<^sup>3\<close> in magnitude to a multiple \<open>k * 0.5\<close> that
  is at most a quarter away from it, equidistant candidates going up (\<open>Math.round\<close>),
  and no multiple of 0.5 is nearer; the literal 1.23 lands on 1.0. From \<open>2\<^sup>1\<^sup>0\<^sup>2\<^sup>3\<close> on
  the quotient \<open>v / 0.5\<close> overflows and the result is infinite. With snapping disabled
  every value comes back unchanged, 1.23 as 1.23. \<open>toggleSnap\<close> hands the same unit to
  the gizmo when it enables snapping and clears it when it disables.
\<close>

theorem snapToGrid_nearest_half_in_range:
  assumes "isDouble v" and "\<bar>v\<bar> < 2 ^ 1023"
  shows "(\<exists>k::int. snapToGrid (s\<lparr>snapEnabled := True, snapSize := Num (1 / 2)\<rparr>) (Num v)
                     = Num (of_int k * (1 / 2))
       \<and> v - 1 / 4 < of_int k * (1 / 2) \<and> of_int k * (1 / 2) \<le> v + 1 / 4
       \<and> (\<forall>j::int. \<bar>of_int k * (1 / 2) - v\<bar> \<le> \<bar>of_int j * (1 / 2) - v\<bar>))
   \<and> snapToGrid (s\<lparr>snapEnabled := True, snapSize := Num (1 / 2)\<rparr>) (toDouble (123 / 100)) = Num 1
   \<and> snapToGrid (s\<lparr>snapEnabled := True, snapSize := Num (1 / 2)\<rparr>) (Num (2 ^ 1023 + \<bar>x\<bar>))
       = PosInfinity
   \<and> snapToGrid (s\<lparr>snapEnabled := True, snapSize := Num (1 / 2)\<rparr>) (Num (- (2 ^ 1023 + \<bar>x\<bar>)))
       = NegInfinity
   \<and> snapToGrid (s\<lparr>snapEnabled := False\<rparr>) n = n
   \<and> snapToGrid (s\<lparr>snapEnabled := False\<rparr>) (toDouble (123 / 100)) = toDouble (123 / 100)
   \<and> translationSnap (toggleSnap (s\<lparr>snapEnabled := False, snapSize := Num (1 / 2)\<rparr>))
       = Some (Num (1 / 2))
   \<and> translationSnap (toggleSnap (s\<lparr>snapEnabled := True\<rparr>)) = None"
proof -
  have "\<exists>k::int. snapToGrid (s\<lparr>snapEnabled := True, snapSize := Num (1 / 2)\<rparr>) (Num v)
                    = Num (of_int k * (1 / 2))
       \<and> v - 1 / 4 < of_int k * (1 / 2) \<and> of_int k * (1 / 2) \<le> v + 1 / 4
       \<and> (\<forall>j::int. \<bar>of_int k * (1 / 2) - v\<bar> \<le> \<bar>of_int j * (1 / 2) - v\<bar>)"
    using snap_half_in_range [OF assms, of s] round_half_nearest [of v] by blast
  moreover have "snapToGrid (s\<lparr>snapEnabled := True, snapSize := Num (1 / 2)\<rparr>) (toDouble (123 / 100))
                 = Num 1"
  proof -
    have "isDouble (2769713770832855 / 2 ^ 51)"
      using isDouble_ratio [of 2769713770832855 51] by simp
    moreover have "\<bar>2769713770832855 / 2 ^ 51 :: real\<bar> < 2 ^ 1023"
      by simp
    ultimately show ?thesis
      unfolding toDouble_1_23 by (simp add: snap_half_in_range)
  qed
  moreover have "2 ^ 1023 \<le> 2 ^ 1023 + \<bar>x\<bar>"
    by simp
  note snap_half_overflow [OF this, of s]
  moreover have "snapToGrid (s\<lparr>snapEnabled := False\<rparr>) n = n" for n
    by (simp add: snapToGrid_def)
  moreover have "translationSnap (toggleSnap (s\<lparr>snapEnabled := False, snapSize := Num (1 / 2)\<rparr>))
                 = Some (Num (1 / 2))"
    by (simp add: toggleSnap_def)
  moreover have "translationSnap (toggleSnap (s\<lparr>snapEnabled := True\<rparr>)) = None"
    by (simp add: toggleSnap_def)
  ultimately show ?thesis by blast
qed

theorem snapToGrid_nearest_half_in_range_witness:
  "isDouble (5 / 4) \<and> \<bar>5 / 4 :: real\<bar> < 2 ^ 1023
   \<and> snapToGrid (initialEditor\<lparr>snapEnabled := True, snapSize := Num (1 / 2)\<rparr>) (Num (5 / 4))
       = Num (3 / 2)"
proof -
  have h1: "isDouble (5 / 4)"
    using isDouble_ratio [of 5 2] by simp
  have h2: "\<bar>5 / 4 :: real\<bar> < 2 ^ 1023"
    by simp
  from snapToGrid_nearest_half_in_range [OF h1 h2, of initialEditor]
  obtain k :: int where
    k: "snapToGrid (initialEditor\<lparr>snapEnabled := True, snapSize := Num (1 / 2)\<rparr>) (Num (5 / 4))
        = Num (of_int k * (1 / 2))"
      "5 / 4 - 1 / 4 < of_int k * (1 / 2 :: real)" "of_int k * (1 / 2 :: real) \<le> 5 / 4 + 1 / 4"
    by blast
  from k(2,3) have "2 < k" "k \<le> 3" by linarith+
  then have "k = 3" by simp
  with k(1) h1 h2 show ?thesis by simp
qed

text \<open>
  The claim for every candidate coordinate fails at the double \<open>2\<^sup>1\<^sup>0\<^sup>2\<^sup>3\<close>: the quotient
  \<open>2\<^sup>1\<^sup>0\<^sup>2\<^sup>3 / 0.5\<close> is no double any more, and the result is \<open>Infinity\<close>, not the
  multiple \<open>2\<^sup>1\<^sup>0\<^sup>2\<^sup>4 * 0.5\<close> of 0.5 that the candidate itself is.
\<close>

theorem snapToGrid_overflows:
  "isDouble (2 ^ 1023)
   \<and> snapToGrid (initialEditor\<lparr>snapEnabled := True, snapSize := Num (1 / 2)\<rparr>) (Num (2 ^ 1023))
       = PosInfinity"
proof -
  have "(2 :: real) ^ 1023 = of_int (2 ^ 52) * 2 ^ 2045 / 2 ^ 1074"
    by simp
  then have "isDouble (2 ^ 1023)"
    by (intro isDoubleI [of "2 ^ 52" 2045]) simp_all
  moreover have "snapToGrid (initialEditor\<lparr>snapEnabled := True, snapSize := Num (1 / 2)\<rparr>)
                   (Num (2 ^ 1023)) = PosInfinity"
    by (rule snap_half_overflow) simp
  ultimately show ?thesis by blast
qed


subsection \<open>The undo history\<close>

lemma pushUndo_eq: "pushUndo x st = slice_last 20 (st @ [x])"
  by (simp add: pushUndo_def slice_last_def Let_def)

lemma slice_last_snoc:
  "0 < n \<Longrightarrow> slice_last n (slice_last n xs @ [x]) = slice_last n (xs @ [x])"
proof (cases "length xs < n")
  case True
  then show ?thesis by (simp add: slice_last_def)
next
  case False
  assume "0 < n"
  with False have "Suc (length xs) - n = Suc (length xs - n)" by simp
  with False \<open>0 < n\<close> show ?thesis by (simp add: slice_last_def)
qed

lemma foldl_pushUndo: "foldl (\<lambda>st x. pushUndo x st) [] xs = slice_last 20 xs"
proof (induction xs rule: rev_induct)
  case Nil show ?case by (simp add: slice_last_def)
next
  case (snoc x xs)
  then show ?case by (simp add: pushUndo_eq slice_last_snoc)
qed

lemma length_pushUndo: "length (pushUndo x st) \<le> 20"
  by (simp add: pushUndo_def slice_last_def Let_def)

lemma last_pushUndo: "last (pushUndo x st) = x"
  by (simp add: pushUndo_def slice_last_def Let_def)

lemma pushUndo_not_Nil: "pushUndo x st \<noteq> []"
  by (simp add: pushUndo_def slice_last_def Let_def)

lemma capture_cong:
  "wrappers a = wrappers b \<Longrightarrow> meshes a = meshes b \<Longrightarrow> capture a w = capture b w"
  by (simp add: capture_def theObj_def theMesh_def)

lemma rehydrate_eq:
  "rehydrate sv s =
     (length (wrappers s),
      s\<lparr>meshes := meshes s @ [restoredMesh sv], scene := scene s @ [length (meshes s)],
        wrappers := wrappers s @ [\<lparr>obj_id = sv_id sv, obj_name = sv_name sv,
                                  obj_type = sv_type sv, obj_mesh = length (meshes s)\<rparr>]\<rparr>)"
  by (simp add: rehydrate_def newMesh_def sceneAdd_def newObj_def)

lemma capture_restoredMesh:
  "theObj s w = \<lparr>obj_id = sv_id sv, obj_name = sv_name sv, obj_type = sv_type sv, obj_mesh = r\<rparr>
   \<Longrightarrow> meshes s ! r = restoredMesh sv \<Longrightarrow> capture s w = sv"
  by (simp add: capture_def theMesh_def theObj_def restoredMesh_def Mesh_def MeshStandardMaterial_def)

lemma rehydrateAll_frame:
  "rehydrateAll svs s = (ws, s') \<Longrightarrow>
     (\<exists>a b. wrappers s' = wrappers s @ a \<and> meshes s' = meshes s @ b)
     \<and> undoStack s' = undoStack s \<and> selectedObjects s' = selectedObjects s
     \<and> idCalls s' = idCalls s \<and> objectCounter s' = objectCounter s \<and> alerts s' = alerts s"
proof (induction svs arbitrary: s ws s')
  case Nil
  then show ?case by simp
next
  case (Cons sv svs)
  obtain w s1 where r: "rehydrate sv s = (w, s1)" by (cases "rehydrate sv s")
  obtain ws2 s2 where ra: "rehydrateAll svs s1 = (ws2, s2)" by (cases "rehydrateAll svs s1")
  from Cons.prems r ra have e: "s' = s2" by simp
  from r have s1: "wrappers s1 = wrappers s @ [\<lparr>obj_id = sv_id sv, obj_name = sv_name sv,
                                  obj_type = sv_type sv, obj_mesh = length (meshes s)\<rparr>]"
      "meshes s1 = meshes s @ [restoredMesh sv]"
      "undoStack s1 = undoStack s" "selectedObjects s1 = selectedObjects s"
      "idCalls s1 = idCalls s" "objectCounter s1 = objectCounter s" "alerts s1 = alerts s"
    unfolding rehydrate_eq by auto
  from Cons.IH [OF ra] obtain a b where
    ab: "wrappers s2 = wrappers s1 @ a" "meshes s2 = meshes s1 @ b" 
    and rest: "undoStack s2 = undoStack s1" "selectedObjects s2 = selectedObjects s1"
      "idCalls s2 = idCalls s1" "objectCounter s2 = objectCounter s1" "alerts s2 = alerts s1"
    by blast
  have "wrappers s2 = wrappers s @ ([\<lparr>obj_id = sv_id sv, obj_name = sv_name sv,
                                  obj_type = sv_type sv, obj_mesh = length (meshes s)\<rparr>] @ a)"
    "meshes s2 = meshes s @ ([restoredMesh sv] @ b)"
    using ab s1 by simp_all
  then have "\<exists>a b. wrappers s2 = wrappers s @ a \<and> meshes s2 = meshes s @ b" by blast
  with rest s1 show ?case unfolding e by simp
qed

lemma rehydrateAll_capture:
  "rehydrateAll svs s = (ws, s') \<Longrightarrow> map (capture s') ws = svs"
proof (induction svs arbitrary: s ws s')
  case Nil
  then show ?case by simp
next
  case (Cons sv svs)
  obtain w s1 where r: "rehydrate sv s = (w, s1)" by (cases "rehydrate sv s")
  obtain ws2 s2 where ra: "rehydrateAll svs s1 = (ws2, s2)" by (cases "rehydrateAll svs s1")
  from Cons.prems r ra have e: "ws = w # ws2" "s' = s2" by simp_all
  from r have w: "w = length (wrappers s)"
    and ws1: "wrappers s1 = wrappers s @ [\<lparr>obj_id = sv_id sv, obj_name = sv_name sv,
                                  obj_type = sv_type sv, obj_mesh = length (meshes s)\<rparr>]"
    and ms1: "meshes s1 = meshes s @ [restoredMesh sv]"
    by (auto simp: rehydrate_eq)
  from rehydrateAll_frame [OF ra] obtain a b where
    ab: "wrappers s2 = wrappers s1 @ a" "meshes s2 = meshes s1 @ b" by blast
  have "capture s2 w = sv"
    by (rule capture_restoredMesh [where r = "length (meshes s)"])
       (simp_all add: theObj_def ab ws1 ms1 w nth_append)
  with Cons.IH [OF ra] show ?case by (simp add: e)
qed

lemma sceneRemove_fold:
  "\<exists>sc. foldl (\<lambda>t x. sceneRemove (obj_mesh (theObj t x)) t) s xs = s\<lparr>scene := sc\<rparr>"
proof (induction xs arbitrary: s)
  case Nil
  show ?case by (rule exI [of _ "scene s"]) simp
next
  case (Cons x xs)
  from Cons [of "sceneRemove (obj_mesh (theObj s x)) s"] obtain sc where
    "foldl (\<lambda>t x. sceneRemove (obj_mesh (theObj t x)) t) (sceneRemove (obj_mesh (theObj s x)) s) xs
       = (sceneRemove (obj_mesh (theObj s x)) s)\<lparr>scene := sc\<rparr>" by blast
  then have "foldl (\<lambda>t x. sceneRemove (obj_mesh (theObj t x)) t) s (x # xs) = s\<lparr>scene := sc\<rparr>"
    by (simp add: sceneRemove_def)
  then show ?case by blast
qed

lemma undo_capture:
  assumes "undoStack s \<noteq> []"
  shows "map (capture (undo s)) (objects (undo s)) = last (undoStack s)"
    and "undoStack (undo s) = butlast (undoStack s)"
proof -
  let ?s1 = "s\<lparr>undoStack := butlast (undoStack s)\<rparr>"
  obtain sc where sc: "foldl (\<lambda>t x. sceneRemove (obj_mesh (theObj t x)) t) ?s1 (objects ?s1) = ?s1\<lparr>scene := sc\<rparr>"
    using sceneRemove_fold by blast
  obtain ws s3 where ra: "rehydrateAll (last (undoStack s)) (?s1\<lparr>scene := sc\<rparr>) = (ws, s3)"
    by (cases "rehydrateAll (last (undoStack s)) (?s1\<lparr>scene := sc\<rparr>)")
  have ne: "(length (undoStack s) = 0) = False" using assms by simp
  have u: "undo s = s3\<lparr>objects := ws, selectedObject := None, attached := None\<rparr>"
    by (simp only: undo_def Let_def ne if_False sc ra prod.case)
  have "capture (undo s) w = capture s3 w" for w
    by (rule capture_cong) (simp_all add: u)
  then have "map (capture (undo s)) ws = map (capture s3) ws" by simp
  with rehydrateAll_capture [OF ra] show "map (capture (undo s)) (objects (undo s)) = last (undoStack s)"
    by (simp add: u)
  from rehydrateAll_frame [OF ra] show "undoStack (undo s) = butlast (undoStack s)"
    by (simp add: u)
qed

lemma undo_empty: "undoStack s = [] \<Longrightarrow> undo s = s"
  by (simp add: undo_def)


lemma undoStack_undo: "undoStack (undo s) = butlast (undoStack s)"
  by (cases "undoStack s = []") (simp_all add: undo_empty undo_capture)

lemma undoStack_undo_pow:
  "undoStack ((undo ^^ k) s) = take (length (undoStack s) - k) (undoStack s)"
proof (induction k)
  case 0
  show ?case by simp
next
  case (Suc k)
  have "undoStack ((undo ^^ Suc k) s) = butlast (take (length (undoStack s) - k) (undoStack s))"
    by (simp add: undoStack_undo Suc)
  also have "\<dots> = take (length (undoStack s) - k - 1) (undoStack s)"
    by (rule butlast_take) simp
  finally show ?case by simp
qed

lemma undo_pow_restores:
  assumes "k < length (undoStack s)"
  shows "map (capture ((undo ^^ Suc k) s)) (objects ((undo ^^ Suc k) s))
         = undoStack s ! (length (undoStack s) - Suc k)"
proof -
  let ?t = "(undo ^^ k) s"
  let ?n = "length (undoStack s)"
  have st: "undoStack ?t = take (?n - k) (undoStack s)" by (rule undoStack_undo_pow)
  from assms have "undoStack s \<noteq> []" by auto
  with assms have ne: "undoStack ?t \<noteq> []" by (simp add: st)
  have "last (undoStack ?t) = undoStack ?t ! (length (undoStack ?t) - 1)"
    using ne by (rule last_conv_nth)
  also have "\<dots> = take (?n - k) (undoStack s) ! (?n - k - 1)"
    by (simp add: st)
  also have "\<dots> = undoStack s ! (?n - k - 1)"
    using assms by (intro nth_take) simp
  finally have "last (undoStack ?t) = undoStack s ! (?n - Suc k)" by simp
  with undo_capture(1) [OF ne] show ?thesis by simp
qed

text \<open>
  C3. After more than twenty snapshots \<open>xs\<close> have been pushed onto an empty history, the
  history holds exactly the last twenty of them; the \<open>(k+1)\<close>-th successive \<open>undo\<close>, for
  every \<open>k < 20\<close>, rebuilds the objects of the \<open>(k+1)\<close>-th most recent snapshot and leaves
  the older ones of the twenty on the stack; after twenty undos a further \<open>undo\<close> changes
  nothing, so the twenty-first most recent snapshot is not recoverable. Pushing one more
  snapshot onto the full history succeeds, drops the oldest entry and keeps twenty.
\<close>

theorem undo_history_bounded:
  assumes "20 < length xs" and "k < 20"
  shows "let t = s\<lparr>undoStack := foldl (\<lambda>st x. pushUndo x st) [] xs\<rparr>;
             u = (undo ^^ Suc k) t
         in length (undoStack t) = 20
            \<and> undoStack t = drop (length xs - 20) xs
            \<and> map (capture u) (objects u) = xs ! (length xs - Suc k)
            \<and> undoStack u = take (20 - Suc k) (drop (length xs - 20) xs)
            \<and> undo ((undo ^^ 20) t) = (undo ^^ 20) t
            \<and> length (undoStack (saveUndoState t)) = 20
            \<and> undoStack (saveUndoState t)
                = drop (length xs - 19) xs @ [map (capture t) (objects t)]"
proof -
  define t where "t = s\<lparr>undoStack := foldl (\<lambda>st x. pushUndo x st) [] xs\<rparr>"
  have st: "undoStack t = drop (length xs - 20) xs"
    by (simp add: t_def foldl_pushUndo slice_last_def)
  have len: "length (undoStack t) = 20" using assms(1) by (simp add: st)
  have a: "map (capture ((undo ^^ Suc k) t)) (objects ((undo ^^ Suc k) t)) = xs ! (length xs - Suc k)"
  proof -
    have "map (capture ((undo ^^ Suc k) t)) (objects ((undo ^^ Suc k) t))
          = undoStack t ! (20 - Suc k)"
      using undo_pow_restores [of k t] assms(2) len by simp
    also have "\<dots> = xs ! (length xs - 20 + (20 - Suc k))"
      unfolding st using assms by (intro nth_drop) simp
    also have "length xs - 20 + (20 - Suc k) = length xs - Suc k" using assms by simp
    finally show ?thesis .
  qed
  have b: "undoStack ((undo ^^ Suc k) t) = take (20 - Suc k) (drop (length xs - 20) xs)"
  proof -
    have "undoStack ((undo ^^ Suc k) t) = take (length (undoStack t) - Suc k) (undoStack t)"
      by (rule undoStack_undo_pow)
    then show ?thesis unfolding len unfolding st .
  qed
  have "undoStack ((undo ^^ 20) t) = []"
    using undoStack_undo_pow [of 20 t] by (simp add: len)
  then have "undo ((undo ^^ 20) t) = (undo ^^ 20) t" by (rule undo_empty)
  then have c: "undo ((undo ^^ 20) t) = (undo ^^ 20) t" .
  have d: "undoStack (saveUndoState t) = drop (length xs - 19) xs @ [map (capture t) (objects t)]"
  proof -
    have "Suc (length xs - 20) = length xs - 19" using assms(1) by simp
    then show ?thesis using assms(1)
      by (simp add: saveUndoState_def pushUndo_eq slice_last_def st)
  qed
  have e: "length (undoStack (saveUndoState t)) = 20" using assms(1) by (simp add: d)
  from st len a b c d e show ?thesis unfolding t_def [symmetric] Let_def by blast
qed

theorem undo_history_bounded_witness:
  "20 < length sampleHistory \<and> (19::nat) < 20
   \<and> (let t = initialEditor\<lparr>undoStack := foldl (\<lambda>st x. pushUndo x st) [] sampleHistory\<rparr>;
            u = (undo ^^ Suc 19) t
        in length (undoStack t) = 20
           \<and> undoStack t = drop (length sampleHistory - 20) sampleHistory
           \<and> map (capture u) (objects u) = sampleHistory ! (length sampleHistory - Suc 19)
           \<and> undoStack u = take (20 - Suc 19) (drop (length sampleHistory - 20) sampleHistory)
           \<and> undo ((undo ^^ 20) t) = (undo ^^ 20) t
           \<and> length (undoStack (saveUndoState t)) = 20
           \<and> undoStack (saveUndoState t)
               = drop (length sampleHistory - 19) sampleHistory @ [map (capture t) (objects t)])"
proof -
  have h1: "20 < length sampleHistory" by (simp add: sampleHistory_def)
  have h2: "(19::nat) < 20" by simp
  show ?thesis by (intro conjI h1 h2 undo_history_bounded [OF h1 h2])
qed


subsection \<open>A sample session, evaluated\<close>

lemmas eval_defs = saveUndoState_def pushUndo_def slice_last_def capture_def
  newMesh_def newObj_def sceneAdd_def sceneRemove_def updMesh_def generateId_def mkId_def
  highlight_def setEmissiveHex_def theObj_def theMesh_def Mesh_def Vector3_def
  Let_def env0_def digitChar_def showNat.simps

lemma lookup_cube: "map_of shapeTable ''cube'' = Some (''Cube'', Geom ''BoxGeometry'' [1, 1, 1])"
  by (simp add: shapeTable_def)

lemma oneCube_eval: "oneCube =
  \<lparr>objects = [0], selectedObject = Some 0, selectedObjects = [0], undoStack = [[]],
      objectCounter = 1, snapEnabled = False, snapSize = Num (1 / 2),
      wrappers = [\<lparr>obj_id = ''obj_1700_k3j9x2m1q'', obj_name = ''Cube_0'', obj_type = ''cube'', obj_mesh = 0\<rparr>],
      meshes = [\<lparr>geometry = Geom ''BoxGeometry'' [1, 1, 1],
                material = \<lparr>color = 0x3366cc, metalness = toDouble (3 / 10),
                 roughness = toDouble (7 / 10),
                 transparent = True, opacity = Num 1, emissive = 0x333333,
                 emissiveIntensity = Num 0, wireframe = False\<rparr>,
                position = \<lparr>vx = Num 0, vy = Num (1 / 2), vz = Num 0\<rparr>,
                rotation = \<lparr>vx = Num 0, vy = Num 0, vz = Num 0\<rparr>,
                scale = \<lparr>vx = Num 1, vy = Num 1, vz = Num 1\<rparr>, visible = True,
                objectId = ''obj_1700_k3j9x2m1q''\<rparr>],
      scene = [0], attached = Some 0, translationSnap = None,
      rotationSnap = None, scaleSnap = None, idCalls = 1, alerts = []\<rparr>"
  by (simp add: oneCube_def addPrimitive_def primitiveMesh_def selectObject_def initialEditor_def shapeEntry_def lookup_cube eval_defs)


subsection \<open>Numeric fields of the property editor\<close>

lemma updateObjectProperty_meshes:
  assumes "selectedObject s = Some sel" and "property \<noteq> ''name''"
  shows "meshes (updateObjectProperty property v s)
         = (meshes s)[obj_mesh (theObj s sel) :=
                        editMesh property v (meshes s ! obj_mesh (theObj s sel))]"
  using assms by (simp add: updateObjectProperty_def updMesh_def newObj_def Let_def)

lemma updateObjectProperty_mesh_at:
  assumes "selectedObject s = Some sel" and "property \<noteq> ''name''"
    and "obj_mesh (theObj s sel) < length (meshes s)"
  shows "meshes (updateObjectProperty property v s) ! obj_mesh (theObj s sel)
         = editMesh property v (meshes s ! obj_mesh (theObj s sel))"
  using assms by (simp add: updateObjectProperty_meshes)

lemmas parseFloat_defs = parseFloat_def parseFloatStr_def parseUnsigned_def isDigit_def
  isWhiteSpace_def digitsVal_def digitVal_def pow10_def parseExponent_def negate_def

lemma parseFloat_samples:
  "parseFloat (Str ''abc'') = NaN" "parseFloat (Str '''') = NaN" "parseFloat (Str ''-'') = NaN"
  "parseFloat (Str ''0'') = Num 0" "parseFloat (Str ''0.0'') = Num 0"
  "parseFloat (Str ''-0'') = Num 0" "parseFloat (Number (Num 0)) = Num 0"
  "parseFloat (Str ''1.5'') = Num (3 / 2)"
  by (simp_all add: parseFloat_defs)

text \<open>
  A number at the front of the string is read and the rest ignored; a no-break space
  counts as white space; a literal beyond the range of the doubles gives an infinity and
  one below it gives zero.
\<close>

lemma parseFloat_prefix_samples:
  "parseFloat (Str ''12px'') = Num 12" "parseFloat (Str ''1.5abc'') = Num (3 / 2)"
  "parseFloat (Str ''1,5'') = Num 1" "parseFloat (Str [CHR 0xA0, CHR ''7'']) = Num 7"
  by (simp_all add: parseFloat_defs)

lemma parseFloat_range_samples:
  "parseFloat (Str ''1e400'') = PosInfinity" "parseFloat (Str ''1e-400'') = Num 0"
proof -
  have "toDouble (10 ^ 400) = PosInfinity"
    by (rule toDouble_overflow) simp
  then show "parseFloat (Str ''1e400'') = PosInfinity"
    by (simp add: parseFloat_defs)
  have "toDouble (1 / 10 ^ 400) = Num 0"
    by (rule toDouble_underflow) simp
  then show "parseFloat (Str ''1e-400'') = Num 0"
    by (simp add: parseFloat_defs)
qed

text \<open>
  C7, as the code has it. \<open>updateObjectProperty\<close> rejects no value. With an object
  selected, a value \<open>v\<close> from which \<open>parseFloat\<close> reads no number (it returns \<open>NaN\<close>, as
  for \<open>abc\<close> or the empty string) makes the position or rotation coordinate 0 and the
  scale coordinate 1, everything else of the mesh staying as it was. A value \<open>u\<close> from
  which \<open>parseFloat\<close> reads a number other than zero is written as that number (a
  rotation as that number of degrees), also when the string is malformed behind the
  number, as \<open>12px\<close> is.
\<close>

theorem value_without_number_falls_back:
  assumes "selectedObject s = Some sel"
    and "obj_mesh (theObj s sel) < length (meshes s)"
    and "parseFloat v = NaN"
    and "truthy (parseFloat u)"
  shows "let r = obj_mesh (theObj s sel); m = meshes s ! r;
             after = (\<lambda>property value. meshes (updateObjectProperty property value s) ! r)
         in after ''positionX'' v = m\<lparr>position := (position m)\<lparr>vx := Num 0\<rparr>\<rparr>
          \<and> after ''positionY'' v = m\<lparr>position := (position m)\<lparr>vy := Num 0\<rparr>\<rparr>
          \<and> after ''positionZ'' v = m\<lparr>position := (position m)\<lparr>vz := Num 0\<rparr>\<rparr>
          \<and> after ''rotationX'' v = m\<lparr>rotation := (rotation m)\<lparr>vx := Num 0\<rparr>\<rparr>
          \<and> after ''rotationY'' v = m\<lparr>rotation := (rotation m)\<lparr>vy := Num 0\<rparr>\<rparr>
          \<and> after ''rotationZ'' v = m\<lparr>rotation := (rotation m)\<lparr>vz := Num 0\<rparr>\<rparr>
          \<and> after ''scaleX'' v = m\<lparr>scale := (scale m)\<lparr>vx := Num 1\<rparr>\<rparr>
          \<and> after ''scaleY'' v = m\<lparr>scale := (scale m)\<lparr>vy := Num 1\<rparr>\<rparr>
          \<and> after ''scaleZ'' v = m\<lparr>scale := (scale m)\<lparr>vz := Num 1\<rparr>\<rparr>
          \<and> after ''positionX'' u = m\<lparr>position := (position m)\<lparr>vx := parseFloat u\<rparr>\<rparr>
          \<and> after ''positionY'' u = m\<lparr>position := (position m)\<lparr>vy := parseFloat u\<rparr>\<rparr>
          \<and> after ''positionZ'' u = m\<lparr>position := (position m)\<lparr>vz := parseFloat u\<rparr>\<rparr>
          \<and> after ''rotationX'' u = m\<lparr>rotation := (rotation m)\<lparr>vx := degToRad (parseFloat u)\<rparr>\<rparr>
          \<and> after ''rotationY'' u = m\<lparr>rotation := (rotation m)\<lparr>vy := degToRad (parseFloat u)\<rparr>\<rparr>
          \<and> after ''rotationZ'' u = m\<lparr>rotation := (rotation m)\<lparr>vz := degToRad (parseFloat u)\<rparr>\<rparr>
          \<and> after ''scaleX'' u = m\<lparr>scale := (scale m)\<lparr>vx := parseFloat u\<rparr>\<rparr>
          \<and> after ''scaleY'' u = m\<lparr>scale := (scale m)\<lparr>vy := parseFloat u\<rparr>\<rparr>
          \<and> after ''scaleZ'' u = m\<lparr>scale := (scale m)\<lparr>vz := parseFloat u\<rparr>\<rparr>
          \<and> parseFloat (Str ''abc'') = NaN \<and> parseFloat (Str []) = NaN
          \<and> parseFloat (Str ''12px'') = Num 12"
proof -
  note at = updateObjectProperty_mesh_at [OF assms(1) _ assms(2)]
  have d: "orElse (parseFloat v) (Num 0) = Num 0" "orElse (parseFloat v) (Num 1) = Num 1"
    "degToRad (Num 0) = Num 0" "orElse (parseFloat u) (Num 0) = parseFloat u"
    "orElse (parseFloat u) (Num 1) = parseFloat u"
    using assms(3,4) by (simp_all add: orElse_def truthy_def degToRad_def)
  let ?r = "obj_mesh (theObj s sel)"
  let ?m = "meshes s ! ?r"
  have "meshes (updateObjectProperty ''positionX'' v s) ! ?r = ?m\<lparr>position := (position ?m)\<lparr>vx := Num 0\<rparr>\<rparr>"
    by (subst at) (simp_all add: editMesh_def d)
  moreover have "meshes (updateObjectProperty ''positionY'' v s) ! ?r = ?m\<lparr>position := (position ?m)\<lparr>vy := Num 0\<rparr>\<rparr>"
    by (subst at) (simp_all add: editMesh_def d)
  moreover have "meshes (updateObjectProperty ''positionZ'' v s) ! ?r = ?m\<lparr>position := (position ?m)\<lparr>vz := Num 0\<rparr>\<rparr>"
    by (subst at) (simp_all add: editMesh_def d)
  moreover have "meshes (updateObjectProperty ''rotationX'' v s) ! ?r = ?m\<lparr>rotation := (rotation ?m)\<lparr>vx := Num 0\<rparr>\<rparr>"
    by (subst at) (simp_all add: editMesh_def d)
  moreover have "meshes (updateObjectProperty ''rotationY'' v s) ! ?r = ?m\<lparr>rotation := (rotation ?m)\<lparr>vy := Num 0\<rparr>\<rparr>"
    by (subst at) (simp_all add: editMesh_def d)
  moreover have "meshes (updateObjectProperty ''rotationZ'' v s) ! ?r = ?m\<lparr>rotation := (rotation ?m)\<lparr>vz := Num 0\<rparr>\<rparr>"
    by (subst at) (simp_all add: editMesh_def d)
  moreover have "meshes (updateObjectProperty ''scaleX'' v s) ! ?r = ?m\<lparr>scale := (scale ?m)\<lparr>vx := Num 1\<rparr>\<rparr>"
    by (subst at) (simp_all add: editMesh_def d)
  moreover have "meshes (updateObjectProperty ''scaleY'' v s) ! ?r = ?m\<lparr>scale := (scale ?m)\<lparr>vy := Num 1\<rparr>\<rparr>"
    by (subst at) (simp_all add: editMesh_def d)
  moreover have "meshes (updateObjectProperty ''scaleZ'' v s) ! ?r = ?m\<lparr>scale := (scale ?m)\<lparr>vz := Num 1\<rparr>\<rparr>"
    by (subst at) (simp_all add: editMesh_def d)
  moreover have "meshes (updateObjectProperty ''positionX'' u s) ! ?r = ?m\<lparr>position := (position ?m)\<lparr>vx := parseFloat u\<rparr>\<rparr>"
    by (subst at) (simp_all add: editMesh_def d)
  moreover have "meshes (updateObjectProperty ''positionY'' u s) ! ?r = ?m\<lparr>position := (position ?m)\<lparr>vy := parseFloat u\<rparr>\<rparr>"
    by (subst at) (simp_all add: editMesh_def d)
  moreover have "meshes (updateObjectProperty ''positionZ'' u s) ! ?r = ?m\<lparr>position := (position ?m)\<lparr>vz := parseFloat u\<rparr>\<rparr>"
    by (subst at) (simp_all add: editMesh_def d)
  moreover have "meshes (updateObjectProperty ''rotationX'' u s) ! ?r = ?m\<lparr>rotation := (rotation ?m)\<lparr>vx := degToRad (parseFloat u)\<rparr>\<rparr>"
    by (subst at) (simp_all add: editMesh_def d)
  moreover have "meshes (updateObjectProperty ''rotationY'' u s) ! ?r = ?m\<lparr>rotation := (rotation ?m)\<lparr>vy := degToRad (parseFloat u)\<rparr>\<rparr>"
    by (subst at) (simp_all add: editMesh_def d)
  moreover have "meshes (updateObjectProperty ''rotationZ'' u s) ! ?r = ?m\<lparr>rotation := (rotation ?m)\<lparr>vz := degToRad (parseFloat u)\<rparr>\<rparr>"
    by (subst at) (simp_all add: editMesh_def d)
  moreover have "meshes (updateObjectProperty ''scaleX'' u s) ! ?r = ?m\<lparr>scale := (scale ?m)\<lparr>vx := parseFloat u\<rparr>\<rparr>"
    by (subst at) (simp_all add: editMesh_def d)
  moreover have "meshes (updateObjectProperty ''scaleY'' u s) ! ?r = ?m\<lparr>scale := (scale ?m)\<lparr>vy := parseFloat u\<rparr>\<rparr>"
    by (subst at) (simp_all add: editMesh_def d)
  moreover have "meshes (updateObjectProperty ''scaleZ'' u s) ! ?r = ?m\<lparr>scale := (scale ?m)\<lparr>vz := parseFloat u\<rparr>\<rparr>"
    by (subst at) (simp_all add: editMesh_def d)
  ultimately show ?thesis
    unfolding Let_def using parseFloat_samples(1,2) parseFloat_prefix_samples(1) by blast
qed

theorem value_without_number_falls_back_witness:
  "selectedObject oneCube = Some 0
   \<and> obj_mesh (theObj oneCube 0) < length (meshes oneCube)
   \<and> parseFloat (Str ''abc'') = NaN
   \<and> truthy (parseFloat (Str ''12px''))
   \<and> (let r = obj_mesh (theObj oneCube 0); m = meshes oneCube ! r;
            after = (\<lambda>property value. meshes (updateObjectProperty property value oneCube) ! r)
        in after ''positionX'' (Str ''abc'') = m\<lparr>position := (position m)\<lparr>vx := Num 0\<rparr>\<rparr>
         \<and> after ''positionY'' (Str ''abc'') = m\<lparr>position := (position m)\<lparr>vy := Num 0\<rparr>\<rparr>
         \<and> after ''positionZ'' (Str ''abc'') = m\<lparr>position := (position m)\<lparr>vz := Num 0\<rparr>\<rparr>
         \<and> after ''rotationX'' (Str ''abc'') = m\<lparr>rotation := (rotation m)\<lparr>vx := Num 0\<rparr>\<rparr>
         \<and> after ''rotationY'' (Str ''abc'') = m\<lparr>rotation := (rotation m)\<lparr>vy := Num 0\<rparr>\<rparr>
         \<and> after ''rotationZ'' (Str ''abc'') = m\<lparr>rotation := (rotation m)\<lparr>vz := Num 0\<rparr>\<rparr>
         \<and> after ''scaleX'' (Str ''abc'') = m\<lparr>scale := (scale m)\<lparr>vx := Num 1\<rparr>\<rparr>
         \<and> after ''scaleY'' (Str ''abc'') = m\<lparr>scale := (scale m)\<lparr>vy := Num 1\<rparr>\<rparr>
         \<and> after ''scaleZ'' (Str ''abc'') = m\<lparr>scale := (scale m)\<lparr>vz := Num 1\<rparr>\<rparr>
         \<and> after ''positionX'' (Str ''12px'') = m\<lparr>position := (position m)\<lparr>vx := parseFloat (Str ''12px'')\<rparr>\<rparr>
         \<and> after ''positionY'' (Str ''12px'') = m\<lparr>position := (position m)\<lparr>vy := parseFloat (Str ''12px'')\<rparr>\<rparr>
         \<and> after ''positionZ'' (Str ''12px'') = m\<lparr>position := (position m)\<lparr>vz := parseFloat (Str ''12px'')\<rparr>\<rparr>
         \<and> after ''rotationX'' (Str ''12px'') = m\<lparr>rotation := (rotation m)\<lparr>vx := degToRad (parseFloat (Str ''12px''))\<rparr>\<rparr>
         \<and> after ''rotationY'' (Str ''12px'') = m\<lparr>rotation := (rotation m)\<lparr>vy := degToRad (parseFloat (Str ''12px''))\<rparr>\<rparr>
         \<and> after ''rotationZ'' (Str ''12px'') = m\<lparr>rotation := (rotation m)\<lparr>vz := degToRad (parseFloat (Str ''12px''))\<rparr>\<rparr>
         \<and> after ''scaleX'' (Str ''12px'') = m\<lparr>scale := (scale m)\<lparr>vx := parseFloat (Str ''12px'')\<rparr>\<rparr>
         \<and> after ''scaleY'' (Str ''12px'') = m\<lparr>scale := (scale m)\<lparr>vy := parseFloat (Str ''12px'')\<rparr>\<rparr>
         \<and> after ''scaleZ'' (Str ''12px'') = m\<lparr>scale := (scale m)\<lparr>vz := parseFloat (Str ''12px'')\<rparr>\<rparr>
         \<and> parseFloat (Str ''abc'') = NaN \<and> parseFloat (Str []) = NaN
         \<and> parseFloat (Str ''12px'') = Num 12)"
proof -
  have h1: "selectedObject oneCube = Some 0" by (simp add: oneCube_eval)
  have h2: "obj_mesh (theObj oneCube 0) < length (meshes oneCube)"
    by (simp add: oneCube_eval theObj_def)
  have h3: "parseFloat (Str ''abc'') = NaN" by (rule parseFloat_samples)
  have h4: "truthy (parseFloat (Str ''12px''))"
    by (simp add: parseFloat_prefix_samples truthy_def)
  show ?thesis by (intro conjI h1 h2 h3 h4 value_without_number_falls_back [OF h1 h2 h3 h4])
qed

text \<open>
  The claim for every malformed string fails at \<open>12px\<close>, which is no number: submitted to
  the fields of the selected default cube, it makes the position coordinate 12, not 0,
  and the scale coordinate 12, not 1; the rotation becomes that of 12 degrees.
\<close>

theorem numeric_prefix_is_taken:
  "selectedObject oneCube = Some 0
   \<and> vx (position (meshes (updateObjectProperty ''positionX'' (Str ''12px'') oneCube) ! 0)) = Num 12
   \<and> vx (scale (meshes (updateObjectProperty ''scaleX'' (Str ''12px'') oneCube) ! 0)) = Num 12
   \<and> vx (rotation (meshes (updateObjectProperty ''rotationX'' (Str ''12px'') oneCube) ! 0))
       = degToRad (Num 12)
   \<and> vx (position (meshes (updateObjectProperty ''positionX'' (Str ''abc'') oneCube) ! 0)) = Num 0"
proof -
  have h1: "selectedObject oneCube = Some 0" by (simp add: oneCube_eval)
  have h2: "obj_mesh (theObj oneCube 0) = 0" "0 < length (meshes oneCube)"
    by (simp_all add: oneCube_eval theObj_def)
  have m: "meshes (updateObjectProperty property v oneCube) ! 0
           = editMesh property v (meshes oneCube ! 0)" if "property \<noteq> ''name''" for property v
    using updateObjectProperty_mesh_at [OF h1 that] h2 by simp
  show ?thesis
    by (simp add: h1 m editMesh_def orElse_def truthy_def parseFloat_prefix_samples
        parseFloat_samples)
qed

text \<open>
  C10. With an object selected, a value that parses to the number 0 (the string \<open>0\<close>
  does) sets a scale axis to 1, because 0 is falsy in \<open>parseFloat(value) || 1\<close>, while a
  position or rotation axis becomes exactly 0. No value \<open>w\<close> at all makes a scale axis 0
  through \<open>updateObjectProperty\<close>.
\<close>

theorem zero_scale_becomes_one:
  assumes "selectedObject s = Some sel"
    and "obj_mesh (theObj s sel) < length (meshes s)"
    and "parseFloat v = Num 0"
  shows "let r = obj_mesh (theObj s sel); m = meshes s ! r;
             after = (\<lambda>property value. meshes (updateObjectProperty property value s) ! r)
         in after ''scaleX'' v = m\<lparr>scale := (scale m)\<lparr>vx := Num 1\<rparr>\<rparr>
          \<and> after ''scaleY'' v = m\<lparr>scale := (scale m)\<lparr>vy := Num 1\<rparr>\<rparr>
          \<and> after ''scaleZ'' v = m\<lparr>scale := (scale m)\<lparr>vz := Num 1\<rparr>\<rparr>
          \<and> after ''positionX'' v = m\<lparr>position := (position m)\<lparr>vx := Num 0\<rparr>\<rparr>
          \<and> after ''positionY'' v = m\<lparr>position := (position m)\<lparr>vy := Num 0\<rparr>\<rparr>
          \<and> after ''positionZ'' v = m\<lparr>position := (position m)\<lparr>vz := Num 0\<rparr>\<rparr>
          \<and> after ''rotationX'' v = m\<lparr>rotation := (rotation m)\<lparr>vx := Num 0\<rparr>\<rparr>
          \<and> after ''rotationY'' v = m\<lparr>rotation := (rotation m)\<lparr>vy := Num 0\<rparr>\<rparr>
          \<and> after ''rotationZ'' v = m\<lparr>rotation := (rotation m)\<lparr>vz := Num 0\<rparr>\<rparr>
          \<and> vx (scale (after ''scaleX'' w)) \<noteq> Num 0
          \<and> vy (scale (after ''scaleY'' w)) \<noteq> Num 0
          \<and> vz (scale (after ''scaleZ'' w)) \<noteq> Num 0
          \<and> parseFloat (Str ''0'') = Num 0"
proof -
  note at = updateObjectProperty_mesh_at [OF assms(1) _ assms(2)]
  have d: "orElse (parseFloat v) (Num 0) = Num 0" "orElse (parseFloat v) (Num 1) = Num 1"
    "degToRad (Num 0) = Num 0" "orElse (parseFloat w) (Num 1) \<noteq> Num 0"
    using assms(3) by (simp_all add: orElse_def truthy_def degToRad_def)
  let ?r = "obj_mesh (theObj s sel)"
  let ?m = "meshes s ! ?r"
  have "meshes (updateObjectProperty ''scaleX'' v s) ! ?r = ?m\<lparr>scale := (scale ?m)\<lparr>vx := Num 1\<rparr>\<rparr>"
    by (subst at) (simp_all add: editMesh_def d)
  moreover have "meshes (updateObjectProperty ''scaleY'' v s) ! ?r = ?m\<lparr>scale := (scale ?m)\<lparr>vy := Num 1\<rparr>\<rparr>"
    by (subst at) (simp_all add: editMesh_def d)
  moreover have "meshes (updateObjectProperty ''scaleZ'' v s) ! ?r = ?m\<lparr>scale := (scale ?m)\<lparr>vz := Num 1\<rparr>\<rparr>"
    by (subst at) (simp_all add: editMesh_def d)
  moreover have "meshes (updateObjectProperty ''positionX'' v s) ! ?r = ?m\<lparr>position := (position ?m)\<lparr>vx := Num 0\<rparr>\<rparr>"
    by (subst at) (simp_all add: editMesh_def d)
  moreover have "meshes (updateObjectProperty ''positionY'' v s) ! ?r = ?m\<lparr>position := (position ?m)\<lparr>vy := Num 0\<rparr>\<rparr>"
    by (subst at) (simp_all add: editMesh_def d)
  moreover have "meshes (updateObjectProperty ''positionZ'' v s) ! ?r = ?m\<lparr>position := (position ?m)\<lparr>vz := Num 0\<rparr>\<rparr>"
    by (subst at) (simp_all add: editMesh_def d)
  moreover have "meshes (updateObjectProperty ''rotationX'' v s) ! ?r = ?m\<lparr>rotation := (rotation ?m)\<lparr>vx := Num 0\<rparr>\<rparr>"
    by (subst at) (simp_all add: editMesh_def d)
  moreover have "meshes (updateObjectProperty ''rotationY'' v s) ! ?r = ?m\<lparr>rotation := (rotation ?m)\<lparr>vy := Num 0\<rparr>\<rparr>"
    by (subst at) (simp_all add: editMesh_def d)
  moreover have "meshes (updateObjectProperty ''rotationZ'' v s) ! ?r = ?m\<lparr>rotation := (rotation ?m)\<lparr>vz := Num 0\<rparr>\<rparr>"
    by (subst at) (simp_all add: editMesh_def d)
  moreover have "vx (scale (meshes (updateObjectProperty ''scaleX'' w s) ! ?r)) \<noteq> Num 0"
    by (subst at) (simp_all add: editMesh_def d)
  moreover have "vy (scale (meshes (updateObjectProperty ''scaleY'' w s) ! ?r)) \<noteq> Num 0"
    by (subst at) (simp_all add: editMesh_def d)
  moreover have "vz (scale (meshes (updateObjectProperty ''scaleZ'' w s) ! ?r)) \<noteq> Num 0"
    by (subst at) (simp_all add: editMesh_def d)
  ultimately show ?thesis unfolding Let_def using parseFloat_samples(4) by blast
qed

theorem zero_scale_becomes_one_witness:
  "selectedObject oneCube = Some 0
   \<and> obj_mesh (theObj oneCube 0) < length (meshes oneCube)
   \<and> parseFloat (Str ''0'') = Num 0
   \<and> (let r = obj_mesh (theObj oneCube 0); m = meshes oneCube ! r;
             after = (\<lambda>property value. meshes (updateObjectProperty property value oneCube) ! r)
         in after ''scaleX'' (Str ''0'') = m\<lparr>scale := (scale m)\<lparr>vx := Num 1\<rparr>\<rparr>
          \<and> after ''scaleY'' (Str ''0'') = m\<lparr>scale := (scale m)\<lparr>vy := Num 1\<rparr>\<rparr>
          \<and> after ''scaleZ'' (Str ''0'') = m\<lparr>scale := (scale m)\<lparr>vz := Num 1\<rparr>\<rparr>
          \<and> after ''positionX'' (Str ''0'') = m\<lparr>position := (position m)\<lparr>vx := Num 0\<rparr>\<rparr>
          \<and> after ''positionY'' (Str ''0'') = m\<lparr>position := (position m)\<lparr>vy := Num 0\<rparr>\<rparr>
          \<and> after ''positionZ'' (Str ''0'') = m\<lparr>position := (position m)\<lparr>vz := Num 0\<rparr>\<rparr>
          \<and> after ''rotationX'' (Str ''0'') = m\<lparr>rotation := (rotation m)\<lparr>vx := Num 0\<rparr>\<rparr>
          \<and> after ''rotationY'' (Str ''0'') = m\<lparr>rotation := (rotation m)\<lparr>vy := Num 0\<rparr>\<rparr>
          \<and> after ''rotationZ'' (Str ''0'') = m\<lparr>rotation := (rotation m)\<lparr>vz := Num 0\<rparr>\<rparr>
          \<and> vx (scale (after ''scaleX'' (Number (Num 0)))) \<noteq> Num 0
          \<and> vy (scale (after ''scaleY'' (Number (Num 0)))) \<noteq> Num 0
          \<and> vz (scale (after ''scaleZ'' (Number (Num 0)))) \<noteq> Num 0
          \<and> parseFloat (Str ''0'') = Num 0)"
proof -
  have h1: "selectedObject oneCube = Some 0" by (simp add: oneCube_eval)
  have h2: "obj_mesh (theObj oneCube 0) < length (meshes oneCube)"
    by (simp add: oneCube_eval theObj_def)
  have h3: "parseFloat (Str ''0'') = Num 0" by (rule parseFloat_samples)
  show ?thesis by (intro conjI h1 h2 h3 zero_scale_becomes_one [OF h1 h2 h3])
qed

subsection \<open>Highlighting and selection\<close>

lemma setEmissiveHex_idem [simp]:
  "setEmissiveHex h (setEmissiveHex g m) = setEmissiveHex h m"
  by (simp add: setEmissiveHex_def)

lemma setEmissiveHex_fields [simp]:
  "geometry (setEmissiveHex h m) = geometry m" "position (setEmissiveHex h m) = position m"
  "rotation (setEmissiveHex h m) = rotation m" "scale (setEmissiveHex h m) = scale m"
  "visible (setEmissiveHex h m) = visible m" "objectId (setEmissiveHex h m) = objectId m"
  "emissive (material (setEmissiveHex h m)) = h"
  "color (material (setEmissiveHex h m)) = color (material m)"
  "metalness (material (setEmissiveHex h m)) = metalness (material m)"
  "roughness (material (setEmissiveHex h m)) = roughness (material m)"
  "opacity (material (setEmissiveHex h m)) = opacity (material m)"
  "wireframe (material (setEmissiveHex h m)) = wireframe (material m)"
  "transparent (material (setEmissiveHex h m)) = transparent (material m)"
  "emissiveIntensity (material (setEmissiveHex h m)) = emissiveIntensity (material m)"
  by (simp_all add: setEmissiveHex_def)

lemma highlight_Nil [simp]: "highlight h [] s = s"
  by (simp add: highlight_def)

lemma highlight_Cons:
  "highlight h (w # ws) s = highlight h ws (updMesh (obj_mesh (theObj s w)) (setEmissiveHex h) s)"
  by (simp add: highlight_def)

lemma theObj_updMesh [simp]: "theObj (updMesh r f s) = theObj s"
  by (rule ext) (simp add: theObj_def updMesh_def)

lemma highlight_only_meshes: "highlight h ws s = s\<lparr>meshes := meshes (highlight h ws s)\<rparr>"
proof (induction ws arbitrary: s)
  case Nil
  show ?case by simp
next
  case (Cons w ws)
  let ?s1 = "updMesh (obj_mesh (theObj s w)) (setEmissiveHex h) s"
  have "highlight h (w # ws) s = ?s1\<lparr>meshes := meshes (highlight h ws ?s1)\<rparr>"
    using Cons [of ?s1] by (simp add: highlight_Cons)
  also have "\<dots> = s\<lparr>meshes := meshes (highlight h ws ?s1)\<rparr>"
    by (simp add: updMesh_def)
  finally show ?case by (simp add: highlight_Cons)
qed

lemma highlight_fields [simp]:
  "objects (highlight h ws s) = objects s" "wrappers (highlight h ws s) = wrappers s"
  "undoStack (highlight h ws s) = undoStack s" "scene (highlight h ws s) = scene s"
  "idCalls (highlight h ws s) = idCalls s" "objectCounter (highlight h ws s) = objectCounter s"
  "alerts (highlight h ws s) = alerts s" "selectedObject (highlight h ws s) = selectedObject s"
  "selectedObjects (highlight h ws s) = selectedObjects s" "attached (highlight h ws s) = attached s"
  "snapEnabled (highlight h ws s) = snapEnabled s" "snapSize (highlight h ws s) = snapSize s"
  by (subst highlight_only_meshes, simp)+

lemma theObj_highlight [simp]: "theObj (highlight h ws s) = theObj s"
  by (rule ext) (simp add: theObj_def)

lemma highlight_meshes:
  "length (meshes (highlight h ws s)) = length (meshes s)
   \<and> meshes (highlight h ws s) ! r =
       (if r \<in> (\<lambda>w. obj_mesh (theObj s w)) ` set ws \<and> r < length (meshes s)
        then setEmissiveHex h (meshes s ! r) else meshes s ! r)"
proof (induction ws arbitrary: s)
  case Nil
  show ?case by simp
next
  case (Cons w ws)
  let ?r0 = "obj_mesh (theObj s w)"
  let ?s1 = "updMesh ?r0 (setEmissiveHex h) s"
  have l: "length (meshes ?s1) = length (meshes s)" by (simp add: updMesh_def)
  have n: "meshes ?s1 ! q = (if q = ?r0 \<and> q < length (meshes s)
                             then setEmissiveHex h (meshes s ! q) else meshes s ! q)" for q
    by (cases "q = ?r0"; cases "q < length (meshes s)")
       (simp_all add: updMesh_def list_update_beyond)
  from Cons [of ?s1] show ?case
    unfolding highlight_Cons by (simp add: l n)
qed

lemma length_meshes_highlight [simp]:
  "length (meshes (highlight h ws s)) = length (meshes s)"
  using highlight_meshes by blast

lemma selectObject_fields [simp]:
  "objects (selectObject obj a s) = objects s" "wrappers (selectObject obj a s) = wrappers s"
  "undoStack (selectObject obj a s) = undoStack s" "scene (selectObject obj a s) = scene s"
  "idCalls (selectObject obj a s) = idCalls s" "objectCounter (selectObject obj a s) = objectCounter s"
  "alerts (selectObject obj a s) = alerts s"
  "length (meshes (selectObject obj a s)) = length (meshes s)"
  by (simp_all add: selectObject_def Let_def updMesh_def split: option.split)

lemma theObj_selectObject [simp]: "theObj (selectObject obj a s) = theObj s"
  by (rule ext) (simp add: theObj_def)


lemma theObj_updates [simp]:
  "theObj (s\<lparr>meshes := ms\<rparr>) = theObj s" "theObj (s\<lparr>attached := tgt\<rparr>) = theObj s"
  "theObj (s\<lparr>selectedObject := so\<rparr>) = theObj s" "theObj (s\<lparr>selectedObjects := sos\<rparr>) = theObj s"
  "theObj (s\<lparr>objects := obs\<rparr>) = theObj s" "theObj (s\<lparr>scene := sc\<rparr>) = theObj s"
  "theObj (s\<lparr>undoStack := us\<rparr>) = theObj s" "theObj (s\<lparr>idCalls := n\<rparr>) = theObj s"
  "theObj (s\<lparr>objectCounter := n\<rparr>) = theObj s" "theObj (s\<lparr>alerts := al\<rparr>) = theObj s"
  by (rule ext, simp add: theObj_def)+

lemma selectObject_plain:
  "selectedObject (selectObject (Some ob) False s) = Some ob"
  "selectedObjects (selectObject (Some ob) False s) = [ob]"
  "attached (selectObject (Some ob) False s) = Some (obj_mesh (theObj s ob))"
  "meshes (selectObject (Some ob) False s)
     = (meshes (highlight 0x000000 (objects s) s))
         [obj_mesh (theObj s ob) :=
            setEmissiveHex 0x333333 (meshes (highlight 0x000000 (objects s) s) ! obj_mesh (theObj s ob))]"
  by (simp_all add: selectObject_def Let_def updMesh_def)



lemma nth_update_cases:
  "xs[i := v] ! r = (if r = i \<and> i < length xs then v else xs ! r)"
  by (cases "r = i"; cases "i < length xs") (simp_all add: list_update_beyond)





subsection \<open>addPrimitive\<close>

lemma theObj_wrappers_update [simp]: "theObj (s\<lparr>wrappers := ws\<rparr>) w = ws ! w"
  by (simp add: theObj_def)

lemma addPrimitive_eq:
  "addPrimitive env c type s =
     (length (wrappers s),
      (selectObject (Some (length (wrappers s))) False
         (s\<lparr>undoStack := pushUndo (map (capture s) (objects s)) (undoStack s),
            scene := scene s @ [length (meshes s)],
            idCalls := Suc (idCalls s),
            wrappers := wrappers s @
               [\<lparr>obj_id = mkId (env (idCalls s)),
                 obj_name = fst (shapeEntry type) @ ''_'' @ showNat (objectCounter s),
                 obj_type = type, obj_mesh = length (meshes s)\<rparr>],
            meshes := meshes s @ [(primitiveMesh c type)\<lparr>objectId := mkId (env (idCalls s))\<rparr>]\<rparr>))
      \<lparr>objects := objects s @ [length (wrappers s)], objectCounter := objectCounter s + 1\<rparr>)"
  by (simp add: addPrimitive_def saveUndoState_def newMesh_def sceneAdd_def generateId_def
      newObj_def updMesh_def Let_def)


lemma addPrimitive_facts:
  assumes "addPrimitive env c type s = (w, s')"
  shows "w = length (wrappers s)"
    and "wrappers s' = wrappers s @
               [\<lparr>obj_id = mkId (env (idCalls s)),
                 obj_name = fst (shapeEntry type) @ ''_'' @ showNat (objectCounter s),
                 obj_type = type, obj_mesh = length (meshes s)\<rparr>]"
    and "objects s' = objects s @ [w]"
    and "undoStack s' = pushUndo (map (capture s) (objects s)) (undoStack s)"
    and "idCalls s' = Suc (idCalls s)"
    and "objectCounter s' = Suc (objectCounter s)"
    and "scene s' = scene s @ [length (meshes s)]"
    and "length (meshes s') = Suc (length (meshes s))"
    and "selectedObject s' = Some w" and "selectedObjects s' = [w]"
    and "attached s' = Some (length (meshes s))"
    and "meshes s' ! length (meshes s)
         = setEmissiveHex 0x333333 ((primitiveMesh c type)\<lparr>objectId := mkId (env (idCalls s))\<rparr>)"
proof -
  let ?t = "s\<lparr>undoStack := pushUndo (map (capture s) (objects s)) (undoStack s),
            scene := scene s @ [length (meshes s)],
            idCalls := Suc (idCalls s),
            wrappers := wrappers s @
               [\<lparr>obj_id = mkId (env (idCalls s)),
                 obj_name = fst (shapeEntry type) @ ''_'' @ showNat (objectCounter s),
                 obj_type = type, obj_mesh = length (meshes s)\<rparr>],
            meshes := meshes s @ [(primitiveMesh c type)\<lparr>objectId := mkId (env (idCalls s))\<rparr>]\<rparr>"
  from assms have w: "w = length (wrappers s)"
    and s': "s' = (selectObject (Some (length (wrappers s))) False ?t)
                    \<lparr>objects := objects s @ [length (wrappers s)], objectCounter := objectCounter s + 1\<rparr>"
    unfolding addPrimitive_eq by auto
  show "w = length (wrappers s)" by (rule w)
  show "wrappers s' = wrappers s @
               [\<lparr>obj_id = mkId (env (idCalls s)),
                 obj_name = fst (shapeEntry type) @ ''_'' @ showNat (objectCounter s),
                 obj_type = type, obj_mesh = length (meshes s)\<rparr>]"
    by (simp add: s')
  show "objects s' = objects s @ [w]" by (simp add: s' w)
  show "undoStack s' = pushUndo (map (capture s) (objects s)) (undoStack s)" by (simp add: s')
  show "idCalls s' = Suc (idCalls s)" by (simp add: s')
  show "objectCounter s' = Suc (objectCounter s)" by (simp add: s')
  show "scene s' = scene s @ [length (meshes s)]" by (simp add: s')
  show "length (meshes s') = Suc (length (meshes s))" by (simp add: s')
  show "selectedObject s' = Some w" by (simp add: s' w selectObject_plain)
  show "selectedObjects s' = [w]" by (simp add: s' w selectObject_plain)
  show "attached s' = Some (length (meshes s))" by (simp add: s' selectObject_plain)
  have "meshes (highlight 0x000000 (objects ?t) ?t) ! length (meshes s)
        = (if length (meshes s) \<in> (\<lambda>w. obj_mesh (theObj ?t w)) ` set (objects ?t)
              \<and> length (meshes s) < length (meshes ?t)
           then setEmissiveHex 0x000000 (meshes ?t ! length (meshes s))
           else meshes ?t ! length (meshes s))"
    using highlight_meshes [of "0x000000" "objects ?t" ?t "length (meshes s)"] by blast
  then show "meshes s' ! length (meshes s)
         = setEmissiveHex 0x333333 ((primitiveMesh c type)\<lparr>objectId := mkId (env (idCalls s))\<rparr>)"
    by (simp add: s' selectObject_plain nth_update_cases)
qed

lemma shapeEntry_unknown:
  "type \<notin> set (map fst shapeTable) \<Longrightarrow> shapeEntry type = (''Object'', Geom ''BoxGeometry'' [1, 1, 1])"
proof -
  assume "type \<notin> set (map fst shapeTable)"
  then have "map_of shapeTable type = None" by (simp add: map_of_eq_None_iff)
  then show ?thesis by (simp add: shapeEntry_def)
qed

text \<open>
  C6. For a \<open>type\<close> that is none of the case labels of the switch, \<open>addPrimitive\<close> takes
  the \<open>default\<close> branch: it returns a new object whose geometry is the 1 x 1 x 1 box, named
  \<open>Object_n\<close>, keeping the given type, appended to \<open>objects\<close>, with a visible mesh
  that is a child of the scene, selected and carrying the gizmo.
\<close>

theorem unknown_kind_gives_unit_cube:
  assumes "type \<notin> set (map fst shapeTable)"
  shows "let (w, s') = addPrimitive env c type s
         in geometry (theMesh s' w) = Geom ''BoxGeometry'' [1, 1, 1]
          \<and> objects s' = objects s @ [w]
          \<and> obj_type (theObj s' w) = type
          \<and> obj_name (theObj s' w) = ''Object_'' @ showNat (objectCounter s)
          \<and> obj_id (theObj s' w) = mkId (env (idCalls s))
          \<and> visible (theMesh s' w)
          \<and> obj_mesh (theObj s' w) \<in> set (scene s')
          \<and> selectedObject s' = Some w
          \<and> attached s' = Some (obj_mesh (theObj s' w))"
proof -
  obtain w s' where a: "addPrimitive env c type s = (w, s')" by (cases "addPrimitive env c type s")
  note f = addPrimitive_facts [OF a]
  have o: "theObj s' w = \<lparr>obj_id = mkId (env (idCalls s)),
                 obj_name = fst (shapeEntry type) @ ''_'' @ showNat (objectCounter s),
                 obj_type = type, obj_mesh = length (meshes s)\<rparr>"
    by (simp add: theObj_def f(1,2))
  have m: "theMesh s' w = setEmissiveHex 0x333333 ((primitiveMesh c type)\<lparr>objectId := mkId (env (idCalls s))\<rparr>)"
    using o f(12) by (simp add: theMesh_def theObj_def)
  have g: "geometry (primitiveMesh c type) = Geom ''BoxGeometry'' [1, 1, 1]"
    "visible (primitiveMesh c type)"
    by (simp_all add: primitiveMesh_def Let_def Mesh_def shapeEntry_unknown [OF assms])
  have "geometry (theMesh s' w) = Geom ''BoxGeometry'' [1, 1, 1]" by (simp add: m g)
  moreover have "objects s' = objects s @ [w]" by (rule f)
  moreover have "obj_type (theObj s' w) = type" by (simp add: o)
  moreover have "obj_name (theObj s' w) = ''Object_'' @ showNat (objectCounter s)"
    by (simp add: o shapeEntry_unknown [OF assms])
  moreover have "obj_id (theObj s' w) = mkId (env (idCalls s))" by (simp add: o)
  moreover have "visible (theMesh s' w)" by (simp add: m g)
  moreover have "obj_mesh (theObj s' w) \<in> set (scene s')" by (simp add: o f(7))
  moreover have "selectedObject s' = Some w" by (rule f)
  moreover have "attached s' = Some (obj_mesh (theObj s' w))" by (simp add: o f(11))
  ultimately show ?thesis unfolding a by simp
qed

lemma blob_unknown: "''blob'' \<notin> set (map fst shapeTable)"
  by (simp add: shapeTable_def)

theorem unknown_kind_gives_unit_cube_witness:
  "''blob'' \<notin> set (map fst shapeTable)
   \<and> (let (w, s') = addPrimitive env0 0x3366cc ''blob'' oneCube
         in geometry (theMesh s' w) = Geom ''BoxGeometry'' [1, 1, 1]
          \<and> objects s' = objects oneCube @ [w]
          \<and> obj_type (theObj s' w) = ''blob''
          \<and> obj_name (theObj s' w) = ''Object_'' @ showNat (objectCounter oneCube)
          \<and> obj_id (theObj s' w) = mkId (env0 (idCalls oneCube))
          \<and> visible (theMesh s' w)
          \<and> obj_mesh (theObj s' w) \<in> set (scene s')
          \<and> selectedObject s' = Some w
          \<and> attached s' = Some (obj_mesh (theObj s' w)))"
  by (intro conjI blob_unknown unknown_kind_gives_unit_cube [OF blob_unknown])

subsection \<open>Deleting the primary object of a multi-selection\<close>

lemma twoShapes_eval:
  "objects twoShapes = [0, 1]" "selectedObjects twoShapes = [1]"
  "selectedObject twoShapes = Some 1"
  "wrappers twoShapes =
     [\<lparr>obj_id = ''obj_1700_k3j9x2m1q'', obj_name = ''Cube_0'', obj_type = ''cube'', obj_mesh = 0\<rparr>,
      \<lparr>obj_id = ''obj_1701_k3j9x2m1q'', obj_name = ''Sphere_1'', obj_type = ''sphere'', obj_mesh = 1\<rparr>]"
  "length (meshes twoShapes) = 2"
proof -
  obtain w s' where a: "addPrimitive env0 0xcc6633 ''sphere'' oneCube = (w, s')"
    by (cases "addPrimitive env0 0xcc6633 ''sphere'' oneCube")
  then have t: "twoShapes = s'" by (simp add: twoShapes_def)
  note f = addPrimitive_facts [OF a]
  have w: "w = 1" using f(1) by (simp add: oneCube_eval)
  have e: "shapeEntry ''sphere'' = (''Sphere'', Geom ''SphereGeometry'' [5 / 10, 32, 32])"
    by (simp add: shapeEntry_def shapeTable_def)
  show "objects twoShapes = [0, 1]" using f(3) by (simp add: t w oneCube_eval)
  show "selectedObjects twoShapes = [1]" using f(10) by (simp add: t w)
  show "selectedObject twoShapes = Some 1" using f(9) by (simp add: t w)
  show "wrappers twoShapes =
     [\<lparr>obj_id = ''obj_1700_k3j9x2m1q'', obj_name = ''Cube_0'', obj_type = ''cube'', obj_mesh = 0\<rparr>,
      \<lparr>obj_id = ''obj_1701_k3j9x2m1q'', obj_name = ''Sphere_1'', obj_type = ''sphere'', obj_mesh = 1\<rparr>]"
    using f(2) by (simp add: t oneCube_eval e mkId_def env0_def showNat.simps digitChar_def)
  show "length (meshes twoShapes) = 2" using f(8) by (simp add: t oneCube_eval)
qed

lemma bothSelected_eval:
  "objects bothSelected = [0, 1]" "selectedObjects bothSelected = [1, 0]"
  "selectedObject bothSelected = Some 0" "attached bothSelected = Some 0"
  "wrappers bothSelected = wrappers twoShapes"
  by (simp_all add: bothSelected_def selectObject_def Let_def twoShapes_eval theObj_def)

text \<open>
  C2. The selection invariant holds in \<open>bothSelected\<close> (two members, the primary among
  them, the gizmo attached) and is broken by \<open>deleteObject(selectedObject)\<close>, the delete
  button of the properties panel: the sphere stays in \<open>selectedObjects\<close>, while
  \<open>selectedObject\<close> is \<open>null\<close> and the gizmo is detached.
\<close>

theorem deleting_primary_detaches_gizmo_from_selection:
  "selectedObjects bothSelected = [1, 0] \<and> selectedObject bothSelected = Some 0
   \<and> attached bothSelected = Some 0
   \<and> objects (deleteObject (selectedObject bothSelected) bothSelected) = [1]
   \<and> selectedObjects (deleteObject (selectedObject bothSelected) bothSelected) = [1]
   \<and> selectedObject (deleteObject (selectedObject bothSelected) bothSelected) = None
   \<and> attached (deleteObject (selectedObject bothSelected) bothSelected) = None"
  by (simp add: bothSelected_eval deleteObject_def saveUndoState_def sceneRemove_def Let_def
      twoShapes_eval theObj_def)

subsection \<open>Undo after a snapshot and one mutation\<close>

lemma saveUndoState_fields [simp]:
  "objects (saveUndoState s) = objects s" "wrappers (saveUndoState s) = wrappers s"
  "meshes (saveUndoState s) = meshes s"
  "undoStack (saveUndoState s) = pushUndo (map (capture s) (objects s)) (undoStack s)"
  by (simp_all add: saveUndoState_def)

lemma capture_saveUndoState [simp]: "capture (saveUndoState s) = capture s"
  by (rule ext, rule capture_cong) simp_all

lemma undoStack_updateObjectProperty [simp]:
  "undoStack (updateObjectProperty property v s) = undoStack s"
  by (simp add: updateObjectProperty_def updMesh_def newObj_def Let_def
      split: option.split jsval.split)

lemma undoStack_toggleVisibility [simp]: "undoStack (toggleVisibility ob s) = undoStack s"
  by (simp add: toggleVisibility_def updMesh_def split: option.split)

lemma undoStack_deleteObject:
  "undoStack (deleteObject ob s)
     = (case ob of None \<Rightarrow> undoStack s
        | Some x \<Rightarrow> pushUndo (map (capture s) (objects s)) (undoStack s))"
  by (simp add: deleteObject_def Let_def sceneRemove_def split: option.split)

lemma undoStack_addPrimitive:
  "undoStack (snd (addPrimitive env c type s)) = pushUndo (map (capture s) (objects s)) (undoStack s)"
  using addPrimitive_facts(4) [of env c type s] by (cases "addPrimitive env c type s") simp

lemma top_after_mutation:
  "undoStack (applyMutation env m (saveUndoState s)) \<noteq> []
   \<and> last (undoStack (applyMutation env m (saveUndoState s))) = map (capture s) (objects s)"
proof (cases m)
  case (Edit p v)
  then show ?thesis by (simp add: pushUndo_not_Nil last_pushUndo)
next
  case (ToggleVisible ob)
  then show ?thesis by (simp add: pushUndo_not_Nil last_pushUndo)
next
  case (Add c t)
  then show ?thesis by (simp add: undoStack_addPrimitive pushUndo_not_Nil last_pushUndo)
next
  case (Delete ob)
  then show ?thesis
    by (cases ob) (simp_all add: undoStack_deleteObject pushUndo_not_Nil last_pushUndo)
qed

lemma rehydrateAll_meshes:
  "rehydrateAll svs s = (ws, s') \<Longrightarrow> map (theMesh s') ws = map restoredMesh svs"
proof (induction svs arbitrary: s ws s')
  case Nil
  then show ?case by simp
next
  case (Cons sv svs)
  obtain w s1 where r: "rehydrate sv s = (w, s1)" by (cases "rehydrate sv s")
  obtain ws2 s2 where ra: "rehydrateAll svs s1 = (ws2, s2)" by (cases "rehydrateAll svs s1")
  from Cons.prems r ra have e: "ws = w # ws2" "s' = s2" by simp_all
  from r have w: "w = length (wrappers s)"
    and ws1: "wrappers s1 = wrappers s @ [\<lparr>obj_id = sv_id sv, obj_name = sv_name sv,
                                  obj_type = sv_type sv, obj_mesh = length (meshes s)\<rparr>]"
    and ms1: "meshes s1 = meshes s @ [restoredMesh sv]"
    by (auto simp: rehydrate_eq)
  from rehydrateAll_frame [OF ra] obtain a b where
    ab: "wrappers s2 = wrappers s1 @ a" "meshes s2 = meshes s1 @ b" by blast
  have "theMesh s2 w = restoredMesh sv"
    by (simp add: theMesh_def ab ws1 ms1 w nth_append)
  with Cons.IH [OF ra] show ?case by (simp add: e)
qed

lemma undo_meshes:
  assumes "undoStack s \<noteq> []"
  shows "map (theMesh (undo s)) (objects (undo s)) = map restoredMesh (last (undoStack s))"
proof -
  let ?s1 = "s\<lparr>undoStack := butlast (undoStack s)\<rparr>"
  obtain sc where sc: "foldl (\<lambda>t x. sceneRemove (obj_mesh (theObj t x)) t) ?s1 (objects ?s1) = ?s1\<lparr>scene := sc\<rparr>"
    using sceneRemove_fold by blast
  obtain ws s3 where ra: "rehydrateAll (last (undoStack s)) (?s1\<lparr>scene := sc\<rparr>) = (ws, s3)"
    by (cases "rehydrateAll (last (undoStack s)) (?s1\<lparr>scene := sc\<rparr>)")
  have ne: "(length (undoStack s) = 0) = False" using assms by simp
  have u: "undo s = s3\<lparr>objects := ws, selectedObject := None, attached := None\<rparr>"
    by (simp only: undo_def Let_def ne if_False sc ra prod.case)
  have "theMesh (undo s) w = theMesh s3 w" for w
    by (simp add: theMesh_def u)
  then have "map (theMesh (undo s)) ws = map (theMesh s3) ws" by simp
  with rehydrateAll_meshes [OF ra] show ?thesis by (simp add: u)
qed

lemma restoredMesh_defaults:
  "opacity (material (restoredMesh sv)) = Num 1" "emissive (material (restoredMesh sv)) = 0x000000"
  "wireframe (material (restoredMesh sv)) = False"
  by (simp_all add: restoredMesh_def Mesh_def MeshStandardMaterial_def)

lemma undo_after_mutation:
  "map (capture (undo (applyMutation env m (saveUndoState s))))
       (objects (undo (applyMutation env m (saveUndoState s)))) = map (capture s) (objects s)"
  "map (theMesh (undo (applyMutation env m (saveUndoState s))))
       (objects (undo (applyMutation env m (saveUndoState s))))
     = map restoredMesh (map (capture s) (objects s))"
proof -
  let ?u = "applyMutation env m (saveUndoState s)"
  from top_after_mutation [of env m s]
  have ne: "undoStack ?u \<noteq> []" and top: "last (undoStack ?u) = map (capture s) (objects s)"
    by simp_all
  show "map (capture (undo ?u)) (objects (undo ?u)) = map (capture s) (objects s)"
    using undo_capture(1) [OF ne] top by simp
  show "map (theMesh (undo ?u)) (objects (undo ?u)) = map restoredMesh (map (capture s) (objects s))"
    using undo_meshes [OF ne] top by simp
qed

lemma material_of_restored:
  "map (\<lambda>w. (opacity (material (theMesh t w)), emissive (material (theMesh t w)),
              wireframe (material (theMesh t w)))) ws
   = map (\<lambda>me. (opacity (material me), emissive (material me), wireframe (material me)))
       (map (theMesh t) ws)"
  by (simp add: comp_def)

text \<open>
  C1, as the code has it. A snapshot, then one mutation (a property edit, a visibility
  toggle, an added primitive or a deleted object), then \<open>undo\<close>: the object list is
  rebuilt from the snapshot, so the live objects are the same in number and order, and
  each has the id, name, shape kind, position, rotation, scale, colour, metalness,
  roughness and visibility it had before the mutation (the ten fields \<open>capture\<close>
  copies). Opacity, emissive colour and wireframe are not part of a snapshot: the rebuilt
  material has them at the defaults 1, black and false.
\<close>

theorem undo_restores_captured_fields:
  "let s' = undo (applyMutation env m (saveUndoState s))
   in map (capture s') (objects s') = map (capture s) (objects s)
    \<and> map (\<lambda>w. (opacity (material (theMesh s' w)), emissive (material (theMesh s' w)),
                  wireframe (material (theMesh s' w)))) (objects s')
        = replicate (length (objects s)) (Num 1, 0x000000, False)"
proof -
  let ?s' = "undo (applyMutation env m (saveUndoState s))"
  have "map (\<lambda>w. (opacity (material (theMesh ?s' w)), emissive (material (theMesh ?s' w)),
                  wireframe (material (theMesh ?s' w)))) (objects ?s')
        = replicate (length (objects s)) (Num 1, 0x000000, False)"
    unfolding material_of_restored undo_after_mutation(2)
    by (simp add: comp_def restoredMesh_defaults map_replicate_const)
  with undo_after_mutation(1) [of env m s] show ?thesis unfolding Let_def by blast
qed

lemma styledCube_eval:
  "objects styledCube = [0]"
  "opacity (material (theMesh styledCube 0)) = Num (1 / 2)"
  "emissive (material (theMesh styledCube 0)) = 0xff0000"
  "wireframe (material (theMesh styledCube 0)) = True"
  by (simp_all add: styledCube_def redCube_def oneCube_eval updateObjectProperty_def updMesh_def
      newObj_def theObj_def theMesh_def editMesh_def colorSet_def setStyle_def isHexDigit_def
      hexVal_def isDigit_def parseFloat_def parseFloatStr_def parseUnsigned_def isWhiteSpace_def
      digitsVal_def digitVal_def pow10_def parseExponent_def lessThanOne_def)

theorem undo_resets_opacity_emissive_wireframe:
  "(let s = styledCube;
        s' = undo (applyMutation env0 (Edit ''positionX'' (Str ''2'')) (saveUndoState s))
    in map (\<lambda>w. (opacity (material (theMesh s w)), emissive (material (theMesh s w)),
                   wireframe (material (theMesh s w)))) (objects s)
         = [(Num (1 / 2), 0xff0000, True)]
     \<and> map (\<lambda>w. (opacity (material (theMesh s' w)), emissive (material (theMesh s' w)),
                   wireframe (material (theMesh s' w)))) (objects s')
         = [(Num 1, 0x000000, False)])"
proof -
  let ?s' = "undo (applyMutation env0 (Edit ''positionX'' (Str ''2'')) (saveUndoState styledCube))"
  have a: "map (\<lambda>w. (opacity (material (theMesh styledCube w)), emissive (material (theMesh styledCube w)),
                   wireframe (material (theMesh styledCube w)))) (objects styledCube)
         = [(Num (1 / 2), 0xff0000, True)]"
    by (simp add: styledCube_eval)
  have b: "map (\<lambda>w. (opacity (material (theMesh ?s' w)), emissive (material (theMesh ?s' w)),
                  wireframe (material (theMesh ?s' w)))) (objects ?s')
        = [(Num 1, 0x000000, False)]"
    unfolding material_of_restored undo_after_mutation(2)
    by (simp add: styledCube_eval restoredMesh_defaults)
  from a b show ?thesis unfolding Let_def by blast
qed

subsection \<open>Object ids\<close>

lemma digitChar_inj: "a < 10 \<Longrightarrow> b < 10 \<Longrightarrow> digitChar a = digitChar b \<Longrightarrow> a = b"
proof -
  assume a: "a < 10" and b: "b < 10" and e: "digitChar a = digitChar b"
  have d: "distinct ''0123456789''" by simp
  have "(''0123456789'' ! a = ''0123456789'' ! b) = (a = b)"
    using a b by (intro nth_eq_iff_index_eq [OF d]) simp_all
  with e show "a = b" by (simp add: digitChar_def)
qed

lemma digitChar_digit: "d < 10 \<Longrightarrow> digitChar d \<in> set ''0123456789''"
  unfolding digitChar_def by (rule nth_mem) simp

lemma showNat_digits: "set (showNat n) \<subseteq> set ''0123456789''"
proof (induction n rule: showNat.induct)
  case (1 n)
  show ?case
  proof (cases "n < 10")
    case True
    then show ?thesis using digitChar_digit [of n] by (subst showNat.simps) simp
  next
    case False
    have "n mod 10 < 10" by simp
    from digitChar_digit [OF this] "1" [OF False] False show ?thesis
      by (subst showNat.simps) simp
  qed
qed

lemma showNat_not_Nil: "showNat n \<noteq> []"
  by (subst showNat.simps) simp

lemma showNat_inj: "showNat a = showNat b \<Longrightarrow> a = b"
proof (induction a arbitrary: b rule: showNat.induct)
  case (1 a)
  show ?case
  proof (cases "a < 10")
    case True
    show ?thesis
    proof (cases "b < 10")
      case b: True
      from "1.prems" True b have "digitChar a = digitChar b"
        by (simp add: showNat.simps [of a] showNat.simps [of b])
      with True b show ?thesis by (rule digitChar_inj)
    next
      case b: False
      from "1.prems" True b have "[digitChar a] = showNat (b div 10) @ [digitChar (b mod 10)]"
        by (simp add: showNat.simps [of a] showNat.simps [of b])
      then have "showNat (b div 10) = []" by simp
      with showNat_not_Nil show ?thesis by blast
    qed
  next
    case False
    show ?thesis
    proof (cases "b < 10")
      case b: True
      from "1.prems" False b have "showNat (a div 10) @ [digitChar (a mod 10)] = [digitChar b]"
        by (simp add: showNat.simps [of a] showNat.simps [of b])
      then have "showNat (a div 10) = []" by simp
      with showNat_not_Nil show ?thesis by blast
    next
      case b: False
      from "1.prems" False b
      have "showNat (a div 10) @ [digitChar (a mod 10)] = showNat (b div 10) @ [digitChar (b mod 10)]"
        by (simp add: showNat.simps [of a] showNat.simps [of b])
      then have e: "showNat (a div 10) = showNat (b div 10)"
        and d: "digitChar (a mod 10) = digitChar (b mod 10)" by simp_all
      from "1.IH" [OF False e] have q: "a div 10 = b div 10" .
      have m: "a mod 10 = b mod 10" by (rule digitChar_inj [OF _ _ d]) simp_all
      have "a = a div 10 * 10 + a mod 10" "b = b div 10 * 10 + b mod 10" by simp_all
      with q m show ?thesis by simp
    qed
  qed
qed

lemma split_at_separator:
  "x \<notin> set xs \<Longrightarrow> x \<notin> set ys \<Longrightarrow> xs @ x # r = ys @ x # r' \<Longrightarrow> xs = ys \<and> r = r'"
proof (induction xs arbitrary: ys)
  case Nil
  then show ?case by (cases ys) auto
next
  case (Cons a xs)
  show ?case
  proof (cases ys)
    case Nil
    with Cons.prems show ?thesis by auto
  next
    case (Cons b ys')
    with Cons.prems Cons.IH [of ys'] show ?thesis by auto
  qed
qed

lemma mkId_inj: "mkId d = mkId e \<Longrightarrow> d = e"
proof -
  assume "mkId d = mkId e"
  then have a: "showNat (fst d) @ CHR ''_'' # snd d = showNat (fst e) @ CHR ''_'' # snd e"
    by (simp add: mkId_def)
  have "CHR ''_'' \<notin> set ''0123456789''" by simp
  then have n: "CHR ''_'' \<notin> set (showNat k)" for k
    using showNat_digits [of k] by blast
  from split_at_separator [OF n n a]
  have "showNat (fst d) = showNat (fst e) \<and> snd d = snd e" .
  then have "fst d = fst e" and "snd d = snd e" using showNat_inj by blast+
  then show "d = e" by (rule prod_eqI)
qed


lemma extends_same:
  assumes "objects s' = filter P (objects s)" and "idCalls s \<le> idCalls s'"
    and "length (wrappers s) \<le> length (wrappers s')"
    and "\<And>w. w < length (wrappers s) \<Longrightarrow> obj_id (wrappers s' ! w) = obj_id (wrappers s ! w)"
  shows "extends env s s'"
  unfolding extends_def
  by (rule exI [of _ P], rule exI [of _ 0]) (simp add: assms)

lemma extends_new:
  assumes "objects s' = objects s @ map (\<lambda>i. length (wrappers s) + i) [0..<length ws]"
    and "idCalls s' = idCalls s + length ws"
    and "wrappers s' = wrappers s @ ws"
    and "map obj_id ws = map (\<lambda>i. mkId (env (idCalls s + i))) [0..<length ws]"
  shows "extends env s s'"
proof -
  have a: "objects s' = filter (\<lambda>_. True) (objects s) @ map (\<lambda>i. length (wrappers s) + i) [0..<length ws]"
    by (simp add: assms(1))
  have "map (\<lambda>i. obj_id (wrappers s' ! (length (wrappers s) + i))) [0..<length ws] = map obj_id ws"
    by (rule nth_equalityI) (simp_all add: assms(3))
  then have b: "map (\<lambda>i. obj_id (wrappers s' ! (length (wrappers s) + i))) [0..<length ws]
                = map (\<lambda>i. mkId (env (idCalls s + i))) [0..<length ws]"
    by (simp only: assms(4))
  have c: "length (wrappers s) + length ws \<le> length (wrappers s')" by (simp add: assms(3))
  have d: "\<forall>w<length (wrappers s). obj_id (wrappers s' ! w) = obj_id (wrappers s ! w)"
    by (simp add: assms(3) nth_append)
  have e: "idCalls s + length ws \<le> idCalls s'" by (simp add: assms(2))
  from a e c d b show ?thesis unfolding extends_def by blast
qed

lemma more_saveUndoState_fields [simp]:
  "idCalls (saveUndoState s) = idCalls s" "selectedObjects (saveUndoState s) = selectedObjects s"
  "selectedObject (saveUndoState s) = selectedObject s" "scene (saveUndoState s) = scene s"
  "objectCounter (saveUndoState s) = objectCounter s" "alerts (saveUndoState s) = alerts s"
  "attached (saveUndoState s) = attached s" "theObj (saveUndoState s) = theObj s"
  by (simp_all add: saveUndoState_def)

lemma extends_select: "extends env s (selectObject ob a s)"
  by (rule extends_same [where P = "\<lambda>_. True"]) simp_all

lemma extends_selectAll: "extends env s (selectAllObjects s)"
  by (rule extends_same [where P = "\<lambda>_. True"]) (simp_all add: selectAllObjects_def Let_def)

lemma extends_toggleVisibility: "extends env s (toggleVisibility ob s)"
  by (rule extends_same [where P = "\<lambda>_. True"])
     (simp_all add: toggleVisibility_def updMesh_def split: option.split)

lemma extends_update: "extends env s (updateObjectProperty property v s)"
proof (rule extends_same [where P = "\<lambda>_. True"])
  show "objects (updateObjectProperty property v s) = filter (\<lambda>_. True) (objects s)"
    by (simp add: updateObjectProperty_def updMesh_def newObj_def Let_def
        split: option.split jsval.split)
  show "idCalls s \<le> idCalls (updateObjectProperty property v s)"
    by (simp add: updateObjectProperty_def updMesh_def newObj_def Let_def
        split: option.split jsval.split)
  show "length (wrappers s) \<le> length (wrappers (updateObjectProperty property v s))"
    by (simp add: updateObjectProperty_def updMesh_def newObj_def Let_def
        split: option.split jsval.split)
  show "obj_id (wrappers (updateObjectProperty property v s) ! w) = obj_id (wrappers s ! w)"
    if "w < length (wrappers s)" for w
    using that
    by (simp add: updateObjectProperty_def updMesh_def newObj_def Let_def theObj_def
        nth_append nth_update_cases split: option.split jsval.split)
qed

lemma extends_delete: "extends env s (deleteObject ob s)"
proof (cases ob)
  case None
  show ?thesis unfolding None
    by (rule extends_same [where P = "\<lambda>_. True"]) (simp_all add: deleteObject_def)
next
  case (Some x)
  show ?thesis unfolding Some
    by (rule extends_same [where P = "\<lambda>w. obj_id (theObj s w) \<noteq> obj_id (theObj s x)"])
       (simp_all add: deleteObject_def Let_def sceneRemove_def)
qed

lemma sceneRemove_fold_fields:
  "objects (foldl (\<lambda>t x. sceneRemove (obj_mesh (theObj t x)) t) s xs) = objects s"
  "wrappers (foldl (\<lambda>t x. sceneRemove (obj_mesh (theObj t x)) t) s xs) = wrappers s"
  "idCalls (foldl (\<lambda>t x. sceneRemove (obj_mesh (theObj t x)) t) s xs) = idCalls s"
  "selectedObjects (foldl (\<lambda>t x. sceneRemove (obj_mesh (theObj t x)) t) s xs) = selectedObjects s"
  "undoStack (foldl (\<lambda>t x. sceneRemove (obj_mesh (theObj t x)) t) s xs) = undoStack s"
  "meshes (foldl (\<lambda>t x. sceneRemove (obj_mesh (theObj t x)) t) s xs) = meshes s"
  using sceneRemove_fold [of s xs] by auto

lemma theObj_sceneRemove_fold [simp]:
  "theObj (foldl (\<lambda>t x. sceneRemove (obj_mesh (theObj t x)) t) s xs) = theObj s"
proof
  fix w
  have "theObj (foldl (\<lambda>t x. sceneRemove (obj_mesh (theObj t x)) t) s xs) w
        = wrappers (foldl (\<lambda>t x. sceneRemove (obj_mesh (theObj t x)) t) s xs) ! w"
    by (rule theObj_def)
  also have "\<dots> = wrappers s ! w" by (simp only: sceneRemove_fold_fields)
  also have "\<dots> = theObj s w" by (simp only: theObj_def)
  finally show "theObj (foldl (\<lambda>t x. sceneRemove (obj_mesh (theObj t x)) t) s xs) w = theObj s w" .
qed

lemma extends_deleteSelected: "extends env s (deleteSelectedObjects s)"
proof (cases "length (selectedObjects s) = 0")
  case True
  then show ?thesis
    by (intro extends_same [where P = "\<lambda>_. True"]) (simp_all add: deleteSelectedObjects_def)
next
  case False
  then show ?thesis
    by (intro extends_same [where P = "\<lambda>w. find (\<lambda>sel. obj_id (theObj s sel) = obj_id (theObj s w))
                                   (selectedObjects s) = None"])
       (simp_all add: deleteSelectedObjects_def Let_def sceneRemove_fold_fields)
qed

lemma extends_clear: "extends env s (clearScene c s)"
proof (cases c)
  case False
  then show ?thesis
    by (intro extends_same [where P = "\<lambda>_. True"]) (simp_all add: clearScene_def)
next
  case True
  then show ?thesis
    by (intro extends_same [where P = "\<lambda>_. False"])
       (simp_all add: clearScene_def Let_def sceneRemove_fold_fields)
qed

lemma extends_add: "extends env s (snd (addPrimitive env c type s))"
proof -
  obtain w s' where a: "addPrimitive env c type s = (w, s')" by (cases "addPrimitive env c type s")
  note f = addPrimitive_facts [OF a]
  show ?thesis unfolding a snd_conv
    by (rule extends_new [where ws = "[\<lparr>obj_id = mkId (env (idCalls s)),
                 obj_name = fst (shapeEntry type) @ ''_'' @ showNat (objectCounter s),
                 obj_type = type, obj_mesh = length (meshes s)\<rparr>]"])
       (simp_all add: f)
qed


lemma extends_duplicate: "extends env s (duplicateObject env ob s)"
proof (cases ob)
  case None
  show ?thesis unfolding None
    by (rule extends_same [where P = "\<lambda>_. True"]) (simp_all add: duplicateObject_def)
next
  case (Some x)
  let ?W = "\<lparr>obj_id = mkId (env (idCalls s)), obj_name = obj_name (theObj s x) @ ''_copy'',
             obj_type = obj_type (theObj s x), obj_mesh = length (meshes s)\<rparr>"
  show ?thesis unfolding Some
    by (rule extends_new [where ws = "[?W]"])
       (simp_all add: duplicateObject_def Let_def newMesh_def sceneAdd_def generateId_def
          newObj_def updMesh_def)
qed

lemma importNode_eq:
  "importNode env c child s =
     (if isMesh child then
        (case node_material child of
           None \<Rightarrow> (None, s)
         | Some mat \<Rightarrow>
            (Some [length (wrappers s)],
             s\<lparr>meshes := meshes s @
                   [(node_mesh child)\<lparr>material :=
                       (case mat of
                          Standard m \<Rightarrow> m
                        | Other c \<Rightarrow>
                            MeshStandardMaterial
                              \<lparr>color := (case c of Some h \<Rightarrow> h | None \<Rightarrow> 0x888888),
                               metalness := toDouble (3 / 10), roughness := toDouble (7 / 10)\<rparr>),
                      objectId := mkId (env (idCalls s))\<rparr>],
               scene := scene s @ [length (meshes s)],
               idCalls := Suc (idCalls s),
               wrappers := wrappers s @
                 [\<lparr>obj_id = mkId (env (idCalls s)),
                   obj_name = (if node_name child \<noteq> [] then node_name child
                               else ''Imported_'' @ showNat c),
                   obj_type = ''imported'', obj_mesh = length (meshes s)\<rparr>]\<rparr>))
      else (Some [], s))"
  by (simp add: importNode_def Let_def newMesh_def sceneAdd_def generateId_def newObj_def
      updMesh_def split: option.split)

lemma importNode_cases:
  obtains (skip) "\<not> isMesh child" "importNode env c child s = (Some [], s)"
  | (raise) "raises child" "importNode env c child s = (None, s)"
  | (add) s1 W where "isMesh child" "\<not> raises child"
      "importNode env c child s = (Some [length (wrappers s)], s1)"
      "wrappers s1 = wrappers s @ [W]" "obj_id W = mkId (env (idCalls s))"
      "obj_type W = ''imported''" "idCalls s1 = Suc (idCalls s)"
      "objects s1 = objects s" "undoStack s1 = undoStack s" "alerts s1 = alerts s"
      "objectCounter s1 = objectCounter s" "selectedObject s1 = selectedObject s"
proof (cases "isMesh child")
  case False
  then show ?thesis by (intro skip) (simp_all add: importNode_eq)
next
  case True
  show ?thesis
  proof (cases "node_material child")
    case None
    with True show ?thesis by (intro raise) (simp_all add: importNode_eq raises_def)
  next
    case (Some mat)
    with True show ?thesis
      by (intro add [of "snd (importNode env c child s)"
            "\<lparr>obj_id = mkId (env (idCalls s)),
              obj_name = (if node_name child \<noteq> [] then node_name child
                          else ''Imported_'' @ showNat c),
              obj_type = ''imported'', obj_mesh = length (meshes s)\<rparr>"])
         (simp_all add: importNode_eq raises_def)
  qed
qed

text \<open>Whatever the traversal meets, it only allocates: the registry is not touched.\<close>

lemma importNodes_frame:
  "importNodes env c nodes s = (r, s') \<Longrightarrow>
     (\<exists>Ws. wrappers s' = wrappers s @ Ws)
     \<and> idCalls s \<le> idCalls s'
     \<and> objects s' = objects s \<and> undoStack s' = undoStack s \<and> alerts s' = alerts s
     \<and> objectCounter s' = objectCounter s \<and> selectedObject s' = selectedObject s"
proof (induction nodes arbitrary: s r s')
  case Nil
  then show ?case by simp
next
  case (Cons child rest)
  show ?case
  proof (cases rule: importNode_cases [of child env c s])
    case skip
    with Cons.prems have "importNodes env c rest s = (r, s')"
      by (simp split: prod.splits option.splits)
    from Cons.IH [OF this] show ?thesis .
  next
    case raise
    with Cons.prems have "s' = s" by simp
    then show ?thesis by simp
  next
    case (add s1 W)
    obtain r2 s2 where r2: "importNodes env c rest s1 = (r2, s2)"
      by (cases "importNodes env c rest s1")
    with Cons.prems add(3) have "s' = s2"
      by (simp split: option.splits)
    with Cons.IH [OF r2] add show ?thesis by auto
  qed
qed

lemma importNodes_raises:
  "list_ex raises nodes \<Longrightarrow> fst (importNodes env c nodes s) = None"
proof (induction nodes arbitrary: s)
  case Nil
  then show ?case by simp
next
  case (Cons child rest)
  show ?case
  proof (cases rule: importNode_cases [of child env c s])
    case skip
    then have "\<not> raises child" by (simp add: raises_def)
    with Cons.prems have "list_ex raises rest" by simp
    from Cons.IH [OF this, where s = s] skip show ?thesis
      by (auto split: prod.splits option.splits)
  next
    case raise
    then show ?thesis by simp
  next
    case (add s1 W)
    with Cons.prems have "list_ex raises rest" by simp
    from Cons.IH [OF this, where s = s1] add(3) show ?thesis
      by (auto split: prod.splits option.splits)
  qed
qed

lemma importNodes_facts:
  "\<not> list_ex raises nodes \<Longrightarrow>
     \<exists>Ws s'. importNodes env c nodes s
                = (Some (map (\<lambda>i. length (wrappers s) + i) [0..<length Ws]), s')
        \<and> wrappers s' = wrappers s @ Ws
        \<and> length Ws = length (filter isMesh nodes)
        \<and> map obj_id Ws = map (\<lambda>i. mkId (env (idCalls s + i))) [0..<length Ws]
        \<and> map obj_type Ws = replicate (length Ws) ''imported''
        \<and> idCalls s' = idCalls s + length Ws
        \<and> objects s' = objects s \<and> undoStack s' = undoStack s \<and> alerts s' = alerts s
        \<and> objectCounter s' = objectCounter s"
proof (induction nodes arbitrary: s)
  case Nil
  show ?case by (rule exI [of _ "[]"]) simp
next
  case (Cons child rest)
  from Cons.prems have nr: "\<not> list_ex raises rest" and nc: "\<not> raises child" by simp_all
  show ?case
  proof (cases rule: importNode_cases [of child env c s])
    case skip
    from Cons.IH [OF nr, where s = s] obtain Ws s' where
      ih: "importNodes env c rest s = (Some (map (\<lambda>i. length (wrappers s) + i) [0..<length Ws]), s')"
        "wrappers s' = wrappers s @ Ws" "length Ws = length (filter isMesh rest)"
        "map obj_id Ws = map (\<lambda>i. mkId (env (idCalls s + i))) [0..<length Ws]"
        "map obj_type Ws = replicate (length Ws) ''imported''"
        "idCalls s' = idCalls s + length Ws"
        "objects s' = objects s" "undoStack s' = undoStack s" "alerts s' = alerts s"
        "objectCounter s' = objectCounter s"
      by blast
    have "importNodes env c (child # rest) s
          = (Some (map (\<lambda>i. length (wrappers s) + i) [0..<length Ws]), s')"
      by (simp add: skip(2) ih(1))
    with ih skip(1) show ?thesis by auto
  next
    case raise
    with nc show ?thesis by simp
  next
    case (add s1 W)
    from Cons.IH [OF nr, where s = s1] obtain Ws s' where
      ih: "importNodes env c rest s1 = (Some (map (\<lambda>i. length (wrappers s1) + i) [0..<length Ws]), s')"
        "wrappers s' = wrappers s1 @ Ws" "length Ws = length (filter isMesh rest)"
        "map obj_id Ws = map (\<lambda>i. mkId (env (idCalls s1 + i))) [0..<length Ws]"
        "map obj_type Ws = replicate (length Ws) ''imported''"
        "idCalls s' = idCalls s1 + length Ws"
        "objects s' = objects s1" "undoStack s' = undoStack s1" "alerts s' = alerts s1"
        "objectCounter s' = objectCounter s1"
      by blast
    have a: "importNodes env c (child # rest) s
             = (Some (map (\<lambda>i. length (wrappers s) + i) [0..<length (W # Ws)]), s')"
      by (simp add: add(3,4) ih(1) map_upt_Suc del: upt_Suc)
    have b: "wrappers s' = wrappers s @ (W # Ws)" by (simp add: ih(2) add(4))
    have l: "length (W # Ws) = length (filter isMesh (child # rest))"
      by (simp add: add(1) ih(3))
    have d: "map obj_id (W # Ws) = map (\<lambda>i. mkId (env (idCalls s + i))) [0..<length (W # Ws)]"
      by (simp add: ih(4) add(5,7) map_upt_Suc del: upt_Suc)
    have f: "map obj_type (W # Ws) = replicate (length (W # Ws)) ''imported''"
      by (simp add: ih(5) add(6))
    have g: "idCalls s' = idCalls s + length (W # Ws)" by (simp add: ih(6) add(7))
    have o: "objects s' = objects s" "undoStack s' = undoStack s" "alerts s' = alerts s"
      "objectCounter s' = objectCounter s"
      by (simp_all add: ih(7-10) add(8-11))
    from a b l d f g o show ?thesis
      by (intro exI [of _ "W # Ws"] exI [of _ s'] conjI)
  qed
qed

lemma importModel_parsed:
  assumes "\<not> list_ex raises nodes"
  shows "\<exists>Ws. wrappers (importModel env (Some (Parsed nodes p)) s) = wrappers s @ Ws
      \<and> length Ws = length (filter isMesh nodes)
      \<and> objects (importModel env (Some (Parsed nodes p)) s)
          = objects s @ map (\<lambda>i. length (wrappers s) + i) [0..<length Ws]
      \<and> map obj_id Ws = map (\<lambda>i. mkId (env (idCalls s + i))) [0..<length Ws]
      \<and> map obj_type Ws = replicate (length Ws) ''imported''
      \<and> idCalls (importModel env (Some (Parsed nodes p)) s) = idCalls s + length Ws
      \<and> alerts (importModel env (Some (Parsed nodes p)) s) = alerts s
      \<and> objectCounter (importModel env (Some (Parsed nodes p)) s) = objectCounter s + length Ws"
proof -
  from importNodes_facts [OF assms, where env = env and c = "objectCounter s"
                            and s = "saveUndoState s"]
  obtain Ws s2 where
    r: "importNodes env (objectCounter s) nodes (saveUndoState s)
        = (Some (map (\<lambda>i. length (wrappers s) + i) [0..<length Ws]), s2)"
    and f: "wrappers s2 = wrappers s @ Ws" "length Ws = length (filter isMesh nodes)"
      "map obj_id Ws = map (\<lambda>i. mkId (env (idCalls s + i))) [0..<length Ws]"
      "map obj_type Ws = replicate (length Ws) ''imported''"
    and g: "idCalls s2 = idCalls s + length Ws" "objects s2 = objects s"
      "alerts s2 = alerts s" "objectCounter s2 = objectCounter s"
    by (auto simp: saveUndoState_def)
  define ws where "ws = map (\<lambda>i. length (wrappers s) + i) [0..<length Ws]"
  have lw: "length ws = length Ws" by (simp add: ws_def)
  have m: "importModel env (Some (Parsed nodes p)) s
           = (if length ws > 0 then selectObject (Some (hd ws)) False s2 else s2)
               \<lparr>objects := objects (if length ws > 0 then selectObject (Some (hd ws)) False s2 else s2) @ ws,
                objectCounter := objectCounter (if length ws > 0 then selectObject (Some (hd ws)) False s2 else s2)
                                 + length ws\<rparr>"
    unfolding ws_def by (simp add: importModel_def Let_def r)
  have "wrappers (importModel env (Some (Parsed nodes p)) s) = wrappers s @ Ws"
    unfolding m by (simp add: f(1))
  moreover have "objects (importModel env (Some (Parsed nodes p)) s)
          = objects s @ map (\<lambda>i. length (wrappers s) + i) [0..<length Ws]"
    unfolding m by (simp add: g ws_def)
  moreover have "idCalls (importModel env (Some (Parsed nodes p)) s) = idCalls s + length Ws"
    unfolding m by (simp add: g)
  moreover have "alerts (importModel env (Some (Parsed nodes p)) s) = alerts s"
    unfolding m by (simp add: g)
  moreover have "objectCounter (importModel env (Some (Parsed nodes p)) s) = objectCounter s + length Ws"
    unfolding m by (simp add: g lw)
  ultimately show ?thesis using f(2,3,4) by blast
qed

lemma importModel_raised:
  assumes "list_ex raises nodes"
  shows "objects (importModel env (Some (Parsed nodes p)) s) = objects s"
    and "objectCounter (importModel env (Some (Parsed nodes p)) s) = objectCounter s"
    and "selectedObject (importModel env (Some (Parsed nodes p)) s) = selectedObject s"
    and "alerts (importModel env (Some (Parsed nodes p)) s)
         = alerts s @ (if p then [''Failed to import model''] else [])"
    and "idCalls s \<le> idCalls (importModel env (Some (Parsed nodes p)) s)"
    and "\<exists>Ws. wrappers (importModel env (Some (Parsed nodes p)) s) = wrappers s @ Ws"
proof -
  obtain r s2 where r: "importNodes env (objectCounter s) nodes (saveUndoState s) = (r, s2)"
    by (cases "importNodes env (objectCounter s) nodes (saveUndoState s)")
  from importNodes_raises [OF assms, where env = env and c = "objectCounter s"
                             and s = "saveUndoState s"] r
  have n: "r = None" by simp
  from importNodes_frame [OF r] obtain Ws where
    f: "wrappers s2 = wrappers s @ Ws" "idCalls s \<le> idCalls s2" "objects s2 = objects s"
      "alerts s2 = alerts s" "objectCounter s2 = objectCounter s"
      "selectedObject s2 = selectedObject s"
    by (auto simp: saveUndoState_def)
  have m: "importModel env (Some (Parsed nodes p)) s
           = (if p then s2\<lparr>alerts := alerts s2 @ [''Failed to import model'']\<rparr> else s2)"
    by (simp add: importModel_def Let_def r n)
  show "objects (importModel env (Some (Parsed nodes p)) s) = objects s"
    unfolding m by (simp add: f)
  show "objectCounter (importModel env (Some (Parsed nodes p)) s) = objectCounter s"
    unfolding m by (simp add: f)
  show "selectedObject (importModel env (Some (Parsed nodes p)) s) = selectedObject s"
    unfolding m by (simp add: f)
  show "alerts (importModel env (Some (Parsed nodes p)) s)
         = alerts s @ (if p then [''Failed to import model''] else [])"
    unfolding m by (simp add: f)
  show "idCalls s \<le> idCalls (importModel env (Some (Parsed nodes p)) s)"
    unfolding m by (simp add: f)
  show "\<exists>Ws. wrappers (importModel env (Some (Parsed nodes p)) s) = wrappers s @ Ws"
    unfolding m by (simp add: f)
qed

lemma importModel_error:
  "importModel env (Some ParseError) s
     = (saveUndoState s)\<lparr>alerts := alerts s @ [''Failed to import model'']\<rparr>"
  by (simp add: importModel_def)

lemma importModel_silent:
  "importModel env (Some ReadFailed) s = saveUndoState s"
  "importModel env (Some ParseThrew) s = saveUndoState s"
  by (simp_all add: importModel_def)

lemma extends_import: "extends env s (importModel env chosen s)"
proof (cases chosen)
  case None
  show ?thesis unfolding None
    by (rule extends_same [where P = "\<lambda>_. True"]) (simp_all add: importModel_def)
next
  case (Some result)
  show ?thesis
  proof (cases result)
    case ReadFailed
    show ?thesis unfolding Some ReadFailed importModel_silent
      by (rule extends_same [where P = "\<lambda>_. True"]) simp_all
  next
    case ParseThrew
    show ?thesis unfolding Some ParseThrew importModel_silent
      by (rule extends_same [where P = "\<lambda>_. True"]) simp_all
  next
    case ParseError
    show ?thesis unfolding Some ParseError importModel_error
      by (rule extends_same [where P = "\<lambda>_. True"]) simp_all
  next
    case (Parsed nodes p)
    show ?thesis
    proof (cases "list_ex raises nodes")
      case True
      note f = importModel_raised [OF True, where env = env and p = p and s = s]
      from f(6) obtain Ws where
        w: "wrappers (importModel env (Some (Parsed nodes p)) s) = wrappers s @ Ws" ..
      show ?thesis unfolding Some Parsed
        by (rule extends_same [where P = "\<lambda>_. True"]) (simp_all add: f(1,5) w nth_append)
    next
      case False
      from importModel_parsed [OF False, where env = env and p = p and s = s] obtain Ws where
        "wrappers (importModel env (Some (Parsed nodes p)) s) = wrappers s @ Ws"
        "objects (importModel env (Some (Parsed nodes p)) s)
            = objects s @ map (\<lambda>i. length (wrappers s) + i) [0..<length Ws]"
        "map obj_id Ws = map (\<lambda>i. mkId (env (idCalls s + i))) [0..<length Ws]"
        "idCalls (importModel env (Some (Parsed nodes p)) s) = idCalls s + length Ws"
        by blast
      then show ?thesis unfolding Some Parsed by (intro extends_new [where ws = Ws])
    qed
  qed
qed

lemma perform_extends: "extends env s (perform env op s)"
  by (cases op)
     (simp_all add: extends_add extends_duplicate extends_import extends_delete
        extends_deleteSelected extends_clear extends_select extends_selectAll extends_update
        extends_toggleVisibility)

subsection \<open>Ids stay distinct while the draws are distinct\<close>

lemma everIssued_mono:
  "idCalls s \<le> idCalls t \<Longrightarrow> set (everIssued env s) \<subseteq> set (everIssued env t)"
  by (auto simp: everIssued_def)

lemma not_yet_issued:
  assumes "inj env"
  shows "mkId (env (idCalls s + i)) \<notin> set (everIssued env s)"
proof
  assume "mkId (env (idCalls s + i)) \<in> set (everIssued env s)"
  then obtain k where k: "k < idCalls s" "mkId (env (idCalls s + i)) = mkId (env k)"
    by (auto simp: everIssued_def)
  from mkId_inj [OF k(2)] assms have "idCalls s + i = k" by (simp add: inj_eq)
  with k(1) show False by simp
qed

lemma extends_preserves:
  assumes inj: "inj env" and wi: "wellIdentified env s" and ex: "extends env s s'"
  shows "wellIdentified env s'"
    and "idCalls s \<le> idCalls s'"
    and "w \<in> set (objects s') \<Longrightarrow> obj_id (theObj s' w) \<in> set (everIssued env s)
         \<Longrightarrow> w \<in> set (objects s)"
proof -
  let ?L = "length (wrappers s)"
  let ?K = "idCalls s"
  from ex obtain P n where
    ob: "objects s' = filter P (objects s) @ map (\<lambda>i. ?L + i) [0..<n]"
    and ic: "?K + n \<le> idCalls s'"
    and len: "?L + n \<le> length (wrappers s')"
    and keep: "\<forall>w<?L. obj_id (wrappers s' ! w) = obj_id (wrappers s ! w)"
    and new: "map (\<lambda>i. obj_id (wrappers s' ! (?L + i))) [0..<n]
              = map (\<lambda>i. mkId (env (?K + i))) [0..<n]"
    unfolding extends_def by blast
  from wi have valid: "\<forall>w\<in>set (objects s). w < ?L"
    and dist: "distinct (liveIds s)"
    and sub: "set (liveIds s) \<subseteq> set (everIssued env s)"
    by (simp_all add: wellIdentified_def list_all_iff)
  let ?kept = "map (\<lambda>w. obj_id (theObj s w)) (filter P (objects s))"
  let ?fresh = "map (\<lambda>i. mkId (env (?K + i))) [0..<n]"
  have k1: "map (\<lambda>w. obj_id (theObj s' w)) (filter P (objects s)) = ?kept"
    using valid keep by (intro map_cong refl) (simp add: theObj_def)
  have k2: "map (\<lambda>w. obj_id (theObj s' w)) (map (\<lambda>i. ?L + i) [0..<n]) = ?fresh"
    using new by (simp add: theObj_def comp_def)
  have live: "liveIds s' = ?kept @ ?fresh"
    by (simp only: liveIds_def ob map_append k1 k2)
  have keptsub: "set ?kept \<subseteq> set (liveIds s)" by (auto simp: liveIds_def)
  have d1: "distinct ?kept"
    using dist unfolding liveIds_def by (rule distinct_map_filter)
  have "inj_on (\<lambda>i. mkId (env (?K + i))) (set [0..<n])"
  proof (rule inj_onI)
    fix a b assume "mkId (env (?K + a)) = mkId (env (?K + b))"
    from mkId_inj [OF this] inj show "a = b" by (simp add: inj_eq)
  qed
  then have d2: "distinct ?fresh" by (simp add: distinct_map)
  have d3: "set ?kept \<inter> set ?fresh = {}"
  proof -
    have "x \<notin> set ?fresh" if "x \<in> set ?kept" for x
    proof
      assume "x \<in> set ?fresh"
      then obtain i where "x = mkId (env (?K + i))" by auto
      moreover from that keptsub sub have "x \<in> set (everIssued env s)" by blast
      ultimately show False using not_yet_issued [OF inj, of s i] by simp
    qed
    then show ?thesis by blast
  qed
  have le: "?K \<le> idCalls s'" using ic by simp
  have s1: "set ?kept \<subseteq> set (everIssued env s')"
    using keptsub sub everIssued_mono [OF le, of env] by blast
  have s2: "set ?fresh \<subseteq> set (everIssued env s')"
    using ic by (auto simp: everIssued_def)
  have v: "list_all (\<lambda>w. w < length (wrappers s')) (objects s')"
    using valid len by (auto simp: ob list_all_iff)
  show "wellIdentified env s'"
    unfolding wellIdentified_def live using v d1 d2 d3 s1 s2 by simp
  show "idCalls s \<le> idCalls s'" by (rule le)
  show "w \<in> set (objects s)"
    if m: "w \<in> set (objects s')" and i: "obj_id (theObj s' w) \<in> set (everIssued env s)"
  proof (rule ccontr)
    assume n: "w \<notin> set (objects s)"
    with m ob have "w \<in> set (map (\<lambda>i. ?L + i) [0..<n])" by auto
    then have "w \<in> (\<lambda>i. ?L + i) ` set [0..<n]" by (simp only: set_map)
    then obtain j where "j \<in> set [0..<n]" and j2: "w = ?L + j" by blast
    then have j: "j < n" "w = ?L + j" by simp_all
    have "map (\<lambda>i. obj_id (wrappers s' ! (?L + i))) [0..<n] ! j = ?fresh ! j"
      by (simp only: new)
    with j have "obj_id (theObj s' w) = mkId (env (?K + j))" by (simp add: theObj_def)
    with i not_yet_issued [OF inj, of s j] show False by simp
  qed
qed

lemma run_snoc: "run env (ops @ [op]) s = perform env op (run env ops s)"
  by (simp add: run_def)

lemma run_preserves:
  assumes inj: "inj env" and wi: "wellIdentified env s"
  shows "wellIdentified env (run env ops s) \<and> idCalls s \<le> idCalls (run env ops s)
         \<and> (\<forall>w\<in>set (objects (run env ops s)).
               obj_id (theObj (run env ops s) w) \<in> set (everIssued env s) \<longrightarrow> w \<in> set (objects s))"
proof (induction ops rule: rev_induct)
  case Nil
  show ?case using wi by (simp add: run_def)
next
  case (snoc op ops)
  let ?t = "run env ops s"
  let ?t' = "perform env op ?t"
  from snoc have wt: "wellIdentified env ?t" and le: "idCalls s \<le> idCalls ?t"
    and old: "\<forall>w\<in>set (objects ?t). obj_id (theObj ?t w) \<in> set (everIssued env s) \<longrightarrow> w \<in> set (objects s)"
    by simp_all
  note p = extends_preserves [OF inj wt perform_extends [of env ?t op]]
  have "w \<in> set (objects s)"
    if m: "w \<in> set (objects ?t')" and i: "obj_id (theObj ?t' w) \<in> set (everIssued env s)" for w
  proof -
    from i everIssued_mono [OF le, of env] have i': "obj_id (theObj ?t' w) \<in> set (everIssued env ?t)"
      by blast
    from p(3) [OF m i'] have wt': "w \<in> set (objects ?t)" .
    from wt wt' have "w < length (wrappers ?t)" by (simp add: wellIdentified_def list_all_iff)
    moreover from perform_extends [of env ?t op]
    have "\<forall>w<length (wrappers ?t). obj_id (wrappers ?t' ! w) = obj_id (wrappers ?t ! w)"
      unfolding extends_def by blast
    ultimately have "obj_id (theObj ?t' w) = obj_id (theObj ?t w)" by (simp add: theObj_def)
    with i old wt' show ?thesis by simp
  qed
  with p(1) p(2) le show ?case unfolding run_snoc by auto
qed

lemma wellIdentified_initial: "wellIdentified env initialEditor"
  by (simp add: wellIdentified_def initialEditor_def liveIds_def)

text \<open>
  C4, as the code has it. \<open>generateId\<close> builds an id from the clock and a random
  suffix and checks nothing, so uniqueness rests on the draws: provided no two calls of
  \<open>generateId\<close> in the session see the same timestamp and suffix (\<open>env\<close> is injective),
  after every sequence of operations other than undo (add, duplicate, import, the
  deletions, selection and property edits) the ids of the live objects are pairwise
  distinct; and whatever id had been handed out by some point of the session, an object
  carrying it later was already live at that point, so no id of an earlier or deleted
  object goes to an object created afterwards.
\<close>

theorem ids_distinct_while_draws_distinct:
  assumes "inj env"
  shows "let s1 = run env ops1 initialEditor; s2 = run env ops2 s1
         in distinct (liveIds s2)
          \<and> set (liveIds s1) \<subseteq> set (everIssued env s1)
          \<and> list_all (\<lambda>w. obj_id (theObj s2 w) \<in> set (everIssued env s1) \<longrightarrow> w \<in> set (objects s1))
               (objects s2)"
proof -
  let ?s1 = "run env ops1 initialEditor"
  let ?s2 = "run env ops2 ?s1"
  from run_preserves [OF assms wellIdentified_initial, of ops1]
  have w1: "wellIdentified env ?s1" by simp
  from run_preserves [OF assms w1, of ops2]
  have w2: "wellIdentified env ?s2"
    and old: "\<forall>w\<in>set (objects ?s2). obj_id (theObj ?s2 w) \<in> set (everIssued env ?s1) \<longrightarrow> w \<in> set (objects ?s1)"
    by simp_all
  from w1 w2 old show ?thesis unfolding Let_def wellIdentified_def list_all_iff by blast
qed

lemma inj_env0: "inj env0"
  by (rule injI) (simp add: env0_def)

theorem ids_distinct_while_draws_distinct_witness:
  "inj env0
   \<and> (let s1 = run env0 [AddPrimitive 0x3366cc ''cube'', AddPrimitive 0xcc6633 ''sphere'',
                          DeleteObject (Some 0)] initialEditor;
           s2 = run env0 [AddPrimitive 0x33cc66 ''cone'', DuplicateObject (Some 1)] s1
       in distinct (liveIds s2)
        \<and> set (liveIds s1) \<subseteq> set (everIssued env0 s1)
        \<and> list_all (\<lambda>w. obj_id (theObj s2 w) \<in> set (everIssued env0 s1) \<longrightarrow> w \<in> set (objects s1))
             (objects s2))"
  by (intro conjI inj_env0 ids_distinct_while_draws_distinct [OF inj_env0])


lemma liveIds_add:
  assumes "list_all (\<lambda>w. w < length (wrappers s)) (objects s)"
  shows "liveIds (snd (addPrimitive env c type s)) = liveIds s @ [mkId (env (idCalls s))]"
    and "list_all (\<lambda>w. w < length (wrappers (snd (addPrimitive env c type s))))
           (objects (snd (addPrimitive env c type s)))"
    and "idCalls (snd (addPrimitive env c type s)) = Suc (idCalls s)"
proof -
  obtain w s' where a: "addPrimitive env c type s = (w, s')" by (cases "addPrimitive env c type s")
  note f = addPrimitive_facts [OF a]
  from assms have v: "\<forall>x\<in>set (objects s). x < length (wrappers s)" by (simp add: list_all_iff)
  have "map (\<lambda>x. obj_id (theObj s' x)) (objects s) = map (\<lambda>x. obj_id (theObj s x)) (objects s)"
    using v by (intro map_cong refl) (simp add: theObj_def f(2) nth_append)
  then show "liveIds (snd (addPrimitive env c type s)) = liveIds s @ [mkId (env (idCalls s))]"
    unfolding a snd_conv liveIds_def by (simp add: f(3)) (simp add: theObj_def f(1,2))
  show "list_all (\<lambda>w. w < length (wrappers (snd (addPrimitive env c type s))))
           (objects (snd (addPrimitive env c type s)))"
    unfolding a snd_conv using v by (auto simp: f(1,2,3) list_all_iff)
  show "idCalls (snd (addPrimitive env c type s)) = Suc (idCalls s)"
    unfolding a snd_conv by (rule f)
qed

lemma mkId_stuck: "mkId (stuckEnv k) = ''obj_1700_k3j9x2m1q''"
  by (simp add: mkId_def stuckEnv_def showNat.simps digitChar_def)

text \<open>
  The claim without the proviso fails: two objects added while the clock and the random
  generator repeat their values get the same id.
\<close>

theorem ids_collide_when_draws_repeat:
  "liveIds (run stuckEnv [AddPrimitive 0x3366cc ''cube'', AddPrimitive 0xcc6633 ''sphere'']
              initialEditor)
     = [''obj_1700_k3j9x2m1q'', ''obj_1700_k3j9x2m1q'']
   \<and> \<not> distinct (liveIds (run stuckEnv [AddPrimitive 0x3366cc ''cube'',
                                          AddPrimitive 0xcc6633 ''sphere''] initialEditor))"
proof -
  let ?s1 = "snd (addPrimitive stuckEnv 0x3366cc ''cube'' initialEditor)"
  have v0: "list_all (\<lambda>w. w < length (wrappers initialEditor)) (objects initialEditor)"
    by (simp add: initialEditor_def)
  have l0: "liveIds initialEditor = []" by (simp add: liveIds_def initialEditor_def)
  have r: "run stuckEnv [AddPrimitive 0x3366cc ''cube'', AddPrimitive 0xcc6633 ''sphere''] initialEditor
           = snd (addPrimitive stuckEnv 0xcc6633 ''sphere'' ?s1)"
    by (simp add: run_def)
  have "liveIds (snd (addPrimitive stuckEnv 0xcc6633 ''sphere'' ?s1))
        = [''obj_1700_k3j9x2m1q'', ''obj_1700_k3j9x2m1q'']"
    by (simp only: liveIds_add(1) [OF liveIds_add(2) [OF v0]] liveIds_add(1) [OF v0] l0
        mkId_stuck append_Nil append_Cons)
  then show ?thesis unfolding r by simp
qed

subsection \<open>Import\<close>

lemma wellIdentified_oneCube: "wellIdentified env0 oneCube"
  by (simp add: wellIdentified_def liveIds_def everIssued_def oneCube_eval theObj_def
      mkId_def env0_def showNat.simps digitChar_def)

text \<open>
  C8, as the code has it. The only per-node test of \<open>importModel\<close> is \<open>child.isMesh\<close>:
  a node that is not a mesh is passed over, every mesh node becomes an object, and
  nothing recovers from a node whose processing raises. So, in a session whose objects
  are well identified and whose draws do not repeat, when no delivered node raises, one
  object per mesh node is appended to \<open>objects\<close>, of kind \<open>imported\<close>, with the next ids
  of \<open>generateId\<close>, which differ from each other and from every live id, and nothing is
  reported; when some mesh node has no material, the import is abandoned: \<open>objects\<close> is
  as before, also the well-formed nodes are not imported, and \<open>Failed to import model\<close> is
  shown only if the loader passes the exception on to the error callback. When the loader
  itself calls the error callback, \<open>Failed to import model\<close> is shown and the objects, the
  store and the scene are as before. When the reader fails or \<open>loader.parse\<close> throws,
  only the undo snapshot has been taken: the objects are as before and nothing is shown.
\<close>

theorem import_all_mesh_nodes_or_none:
  assumes "inj env" and "wellIdentified env s"
  shows "let n = length (filter isMesh nodes);
             s' = importModel env (Some (Parsed nodes passedOn)) s;
             new = drop (length (objects s)) (objects s');
             failed = importModel env (Some ParseError) s
         in (if list_ex raises nodes
             then objects s' = objects s
                \<and> alerts s' = alerts s @ (if passedOn then [''Failed to import model''] else [])
             else take (length (objects s)) (objects s') = objects s
                \<and> length new = n
                \<and> map (\<lambda>w. obj_type (theObj s' w)) new = replicate n ''imported''
                \<and> map (\<lambda>w. obj_id (theObj s' w)) new = map (\<lambda>i. mkId (env (idCalls s + i))) [0..<n]
                \<and> distinct (liveIds s')
                \<and> alerts s' = alerts s)
          \<and> alerts failed = alerts s @ [''Failed to import model'']
          \<and> objects failed = objects s \<and> wrappers failed = wrappers s
          \<and> meshes failed = meshes s \<and> scene failed = scene s
          \<and> selectedObject failed = selectedObject s
          \<and> importModel env (Some ReadFailed) s = saveUndoState s
          \<and> importModel env (Some ParseThrew) s = saveUndoState s
          \<and> objects (saveUndoState s) = objects s \<and> alerts (saveUndoState s) = alerts s"
proof -
  let ?s' = "importModel env (Some (Parsed nodes passedOn)) s"
  let ?L = "length (wrappers s)"
  let ?n = "length (filter isMesh nodes)"
  have parsed: "if list_ex raises nodes
             then objects ?s' = objects s
                \<and> alerts ?s' = alerts s @ (if passedOn then [''Failed to import model''] else [])
             else take (length (objects s)) (objects ?s') = objects s
                \<and> length (drop (length (objects s)) (objects ?s')) = ?n
                \<and> map (\<lambda>w. obj_type (theObj ?s' w)) (drop (length (objects s)) (objects ?s'))
                    = replicate ?n ''imported''
                \<and> map (\<lambda>w. obj_id (theObj ?s' w)) (drop (length (objects s)) (objects ?s'))
                    = map (\<lambda>i. mkId (env (idCalls s + i))) [0..<?n]
                \<and> distinct (liveIds ?s')
                \<and> alerts ?s' = alerts s"
  proof (cases "list_ex raises nodes")
    case True
    with importModel_raised(1,4) [OF True, where env = env and p = passedOn and s = s]
    show ?thesis by simp
  next
    case False
    from importModel_parsed [OF False, where env = env and p = passedOn and s = s] obtain Ws where
      w: "wrappers ?s' = wrappers s @ Ws" and l: "length Ws = ?n"
      and ob: "objects ?s' = objects s @ map (\<lambda>i. ?L + i) [0..<length Ws]"
      and ids: "map obj_id Ws = map (\<lambda>i. mkId (env (idCalls s + i))) [0..<length Ws]"
      and ty: "map obj_type Ws = replicate (length Ws) ''imported''"
      and al: "alerts ?s' = alerts s"
      by blast
    have dr: "drop (length (objects s)) (objects ?s') = map (\<lambda>i. ?L + i) [0..<length Ws]"
      by (simp add: ob)
    have nth: "map (\<lambda>w. f (theObj ?s' w)) (map (\<lambda>i. ?L + i) [0..<length Ws]) = map f Ws"
      for f :: "sceneObject \<Rightarrow> string"
      by (rule nth_equalityI) (simp_all add: theObj_def w)
    note nt = nth [of obj_type] and ni = nth [of obj_id]
    have c1: "take (length (objects s)) (objects ?s') = objects s" by (simp add: ob)
    have c2: "length (drop (length (objects s)) (objects ?s')) = ?n" by (simp add: dr l)
    have c3: "map (\<lambda>w. obj_type (theObj ?s' w)) (drop (length (objects s)) (objects ?s'))
              = replicate ?n ''imported''"
      using nt by (simp add: dr ty l)
    have c4: "map (\<lambda>w. obj_id (theObj ?s' w)) (drop (length (objects s)) (objects ?s'))
              = map (\<lambda>i. mkId (env (idCalls s + i))) [0..<?n]"
      using ni by (simp add: dr ids l)
    have c5: "distinct (liveIds ?s')"
      using extends_preserves(1) [OF assms extends_import [of env s "Some (Parsed nodes passedOn)"]]
      by (simp add: wellIdentified_def)
    from False c1 c2 c3 c4 c5 al show ?thesis by simp
  qed
  have e: "alerts (importModel env (Some ParseError) s) = alerts s @ [''Failed to import model'']"
    "objects (importModel env (Some ParseError) s) = objects s"
    "wrappers (importModel env (Some ParseError) s) = wrappers s"
    "meshes (importModel env (Some ParseError) s) = meshes s"
    "scene (importModel env (Some ParseError) s) = scene s"
    "selectedObject (importModel env (Some ParseError) s) = selectedObject s"
    by (simp_all add: importModel_error)
  have q: "objects (saveUndoState s) = objects s" "alerts (saveUndoState s) = alerts s"
    by (simp_all add: saveUndoState_def)
  from parsed e q importModel_silent [of env s] show ?thesis unfolding Let_def by simp
qed

theorem import_all_mesh_nodes_or_none_witness:
  "inj env0 \<and> wellIdentified env0 oneCube
   \<and> \<not> list_ex raises sampleBlob \<and> length (filter isMesh sampleBlob) = 2
   \<and> (let n = length (filter isMesh sampleBlob);
             s' = importModel env0 (Some (Parsed sampleBlob True)) oneCube;
             new = drop (length (objects oneCube)) (objects s');
             failed = importModel env0 (Some ParseError) oneCube
         in (if list_ex raises sampleBlob
             then objects s' = objects oneCube
                \<and> alerts s' = alerts oneCube @ (if True then [''Failed to import model''] else [])
             else take (length (objects oneCube)) (objects s') = objects oneCube
                \<and> length new = n
                \<and> map (\<lambda>w. obj_type (theObj s' w)) new = replicate n ''imported''
                \<and> map (\<lambda>w. obj_id (theObj s' w)) new
                    = map (\<lambda>i. mkId (env0 (idCalls oneCube + i))) [0..<n]
                \<and> distinct (liveIds s')
                \<and> alerts s' = alerts oneCube)
          \<and> alerts failed = alerts oneCube @ [''Failed to import model'']
          \<and> objects failed = objects oneCube \<and> wrappers failed = wrappers oneCube
          \<and> meshes failed = meshes oneCube \<and> scene failed = scene oneCube
          \<and> selectedObject failed = selectedObject oneCube
          \<and> importModel env0 (Some ReadFailed) oneCube = saveUndoState oneCube
          \<and> importModel env0 (Some ParseThrew) oneCube = saveUndoState oneCube
          \<and> objects (saveUndoState oneCube) = objects oneCube
          \<and> alerts (saveUndoState oneCube) = alerts oneCube)"
proof -
  have h1: "\<not> list_ex raises sampleBlob" by (simp add: sampleBlob_def raises_def)
  have h2: "length (filter isMesh sampleBlob) = 2" by (simp add: sampleBlob_def)
  show ?thesis
    by (intro conjI h1 h2 inj_env0 wellIdentified_oneCube
        import_all_mesh_nodes_or_none [OF inj_env0 wellIdentified_oneCube])
qed

text \<open>
  The claim fails for three delivered nodes of which two are well-formed meshes and the
  one between them is a mesh without a material: the first mesh is put into the scene,
  the second raises, and no object at all is added, with or without a notice. And a
  failure that reaches the code as an exception of \<open>loader.parse\<close> or as a reader error
  is not reported.
\<close>

theorem import_abandoned_at_broken_node:
  "length brokenBlob = 3
   \<and> length (filter (\<lambda>n. isMesh n \<and> \<not> raises n) brokenBlob) = 2
   \<and> length (filter raises brokenBlob) = 1
   \<and> objects (importModel env0 (Some (Parsed brokenBlob True)) oneCube) = objects oneCube
   \<and> length (objects (importModel env0 (Some (Parsed brokenBlob True)) oneCube)) = 1
   \<and> alerts (importModel env0 (Some (Parsed brokenBlob True)) oneCube) = [''Failed to import model'']
   \<and> objects (importModel env0 (Some (Parsed brokenBlob False)) oneCube) = objects oneCube
   \<and> alerts (importModel env0 (Some (Parsed brokenBlob False)) oneCube) = []
   \<and> scene (importModel env0 (Some (Parsed brokenBlob True)) oneCube) = [0, 1]
   \<and> alerts (importModel env0 (Some ParseThrew) oneCube) = []
   \<and> alerts (importModel env0 (Some ReadFailed) oneCube) = []"
proof -
  have r: "list_ex raises brokenBlob" by (simp add: brokenBlob_def raises_def)
  have a: "alerts oneCube = []" "length (objects oneCube) = 1" by (simp_all add: oneCube_eval)
  have sc: "scene (importModel env0 (Some (Parsed brokenBlob True)) oneCube) = [0, 1]"
    by (simp add: importModel_def brokenBlob_def importNode_eq saveUndoState_def oneCube_eval)
  show ?thesis
    using importModel_raised(1,4) [OF r, where env = env0 and p = True and s = oneCube]
      importModel_raised(1,4) [OF r, where env = env0 and p = False and s = oneCube] a sc
    by (simp add: importModel_silent saveUndoState_def) (simp add: brokenBlob_def raises_def)
qed

end
